(* ===== verification/Ember_Prelude.thy ===== *)
theory Ember_Prelude
  imports Main "HOL-Library.Word" "HOL-Library.AList" "HOL-Library.Sublist"
begin

text \<open>
  Shared vocabulary of the Ember development.

  It holds the machine types of the source (a 64-bit target: \<open>usize\<close> is \<open>64 word\<close>), the
  fragment of the Rust standard library the source uses (byte strings and their searches,
  \<open>checked_mul\<close>, decimal printing and parsing, \<open>HashMap\<close>/\<open>BTreeMap\<close> as association lists,
  Unix path components, \<open>Duration\<close>/\<open>Instant\<close> as nanosecond counts), the lemma collections
  that the component theories extend, and two interfaces: the keyed-map contract and the
  generic transition system with its reachable states.

  A Rust \<open>str\<close> is the list of its UTF-8 bytes; a HOL \<open>char\<close> is a byte.
\<close>

named_theorems ember_splits \<open>case distinctions on the results of fallible operations\<close>
named_theorems byte_simps \<open>evaluation of byte classifications\<close>
named_theorems std_defs \<open>definitions of the modelled standard-library operations\<close>

declare sum.splits [ember_splits] option.splits [ember_splits] prod.splits [ember_splits]
  if_splits [ember_splits]

section \<open>Machine types\<close>

type_synonym u8 = "8 word"
type_synonym u16 = "16 word"
type_synonym u32 = "32 word"
type_synonym u64 = "64 word"
type_synonym usize = "64 word"
type_synonym bytes = "u8 list"

text \<open>A \<open>Duration\<close> and an \<open>Instant\<close> are counts of nanoseconds; instants count from an
  arbitrary epoch of the monotonic clock.\<close>

type_synonym duration = nat
type_synonym instant = nat

definition from_secs :: "u64 \<Rightarrow> duration" where
  "from_secs s = unat s * 1000000000"

definition from_millis :: "u64 \<Rightarrow> duration" where
  "from_millis ms = unat ms * 1000000"

definition saturating_duration_since :: "instant \<Rightarrow> instant \<Rightarrow> duration" where
  "saturating_duration_since later earlier = later - earlier"

text \<open>\<open>checked_mul\<close> on \<open>usize\<close>: \<open>None\<close> on overflow.\<close>

definition checked_mul :: "usize \<Rightarrow> usize \<Rightarrow> usize option" where
  "checked_mul a b = (if unat a * unat b < 2 ^ 64 then Some (a * b) else None)"

section \<open>Bytes and byte strings\<close>

definition byte :: "char \<Rightarrow> nat" where
  "byte c = of_char c"

definition is_ascii_digit :: "char \<Rightarrow> bool" where
  "is_ascii_digit c \<longleftrightarrow> 48 \<le> byte c \<and> byte c \<le> 57"

definition is_ascii_lowercase :: "char \<Rightarrow> bool" where
  "is_ascii_lowercase c \<longleftrightarrow> 97 \<le> byte c \<and> byte c \<le> 122"

definition is_ascii_uppercase :: "char \<Rightarrow> bool" where
  "is_ascii_uppercase c \<longleftrightarrow> 65 \<le> byte c \<and> byte c \<le> 90"

definition is_ascii_alphanumeric :: "char \<Rightarrow> bool" where
  "is_ascii_alphanumeric c \<longleftrightarrow>
     is_ascii_digit c \<or> is_ascii_lowercase c \<or> is_ascii_uppercase c"

definition is_ascii_hexdigit :: "char \<Rightarrow> bool" where
  "is_ascii_hexdigit c \<longleftrightarrow> is_ascii_digit c \<or>
     (97 \<le> byte c \<and> byte c \<le> 102) \<or> (65 \<le> byte c \<and> byte c \<le> 70)"

definition to_ascii_lower :: "char \<Rightarrow> char" where
  "to_ascii_lower c = (if is_ascii_uppercase c then char_of (byte c + 32) else c)"

definition to_ascii_lowercase :: "string \<Rightarrow> string" where
  "to_ascii_lowercase = map to_ascii_lower"

definition eq_ignore_ascii_case :: "string \<Rightarrow> string \<Rightarrow> bool" where
  "eq_ignore_ascii_case a b \<longleftrightarrow> to_ascii_lowercase a = to_ascii_lowercase b"

text \<open>\<open>str::strip_prefix\<close>, \<open>str::find\<close> of a substring, \<open>str::contains\<close>.\<close>

fun strip_prefix :: "string \<Rightarrow> string \<Rightarrow> string option" where
  "strip_prefix [] s = Some s"
| "strip_prefix (p # ps) [] = None"
| "strip_prefix (p # ps) (c # s) = (if p = c then strip_prefix ps s else None)"

fun find_sub :: "string \<Rightarrow> string \<Rightarrow> nat option" where
  "find_sub pat [] = (if pat = [] then Some 0 else None)"
| "find_sub pat (c # s) =
     (if strip_prefix pat (c # s) \<noteq> None then Some 0
      else map_option Suc (find_sub pat s))"

definition str_contains :: "string \<Rightarrow> string \<Rightarrow> bool" where
  "str_contains s pat \<longleftrightarrow> find_sub pat s \<noteq> None"

definition starts_with :: "string \<Rightarrow> string \<Rightarrow> bool" where
  "starts_with s pat \<longleftrightarrow> strip_prefix pat s \<noteq> None"

text \<open>\<open>str::split\<close> on one ASCII character: never empty, adjacent separators give empty pieces.\<close>

fun split_on :: "char \<Rightarrow> string \<Rightarrow> string list" where
  "split_on sep [] = [[]]"
| "split_on sep (c # s) =
     (if c = sep then [] # split_on sep s
      else (case split_on sep s of [] \<Rightarrow> [[c]] | w # ws \<Rightarrow> (c # w) # ws))"

text \<open>\<open>str::rsplit_once\<close>: the part before and the part after the last separator.\<close>

fun rsplit_once :: "char \<Rightarrow> string \<Rightarrow> (string \<times> string) option" where
  "rsplit_once sep [] = None"
| "rsplit_once sep (c # s) =
     (case rsplit_once sep s of
        Some (a, b) \<Rightarrow> Some (c # a, b)
      | None \<Rightarrow> if c = sep then Some ([], s) else None)"

text \<open>\<open>[String]::join\<close>.\<close>

fun str_join :: "string \<Rightarrow> string list \<Rightarrow> string" where
  "str_join sep [] = []"
| "str_join sep [w] = w"
| "str_join sep (w # ws) = w @ sep @ str_join sep ws"

text \<open>
  \<open>str::trim\<close> removes Unicode white space. On UTF-8 bytes the white-space characters are the
  ASCII ones (9 to 13 and 32) and the encodings of U+0085, U+00A0, U+1680, U+2000 to U+200A,
  U+2028, U+2029, U+202F, U+205F and U+3000. \<open>ws_prefix\<close> is the number of bytes of a
  white-space character at the front, \<open>ws_suffix\<close> the same on the reversed string.
\<close>

fun ws_prefix :: "nat list \<Rightarrow> nat" where
  "ws_prefix [] = 0"
| "ws_prefix (a # s) =
     (if (9 \<le> a \<and> a \<le> 13) \<or> a = 32 then 1
      else (case s of [] \<Rightarrow> 0
      | b # s' \<Rightarrow>
          if a = 194 \<and> (b = 133 \<or> b = 160) then 2
          else (case s' of [] \<Rightarrow> 0
          | c # _ \<Rightarrow>
              if (a = 225 \<and> b = 154 \<and> c = 128)
                 \<or> (a = 226 \<and> b = 128 \<and> ((128 \<le> c \<and> c \<le> 138) \<or> c = 168 \<or> c = 169 \<or> c = 175))
                 \<or> (a = 226 \<and> b = 129 \<and> c = 159)
                 \<or> (a = 227 \<and> b = 128 \<and> c = 128)
              then 3 else 0)))"

fun ws_suffix :: "nat list \<Rightarrow> nat" where
  "ws_suffix [] = 0"
| "ws_suffix (a # s) =
     (if (9 \<le> a \<and> a \<le> 13) \<or> a = 32 then 1
      else (case s of [] \<Rightarrow> 0
      | b # s' \<Rightarrow>
          if ws_prefix [b, a] = 2 then 2
          else (case s' of [] \<Rightarrow> 0
          | c # _ \<Rightarrow> if ws_prefix [c, b, a] = 3 then 3 else 0)))"

function trim_start :: "string \<Rightarrow> string" where
  "trim_start s =
     (let k = ws_prefix (map byte s) in
      if k = 0 \<or> s = [] then s else trim_start (drop k s))"
  by pat_completeness auto
termination
  by (relation "measure length") auto

function trim_end_rev :: "string \<Rightarrow> string" where
  "trim_end_rev s =
     (let k = ws_suffix (map byte s) in
      if k = 0 \<or> s = [] then s else trim_end_rev (drop k s))"
  by pat_completeness auto
termination
  by (relation "measure length") auto

declare trim_start.simps [simp del] trim_end_rev.simps [simp del]

definition trim :: "string \<Rightarrow> string" where
  "trim s = rev (trim_end_rev (rev (trim_start s)))"

section \<open>Decimal numbers\<close>

definition digit_char :: "nat \<Rightarrow> char" where
  "digit_char d = char_of (48 + d)"

fun show_nat :: "nat \<Rightarrow> string" where
  "show_nat n = (if n < 10 then [digit_char n] else show_nat (n div 10) @ [digit_char (n mod 10)])"

declare show_nat.simps [simp del]

definition show_word :: "'a::len word \<Rightarrow> string" where
  "show_word w = show_nat (unat w)"

fun digits_value :: "nat \<Rightarrow> string \<Rightarrow> nat" where
  "digits_value acc [] = acc"
| "digits_value acc (c # s) = digits_value (10 * acc + (byte c - 48)) s"

text \<open>\<open>usize::from_str\<close> on a string that may carry anything: an optional sign \<open>+\<close>, then
  at least one digit, no overflow.\<close>

definition parse_u64 :: "string \<Rightarrow> u64 option" where
  "parse_u64 s =
     (let ds = (case s of c # t \<Rightarrow> if c = CHR ''+'' then t else s | [] \<Rightarrow> s) in
      if ds = [] \<or> \<not> list_all is_ascii_digit ds then None
      else if digits_value 0 ds < 2 ^ 64 then Some (of_nat (digits_value 0 ds)) else None)"

section \<open>Maps with finitely many keys\<close>

text \<open>A \<open>HashMap\<close> or \<open>BTreeMap\<close> is an association list with distinct keys.\<close>

type_synonym ('k, 'v) assoc = "('k \<times> 'v) list"

definition assoc_get :: "('k, 'v) assoc \<Rightarrow> 'k \<Rightarrow> 'v option" where
  "assoc_get m k = map_of m k"

definition assoc_insert :: "'k \<Rightarrow> 'v \<Rightarrow> ('k, 'v) assoc \<Rightarrow> ('k, 'v) assoc" where
  "assoc_insert k v m = AList.update k v m"

definition assoc_remove :: "'k \<Rightarrow> ('k, 'v) assoc \<Rightarrow> ('k, 'v) assoc" where
  "assoc_remove k m = AList.delete k m"

definition assoc_ok :: "('k, 'v) assoc \<Rightarrow> bool" where
  "assoc_ok m \<longleftrightarrow> distinct (map fst m)"

section \<open>Unix paths\<close>

text \<open>
  \<open>Path\<close> equality and order compare components: repeated separators, a trailing separator
  and interior \<open>.\<close> components do not count; a leading \<open>.\<close> does.
\<close>

datatype path_component = RootDir | CurDir | ParentDir | Normal string

fun component_of :: "string \<Rightarrow> path_component option" where
  "component_of s =
     (if s = [] \<or> s = ''.'' then None
      else if s = ''..'' then Some ParentDir else Some (Normal s))"

definition is_absolute :: "string \<Rightarrow> bool" where
  "is_absolute p \<longleftrightarrow> (case p of [] \<Rightarrow> False | c # _ \<Rightarrow> c = CHR ''/'')"

definition path_components :: "string \<Rightarrow> path_component list" where
  "path_components p =
     (if is_absolute p then [RootDir]
      else if hd (split_on (CHR ''/'') p) = ''.'' then [CurDir] else [])
     @ List.map_filter component_of (split_on (CHR ''/'') p)"

section \<open>Transition systems\<close>

text \<open>The states a system can reach from its initial states by its steps.\<close>

inductive reachable :: "('s \<Rightarrow> bool) \<Rightarrow> ('s \<Rightarrow> 's \<Rightarrow> bool) \<Rightarrow> 's \<Rightarrow> bool"
  for init :: "'s \<Rightarrow> bool" and step :: "'s \<Rightarrow> 's \<Rightarrow> bool" where
  reach_init: "init s \<Longrightarrow> reachable init step s"
| reach_step: "reachable init step s \<Longrightarrow> step s t \<Longrightarrow> reachable init step t"

section \<open>Lemmas on bytes and strings\<close>

lemmas byte_class_defs = is_ascii_digit_def is_ascii_lowercase_def is_ascii_uppercase_def
  is_ascii_alphanumeric_def is_ascii_hexdigit_def byte_def

declare byte_class_defs [byte_simps]

lemma byte_less [simp]: "byte c < 256"
  by (simp add: byte_def)

lemma byte_inj [simp]: "byte c = byte d \<longleftrightarrow> c = d"
  by (simp add: byte_def)

lemma byte_char_of: "n < 256 \<Longrightarrow> byte (char_of n) = n"
  by (simp add: byte_def)

lemma byte_lower: "byte (to_ascii_lower c) = (if is_ascii_uppercase c then byte c + 32 else byte c)"
  by (simp add: to_ascii_lower_def is_ascii_uppercase_def byte_char_of)

lemma lower_idem [simp]: "to_ascii_lower (to_ascii_lower c) = to_ascii_lower c"
  unfolding byte_inj [symmetric] byte_lower by (simp add: is_ascii_uppercase_def byte_lower)

lemma lower_sep_iff: "\<not> is_ascii_uppercase d \<Longrightarrow> \<not> is_ascii_lowercase d \<Longrightarrow>
    to_ascii_lower c = d \<longleftrightarrow> c = d"
  unfolding byte_inj [symmetric] byte_lower
  by (auto simp: is_ascii_uppercase_def is_ascii_lowercase_def)

lemma lowercase_append [simp]:
    "to_ascii_lowercase (a @ b) = to_ascii_lowercase a @ to_ascii_lowercase b"
  and lowercase_Nil [simp]: "to_ascii_lowercase [] = []"
  and lowercase_Cons [simp]: "to_ascii_lowercase (c # s) = to_ascii_lower c # to_ascii_lowercase s"
  and lowercase_length [simp]: "length (to_ascii_lowercase s) = length s"
  by (simp_all add: to_ascii_lowercase_def)

lemma lowercase_idem [simp]: "to_ascii_lowercase (to_ascii_lowercase s) = to_ascii_lowercase s"
  by (induction s) auto

lemma eq_ignore_ascii_case_refl [simp]: "eq_ignore_ascii_case s s"
  by (simp add: eq_ignore_ascii_case_def)

lemma eq_ignore_ascii_case_sym: "eq_ignore_ascii_case a b \<longleftrightarrow> eq_ignore_ascii_case b a"
  by (auto simp: eq_ignore_ascii_case_def)

lemma strip_prefix_Some_iff: "strip_prefix p s = Some t \<longleftrightarrow> s = p @ t"
  by (induction p s rule: strip_prefix.induct) auto

lemma strip_prefix_append [simp]: "strip_prefix p (p @ t) = Some t"
  by (simp add: strip_prefix_Some_iff)

lemma strip_prefix_None_iff: "strip_prefix p s = None \<longleftrightarrow> \<not> (\<exists>t. s = p @ t)"
  by (metis not_None_eq strip_prefix_Some_iff)

lemma starts_with_iff: "starts_with s p \<longleftrightarrow> prefix p s"
  by (auto simp: starts_with_def strip_prefix_Some_iff prefix_def)

lemma find_sub_SomeD: "find_sub pat s = Some i \<Longrightarrow> \<exists>b. s = take i s @ pat @ b \<and> i + length pat \<le> length s"
proof (induction pat s arbitrary: i rule: find_sub.induct)
  case (1 pat)
  then show ?case by (auto split: if_splits)
next
  case (2 pat c s)
  show ?case
  proof (cases "strip_prefix pat (c # s)")
    case None
    with 2 show ?thesis by auto
  next
    case (Some t)
    with 2 have "i = 0" by simp
    moreover from Some have "c # s = pat @ t" by (simp add: strip_prefix_Some_iff)
    ultimately show ?thesis by (metis append_Nil take_0 add_0 length_append le_add1)
  qed
qed

lemma find_sub_None_iff: "find_sub pat s = None \<longleftrightarrow> \<not> sublist pat s"
proof (induction pat s rule: find_sub.induct)
  case (2 pat c s)
  then show ?case
    by (auto simp: strip_prefix_Some_iff sublist_Cons_right prefix_def)
qed auto

lemma str_contains_iff: "str_contains s pat \<longleftrightarrow> sublist pat s"
  by (auto simp: str_contains_def find_sub_None_iff)

subsection \<open>Splitting\<close>

lemma split_on_not_Nil [simp]: "split_on sep s \<noteq> []"
  by (induction s) (auto split: list.splits)

lemma split_on_Cons_other:
  "c \<noteq> sep \<Longrightarrow> split_on sep (c # s) = (c # hd (split_on sep s)) # tl (split_on sep s)"
  by (cases "split_on sep s") auto

lemma split_on_append:
  "split_on sep (a @ sep # b) = split_on sep a @ split_on sep b"
  by (induction a) (auto split: list.splits)

lemma split_on_no_sep: "sep \<notin> set s \<Longrightarrow> split_on sep s = [s]"
  by (induction s) auto

lemma str_join_Cons: "ws \<noteq> [] \<Longrightarrow> str_join sep (w # ws) = w @ sep @ str_join sep ws"
  by (cases ws) auto

lemma str_join_head: "str_join sep ((c # w) # ws) = c # str_join sep (w # ws)"
  by (cases ws) auto

lemma join_split_on [simp]: "str_join [sep] (split_on sep s) = s"
proof (induction s)
  case (Cons c s)
  then show ?case
    by (cases "split_on sep s") (auto simp: str_join_Cons str_join_head)
qed simp

lemma split_on_pieces: "w \<in> set (split_on sep s) \<Longrightarrow> sep \<notin> set w"
proof (induction s arbitrary: w)
  case (Cons c s)
  then show ?case
    by (cases "split_on sep s") (auto split: if_splits)
qed simp

lemma str_join_subset: "w \<in> set ws \<Longrightarrow> set w \<subseteq> set (str_join sep ws)"
  by (induction sep ws rule: str_join.induct) auto

lemma split_on_subset: "w \<in> set (split_on sep s) \<Longrightarrow> set w \<subseteq> set s"
  by (metis join_split_on str_join_subset)

lemma split_on_inj: "split_on sep s = split_on sep t \<Longrightarrow> s = t"
  by (metis join_split_on)

lemma split_on_map:
  assumes "\<And>c. f c = sep \<longleftrightarrow> c = sep"
  shows "split_on sep (map f s) = map (map f) (split_on sep s)"
proof (induction s)
  case (Cons c s)
  then show ?case using assms
    by (cases "split_on sep s") auto
qed simp

lemma rsplit_once_None_iff: "rsplit_once sep s = None \<longleftrightarrow> sep \<notin> set s"
  by (induction s) (auto split: option.splits if_splits)

lemma rsplit_once_append: "sep \<notin> set b \<Longrightarrow> rsplit_once sep (a @ sep # b) = Some (a, b)"
  by (induction a) (simp_all add: rsplit_once_None_iff [THEN iffD2])

lemma rsplit_once_SomeD: "rsplit_once sep s = Some (a, b) \<Longrightarrow> s = a @ sep # b \<and> sep \<notin> set b"
proof (induction s arbitrary: a)
  case (Cons c s)
  then show ?case
    by (cases "rsplit_once sep s") (auto simp: rsplit_once_None_iff split: if_splits)
qed simp

lemma rsplit_once_Some_iff: "rsplit_once sep s = Some (a, b) \<longleftrightarrow> s = a @ sep # b \<and> sep \<notin> set b"
  using rsplit_once_SomeD rsplit_once_append by blast

subsection \<open>Trimming\<close>

definition ascii_visible :: "char \<Rightarrow> bool" where
  "ascii_visible c \<longleftrightarrow> 32 < byte c \<and> byte c < 128"

lemma ws_prefix_visible: "ascii_visible c \<Longrightarrow> ws_prefix (byte c # s) = 0"
  by (auto simp: ascii_visible_def split: list.splits)

lemma ws_suffix_visible: "ascii_visible c \<Longrightarrow> ws_suffix (byte c # s) = 0"
  by (auto simp: ascii_visible_def split: list.splits)

lemma trim_start_visible: "ascii_visible c \<Longrightarrow> trim_start (c # s) = c # s"
  by (simp add: trim_start.simps [of "c # s"] ws_prefix_visible del: ws_prefix.simps)

lemma trim_end_visible: "ascii_visible c \<Longrightarrow> trim_end_rev (c # s) = c # s"
  by (simp add: trim_end_rev.simps [of "c # s"] ws_suffix_visible del: ws_suffix.simps)

lemma trim_visible:
  assumes "s \<noteq> []" "ascii_visible (hd s)" "ascii_visible (last s)"
  shows "trim s = s"
proof -
  from assms have start: "trim_start s = s"
    by (cases s) (auto simp: trim_start_visible)
  from assms have "rev s = last s # tl (rev s)"
    by (cases "rev s") (auto simp: hd_rev [symmetric])
  then have "trim_end_rev (rev s) = rev s"
    using assms(3) trim_end_visible by metis
  with start show ?thesis by (simp add: trim_def)
qed

lemma trim_Nil [simp]: "trim [] = []"
  by (simp add: trim_def trim_start.simps trim_end_rev.simps)

subsection \<open>Decimal numbers\<close>

lemma byte_digit_char: "d < 10 \<Longrightarrow> byte (digit_char d) = 48 + d"
  by (simp add: digit_char_def byte_char_of)

lemma digit_char_digit: "d < 10 \<Longrightarrow> is_ascii_digit (digit_char d)"
  by (simp add: is_ascii_digit_def byte_digit_char)

lemma show_nat_not_Nil [simp]: "show_nat n \<noteq> []"
  by (subst show_nat.simps) simp

lemma show_nat_digits: "list_all is_ascii_digit (show_nat n)"
proof (induction n rule: show_nat.induct)
  case (1 n)
  then show ?case
    by (cases "n < 10") (simp_all add: show_nat.simps [of n] digit_char_digit)
qed

lemma digits_value_append:
  "digits_value acc (s @ t) = digits_value (digits_value acc s) t"
  by (induction s arbitrary: acc) auto

lemma digits_value_show_nat [simp]: "digits_value 0 (show_nat n) = n"
proof (induction n rule: show_nat.induct)
  case (1 n)
  then show ?case
    by (cases "n < 10") (simp_all add: show_nat.simps [of n] digits_value_append byte_digit_char)
qed

lemma digit_visible: "is_ascii_digit c \<Longrightarrow> ascii_visible c"
  by (simp add: is_ascii_digit_def ascii_visible_def)

lemma digit_not_plus: "is_ascii_digit c \<Longrightarrow> c \<noteq> CHR ''+''"
  by (auto simp: is_ascii_digit_def byte_def)

lemma parse_u64_digits:
  assumes "s \<noteq> []" "list_all is_ascii_digit s"
  shows "parse_u64 s = (if digits_value 0 s < 2 ^ 64 then Some (of_nat (digits_value 0 s)) else None)"
  using assms by (cases s) (auto simp: parse_u64_def digit_not_plus)

lemma parse_u64_show_nat: "n < 2 ^ 64 \<Longrightarrow> parse_u64 (show_nat n) = Some (of_nat n)"
  by (simp add: parse_u64_digits show_nat_digits)

lemma checked_mul_Some_iff:
  "checked_mul a b = Some c \<longleftrightarrow> unat a * unat b < 2 ^ 64 \<and> unat c = unat a * unat b"
  by (auto simp: checked_mul_def unat_word_ariths word_unat_eq_iff)

lemma checked_mul_None_iff: "checked_mul a b = None \<longleftrightarrow> 2 ^ 64 \<le> unat a * unat b"
  by (auto simp: checked_mul_def)

subsection \<open>Signed 64-bit words\<close>

lemma unat_uint_less: "unat (w::64 word) < 2 ^ n \<longleftrightarrow> uint w < 2 ^ n"
  by (subst of_nat_less_iff [where ?'a = int, symmetric]) simp

lemma sint64: "sint (w::64 word) = (if unat w < 2 ^ 63 then int (unat w) else int (unat w) - 2 ^ 64)"
proof -
  have eq: "sint w = (uint w + 2 ^ 63) mod 2 ^ 64 - 2 ^ 63"
    by (simp add: sint_uint signed_take_bit_eq_take_bit_shift take_bit_eq_mod)
  have lt: "uint w < 2 ^ 64" "0 \<le> uint w" using uint_lt2p [of w] by auto
  show ?thesis
  proof (cases "uint w < 2 ^ 63")
    case True
    with lt show ?thesis unfolding eq unat_uint_less by simp
  next
    case False
    then have "(uint w + 2 ^ 63) mod 2 ^ 64 = uint w + 2 ^ 63 - 2 ^ 64"
      using lt by (intro int_mod_pos_eq [of _ _ 1]) auto
    with False show ?thesis unfolding eq unat_uint_less by simp
  qed
qed

lemma sint_word_of_int64:
  "- (2 ^ 63) \<le> i \<Longrightarrow> i < 2 ^ 63 \<Longrightarrow> sint (word_of_int i :: 64 word) = i"
  by (simp add: signed_of_int signed_take_bit_int_eq_self)

lemma sint_of_nat64: "n < 2 ^ 63 \<Longrightarrow> sint (of_nat n :: 64 word) = int n"
  using sint_word_of_int64 [of "int n"] by simp

lemma sint_diff_of_nat64:
  assumes "n < 2 ^ 63" "p < 2 ^ 63"
  shows "sint (of_nat n - of_nat p :: 64 word) = int n - int p"
proof -
  have "(of_nat n - of_nat p :: 64 word) = word_of_int (int n - int p)" by simp
  moreover have "- (2 ^ 63) \<le> int n - int p" "int n - int p < 2 ^ 63"
    using assms by auto
  ultimately show ?thesis using sint_word_of_int64 by presburger
qed

lemma unat_of_nat64: "n < 2 ^ 64 \<Longrightarrow> unat (of_nat n :: 64 word) = n"
  by (simp add: unat_of_nat)

section \<open>The keyed-map interface\<close>

text \<open>
  What the clients of \<open>HashMap\<close> and \<open>BTreeMap\<close> rely on: a lookup after an insert or a removal,
  and that the operations keep the representation well formed.
\<close>

locale keyed_map =
  fixes get :: "'m \<Rightarrow> 'k \<Rightarrow> 'v option"
    and insert_kv :: "'k \<Rightarrow> 'v \<Rightarrow> 'm \<Rightarrow> 'm"
    and remove_k :: "'k \<Rightarrow> 'm \<Rightarrow> 'm"
    and ok :: "'m \<Rightarrow> bool"
  assumes get_insert: "ok m \<Longrightarrow> get (insert_kv k v m) = (get m)(k \<mapsto> v)"
    and get_remove: "ok m \<Longrightarrow> get (remove_k k m) = (get m)(k := None)"
    and ok_insert: "ok m \<Longrightarrow> ok (insert_kv k v m)"
    and ok_remove: "ok m \<Longrightarrow> ok (remove_k k m)"
begin

lemma get_insert_same: "ok m \<Longrightarrow> get (insert_kv k v m) k = Some v"
  by (simp add: get_insert)

lemma get_insert_other: "ok m \<Longrightarrow> k' \<noteq> k \<Longrightarrow> get (insert_kv k v m) k' = get m k'"
  by (simp add: get_insert)

lemma get_remove_other: "ok m \<Longrightarrow> k' \<noteq> k \<Longrightarrow> get (remove_k k m) k' = get m k'"
  by (simp add: get_remove)

lemma get_remove_same: "ok m \<Longrightarrow> get (remove_k k m) k = None"
  by (simp add: get_remove)

lemma insert_overwrites: "ok m \<Longrightarrow> get (insert_kv k v (insert_kv k w m)) = get (insert_kv k v m)"
  by (simp add: get_insert ok_insert)

lemma insert_commute:
  "ok m \<Longrightarrow> k \<noteq> k' \<Longrightarrow>
     get (insert_kv k v (insert_kv k' v' m)) = get (insert_kv k' v' (insert_kv k v m))"
  by (simp add: get_insert ok_insert fun_upd_twist)

end

lemmas assoc_defs = assoc_get_def assoc_insert_def assoc_remove_def assoc_ok_def

interpretation amap: keyed_map assoc_get assoc_insert assoc_remove assoc_ok
  by unfold_locales
    (auto simp: assoc_defs update_conv' delete_conv' distinct_update distinct_delete fun_eq_iff)

lemma assoc_ok_Nil [simp]: "assoc_ok []"
  and assoc_get_Nil [simp]: "assoc_get [] k = None"
  by (simp_all add: assoc_defs)

lemma assoc_get_set: "assoc_get m k = Some v \<Longrightarrow> (k, v) \<in> set m"
  by (simp add: assoc_get_def map_of_SomeD)

lemma assoc_set_get: "assoc_ok m \<Longrightarrow> (k, v) \<in> set m \<Longrightarrow> assoc_get m k = Some v"
  by (simp add: assoc_get_def assoc_ok_def)

text \<open>The total weight of the values, and how one insert or removal changes it.\<close>

definition assoc_weight :: "('v \<Rightarrow> nat) \<Rightarrow> ('k, 'v) assoc \<Rightarrow> nat" where
  "assoc_weight f m = sum_list (map (f \<circ> snd) m)"

definition weight_at :: "('v \<Rightarrow> nat) \<Rightarrow> ('k, 'v) assoc \<Rightarrow> 'k \<Rightarrow> nat" where
  "weight_at f m k = (case assoc_get m k of None \<Rightarrow> 0 | Some v \<Rightarrow> f v)"

lemma assoc_weight_Nil [simp]: "assoc_weight f [] = 0"
  by (simp add: assoc_weight_def)

lemma assoc_weight_insert:
  "assoc_weight f (assoc_insert k v m) + weight_at f m k = assoc_weight f m + f v"
  by (induction m) (auto simp: assoc_weight_def weight_at_def assoc_defs)

lemma assoc_weight_remove:
  "assoc_ok m \<Longrightarrow> assoc_weight f (assoc_remove k m) + weight_at f m k = assoc_weight f m"
proof (induction m)
  case (Cons p m)
  then show ?case
    by (cases p) (auto simp: assoc_weight_def weight_at_def assoc_defs AList.delete_eq
        map_of_eq_None_iff image_iff split: option.splits
        intro!: arg_cong [where f = sum_list] map_cong filter_True)
qed (simp add: weight_at_def assoc_defs)

lemma weight_at_le: "weight_at f m k \<le> assoc_weight f m"
proof (induction m)
  case (Cons p m)
  then show ?case
    by (cases p) (auto simp: assoc_weight_def weight_at_def assoc_defs split: option.splits)
qed (simp add: weight_at_def assoc_defs)

section \<open>Invariants of transition systems\<close>

text \<open>A property of the initial states that every step keeps holds in every reachable state.\<close>

locale transition_invariant =
  fixes init :: "'s \<Rightarrow> bool" and step :: "'s \<Rightarrow> 's \<Rightarrow> bool" and inv :: "'s \<Rightarrow> bool"
  assumes inv_init: "init s \<Longrightarrow> inv s"
    and inv_step: "inv s \<Longrightarrow> step s t \<Longrightarrow> inv t"
begin

lemma reachable_inv: "reachable init step s \<Longrightarrow> inv s"
  by (induction rule: reachable.induct) (auto intro: inv_init inv_step)

lemma inv_rtranclp: "step\<^sup>*\<^sup>* s t \<Longrightarrow> inv s \<Longrightarrow> inv t"
  by (induction rule: rtranclp_induct) (auto intro: inv_step)

end

text \<open>
  Runs of a labelled transition system, and refinement by a mapping: every step of the detailed
  system from a state with the invariant is a step of the specification on the mapped states, so
  every run of the detailed system is a run of the specification.
\<close>

inductive run :: "('a \<Rightarrow> 'e \<Rightarrow> 'a \<Rightarrow> bool) \<Rightarrow> 'a \<Rightarrow> 'e list \<Rightarrow> 'a \<Rightarrow> bool" for step a where
  run_nil: "run step a [] a"
| run_snoc: "run step a es b \<Longrightarrow> step b e c \<Longrightarrow> run step a (es @ [e]) c"

inductive_cases run_snocE: "run step a (es @ [e]) c"

locale refinement_mapping = transition_invariant init step inv
  for init :: "'s \<Rightarrow> bool" and step :: "'s \<Rightarrow> 's \<Rightarrow> bool" and inv :: "'s \<Rightarrow> bool" +
  fixes spec_step :: "'a \<Rightarrow> 'e \<Rightarrow> 'a \<Rightarrow> bool" and abs_state :: "'s \<Rightarrow> 'a"
  assumes sim: "inv s \<Longrightarrow> step s t \<Longrightarrow> \<exists>e. spec_step (abs_state s) e (abs_state t)"
begin

lemma run_refines: "step\<^sup>*\<^sup>* s t \<Longrightarrow> inv s \<Longrightarrow> \<exists>es. run spec_step (abs_state s) es (abs_state t)"
proof (induction rule: rtranclp_induct)
  case (step t u)
  then have "inv t" using inv_rtranclp by blast
  with step sim show ?case by (meson run_snoc)
qed (auto intro: run_nil)

end

end
