(* ===== verification/Ember_Error.thy ===== *)
theory Ember_Error
  imports Ember_Prelude
begin

text \<open>
  The error taxonomy of \<open>src/src/error.rs\<close>: the \<open>Error\<close> enum with the source's variants, its
  \<open>Display\<close> text and the HTTP status each variant is surfaced as.

  Errors of other crates (\<open>wasmtime::Error\<close>, \<open>http::Error\<close>) are kept as their \<open>Display\<close> text,
  which is all the source reads of them; an \<open>std::io::Error\<close> also keeps its kind, which
  \<open>ContentStore::put\<close> inspects.
\<close>

datatype io_kind = AlreadyExists | NotFound | OtherKind

datatype io_error = IoError (kind: io_kind) (io_text: string)

datatype error =
    Config string
  | InvalidComponent string string
  | Contract string
  | ComponentNotFound string
  | TenantNotFound string
  | Registry string
  | Oci string
  | Wasm string
  | Validation string
  | Http string
  | Io io_error
  | DigestMismatch string string
  | LimitExceeded string
  | Shutdown

type_synonym 'a result = "error + 'a"

text \<open>\<open>Error::status\<close>.\<close>

fun status :: "error \<Rightarrow> u16" where
  "status (Config _) = 500"
| "status (InvalidComponent _ _) = 400"
| "status (Contract _) = 400"
| "status (ComponentNotFound _) = 404"
| "status (TenantNotFound _) = 404"
| "status (Registry _) = 500"
| "status (Oci _) = 500"
| "status (Wasm _) = 500"
| "status (Validation _) = 500"
| "status (Http _) = 400"
| "status (Io _) = 500"
| "status (DigestMismatch _ _) = 409"
| "status (LimitExceeded _) = 429"
| "status Shutdown = 503"

text \<open>The \<open>Display\<close> implementation derived from the \<open>#[error(...)]\<close> attributes.\<close>

fun error_to_string :: "error \<Rightarrow> string" where
  "error_to_string (Config m) = ''configuration error: '' @ m"
| "error_to_string (InvalidComponent path reason) =
     ''invalid component artifact `'' @ path @ ''`: '' @ reason"
| "error_to_string (Contract m) = ''component contract violated: '' @ m"
| "error_to_string (ComponentNotFound m) = ''component not found: '' @ m"
| "error_to_string (TenantNotFound m) = ''tenant not found: '' @ m"
| "error_to_string (Registry m) = ''registry error: '' @ m"
| "error_to_string (Oci m) = ''oci distribution error: '' @ m"
| "error_to_string (Wasm m) = ''wasmtime error: '' @ m"
| "error_to_string (Validation m) = ''validation error: '' @ m"
| "error_to_string (Http m) = ''http error: '' @ m"
| "error_to_string (Io e) = ''i/o error: '' @ io_text e"
| "error_to_string (DigestMismatch expected computed) =
     ''digest mismatch: expected '' @ expected @ '', computed '' @ computed"
| "error_to_string (LimitExceeded m) = ''sandbox limit exceeded: '' @ m"
| "error_to_string Shutdown = ''shutdown requested''"

section \<open>Combinators for results\<close>

text \<open>\<open>Result::map_err\<close>, and the iteration of a fallible check with early return.\<close>

definition map_err :: "('e \<Rightarrow> 'f) \<Rightarrow> 'e + 'a \<Rightarrow> 'f + 'a" where
  "map_err f r = (case r of Inl e \<Rightarrow> Inl (f e) | Inr x \<Rightarrow> Inr x)"

fun check_each :: "('a \<Rightarrow> 'e + unit) \<Rightarrow> 'a list \<Rightarrow> 'e + unit" where
  "check_each f [] = Inr ()"
| "check_each f (x # xs) = (case f x of Inl e \<Rightarrow> Inl e | Inr _ \<Rightarrow> check_each f xs)"

definition is_ok :: "'e + 'a \<Rightarrow> bool" where
  "is_ok r \<longleftrightarrow> (case r of Inl _ \<Rightarrow> False | Inr _ \<Rightarrow> True)"

lemma is_ok_simps [simp]: "is_ok (Inr x)" "\<not> is_ok (Inl e)"
  by (simp_all add: is_ok_def)

lemma map_err_simps [simp]: "map_err f (Inl e) = Inl (f e)" "map_err f (Inr x) = Inr x"
  by (simp_all add: map_err_def)

lemma map_err_Inr_iff: "map_err f r = Inr x \<longleftrightarrow> r = Inr x"
  by (cases r) auto

lemma map_err_Inl_iff: "map_err f r = Inl e \<longleftrightarrow> (\<exists>e'. r = Inl e' \<and> e = f e')"
  by (cases r) auto

lemma check_each_ok_iff: "check_each f xs = Inr u \<longleftrightarrow> (\<forall>x\<in>set xs. f x = Inr ())"
  by (induction xs) (auto split: sum.splits)

text \<open>The first failing element decides the error.\<close>

lemma check_each_append:
  "check_each f (xs @ ys) = (case check_each f xs of Inl e \<Rightarrow> Inl e | Inr _ \<Rightarrow> check_each f ys)"
  by (induction xs) (auto split: sum.splits)

lemma check_each_errorD: "check_each f xs = Inl e \<Longrightarrow> \<exists>x\<in>set xs. f x = Inl e"
  by (induction xs) (auto split: sum.splits)

text \<open>Every status is a client or server error code that HTTP defines (100 to 999).\<close>

lemma status_range: "400 \<le> unat (status e) \<and> unat (status e) \<le> 503"
  by (cases e) auto

end
