(* ===== verification/Tenant_Id.thy ===== *)
theory Tenant_Id
  imports Ember_Error "HOL-Library.List_Lexorder" "HOL-Library.Char_ord"
begin

text \<open>
  Tenant identifiers: the newtype \<open>TenantId\<close> of \<open>src/src/runtime.rs\<close> with its validating
  constructor, the URL-segment parser and the derived order, and the length bound of
  \<open>src/src/lib.rs\<close>. The lemmas give the accepted grammar exactly and show that an accepted id
  survives the split of a URL path.
\<close>

datatype tenant_id = TenantId (as_str: string)

definition MAX_TENANT_ID_LEN :: nat where
  "MAX_TENANT_ID_LEN = 64"

definition tenant_char :: "char \<Rightarrow> bool" where
  "tenant_char b \<longleftrightarrow> is_ascii_alphanumeric b \<or> b = CHR ''-'' \<or> b = CHR ''_''"

definition tenant_new :: "string \<Rightarrow> tenant_id result" where
  "tenant_new name =
     (if name = [] then Inl (Config ''tenant id must not be empty'')
      else if length name > MAX_TENANT_ID_LEN then
        Inl (Config (''tenant id `'' @ name @ ''` exceeds '' @ show_nat MAX_TENANT_ID_LEN
                     @ '' characters''))
      else if \<not> list_all tenant_char name then
        Inl (Config (''tenant id `'' @ name @ ''` may only contain [a-zA-Z0-9-_]''))
      else Inr (TenantId name))"

definition tenant_parse :: "string \<Rightarrow> tenant_id result" where
  "tenant_parse s = tenant_new s"

text \<open>The derived \<open>Ord\<close> compares the strings byte by byte.\<close>

instantiation tenant_id :: linorder
begin

definition less_eq_tenant_id :: "tenant_id \<Rightarrow> tenant_id \<Rightarrow> bool" where
  "less_eq_tenant_id a b \<longleftrightarrow> as_str a \<le> as_str b"

definition less_tenant_id :: "tenant_id \<Rightarrow> tenant_id \<Rightarrow> bool" where
  "less_tenant_id a b \<longleftrightarrow> as_str a < as_str b"

instance
  by standard (auto simp: less_eq_tenant_id_def less_tenant_id_def intro: tenant_id.expand)

end

text \<open>The ids the constructor accepts.\<close>

definition valid_tenant_name :: "string \<Rightarrow> bool" where
  "valid_tenant_name s \<longleftrightarrow> s \<noteq> [] \<and> length s \<le> 64 \<and> list_all tenant_char s"

lemma tenant_new_ok_iff: "tenant_new s = Inr t \<longleftrightarrow> valid_tenant_name s \<and> t = TenantId s"
  by (auto simp: tenant_new_def valid_tenant_name_def MAX_TENANT_ID_LEN_def)

lemma tenant_new_error: "tenant_new s = Inl e \<Longrightarrow> \<exists>m. e = Config m"
  by (auto simp: tenant_new_def split: if_splits)

lemma tenant_new_error_iff: "(\<exists>e. tenant_new s = Inl e) \<longleftrightarrow> \<not> valid_tenant_name s"
  by (metis sum.exhaust_sel sum.distinct(1) tenant_new_ok_iff Inr_Inl_False)

lemma tenant_char_not_reserved:
  "tenant_char c \<Longrightarrow> c \<notin> set ''/?#%:@. ''"
  by (auto simp: tenant_char_def byte_simps)

section \<open>Properties\<close>

text \<open>C34: A tenant id is a URL path segment. An accepted name is at most 64 bytes and survives
  routing: splitting \<open>/name/rest\<close> at its slashes gives the name back as the first segment, the
  name holds no character that URL syntax reserves, and parsing it again gives the same id.\<close>

theorem tenant_id_path_segment:
  assumes "tenant_new name = Inr t"
  shows "split_on (CHR ''/'') (''/'' @ as_str t @ ''/'' @ rest) =
      [] # name # split_on (CHR ''/'') rest \<and>
    0 < length name \<and> length name \<le> 64 \<and>
    set name \<inter> set ''/?#%:@. '' = {} \<and>
    tenant_parse (as_str t) = Inr t"
proof -
  from assms have valid: "valid_tenant_name name" and t: "t = TenantId name"
    by (auto simp: tenant_new_ok_iff)
  from valid have chars: "c \<in> set name \<Longrightarrow> c \<notin> set ''/?#%:@. ''" for c
    using tenant_char_not_reserved by (auto simp: valid_tenant_name_def list_all_iff)
  then have "CHR ''/'' \<notin> set name" by force
  then have "split_on (CHR ''/'') (name @ CHR ''/'' # rest) = name # split_on (CHR ''/'') rest"
    by (simp add: split_on_append split_on_no_sep)
  moreover have "set name \<inter> set ''/?#%:@. '' = {}" using chars by blast
  ultimately show ?thesis
    using valid t assms by (simp add: tenant_parse_def valid_tenant_name_def)
qed

theorem tenant_id_path_segment_witness:
  "split_on (CHR ''/'') (''/'' @ as_str (TenantId ''echo-2'') @ ''/'' @ ''ping'') =
     [] # ''echo-2'' # split_on (CHR ''/'') ''ping''"
proof -
  have "tenant_new ''echo-2'' = Inr (TenantId ''echo-2'')" by code_simp
  from tenant_id_path_segment [OF this] show ?thesis by blast
qed

end
