(* ===== verification/Egress_Policy.thy ===== *)
theory Egress_Policy
  imports Ember_Error
begin

text \<open>
  The egress allowlist of \<open>src/src/http/bridge.rs\<close>: the policy record, the rule matcher with its
  scheme, port and wildcard-host parts, the allow decision and the union of two policies.

  The lemmas describe what a rule denotes on strings: a rule \<open>*.d\<close> stands for \<open>d\<close> and the
  hosts that end in \<open>.d\<close>, a rule without wildcard for one host up to ASCII case, and the whole
  decision is \<open>some rule matches, or the policy does not deny by default\<close>.
\<close>

record egress_policy =
  allow :: "string list"
  default_deny :: bool

definition egress_policy_default :: egress_policy where
  "egress_policy_default = \<lparr>allow = [], default_deny = True\<rparr>"

definition split_scheme :: "string \<Rightarrow> string option \<times> string" where
  "split_scheme s =
     (case find_sub ''://'' s of
        Some idx \<Rightarrow> (Some (take idx s), drop (idx + 3) s)
      | None \<Rightarrow> (None, s))"

definition split_authority :: "string \<Rightarrow> string \<times> string option" where
  "split_authority s =
     (case rsplit_once (CHR '':'') s of
        Some (host, port) \<Rightarrow> if CHR '']'' \<notin> set host then (host, Some port) else (s, None)
      | None \<Rightarrow> (s, None))"

definition host_matches :: "string \<Rightarrow> string \<Rightarrow> bool" where
  "host_matches pattern host =
     (let p = split_on (CHR ''.'') pattern; h = split_on (CHR ''.'') host in
      if p = [''*''] then True
      else if p \<noteq> [] \<and> hd p = ''*'' then
        (let suffix = tl p in
         length suffix \<le> length h \<and>
         list_all (\<lambda>(a, b). eq_ignore_ascii_case a b) (zip (drop (length h - length suffix) h) suffix))
      else length p = length h \<and>
        list_all (\<lambda>(a, b). a = ''*'' \<or> eq_ignore_ascii_case a b) (zip p h))"

definition pattern_matches :: "string \<Rightarrow> string \<Rightarrow> bool" where
  "pattern_matches rule authority =
     (let (rule_scheme, rule) = split_scheme rule;
          (target_scheme, target) = split_scheme authority in
      if (case (rule_scheme, target_scheme) of
            (Some rs, Some ts) \<Rightarrow> \<not> eq_ignore_ascii_case rs ts | _ \<Rightarrow> False) then False
      else
        (let (rule_host, rule_port) = split_authority rule;
             (target_host, target_port) = split_authority target in
         if (case (rule_port, target_port) of (Some rp, Some tp) \<Rightarrow> rp \<noteq> tp | _ \<Rightarrow> False) then False
         else host_matches rule_host target_host))"

definition allows :: "egress_policy \<Rightarrow> string \<Rightarrow> bool" where
  "allows p authority =
     (if list_ex (\<lambda>rule. pattern_matches rule authority) (allow p) then True
      else \<not> default_deny p)"

definition extend_policy :: "egress_policy \<Rightarrow> egress_policy \<Rightarrow> egress_policy" where
  "extend_policy p other =
     p\<lparr>allow := allow p @ allow other, default_deny := default_deny p \<or> default_deny other\<rparr>"

section \<open>Splitting hosts into labels\<close>

lemma str_join_append:
  "xs \<noteq> [] \<Longrightarrow> ys \<noteq> [] \<Longrightarrow> str_join sep (xs @ ys) = str_join sep xs @ sep @ str_join sep ys"
  by (induction sep xs rule: str_join.induct) (auto simp: str_join_Cons)

text \<open>A list of labels is a suffix of another exactly when the string is, at a label boundary.\<close>

lemma suffix_split_on_iff:
  "suffix (split_on sep a) (split_on sep b) \<longleftrightarrow> b = a \<or> suffix (sep # a) b"
proof
  assume "suffix (split_on sep a) (split_on sep b)"
  then obtain xs where xs: "split_on sep b = xs @ split_on sep a" by (auto simp: suffix_def)
  show "b = a \<or> suffix (sep # a) b"
  proof (cases "xs = []")
    case True
    with xs show ?thesis using split_on_inj by auto
  next
    case False
    have "b = str_join [sep] (xs @ split_on sep a)" by (metis join_split_on xs)
    also have "\<dots> = str_join [sep] xs @ sep # a" using False by (simp add: str_join_append)
    finally show ?thesis by (auto simp: suffix_def)
  qed
qed (auto simp: suffix_def split_on_append)

lemma split_on_lowercase:
  "split_on (CHR ''.'') (to_ascii_lowercase s) = map to_ascii_lowercase (split_on (CHR ''.'') s)"
proof -
  have "to_ascii_lower c = CHR ''.'' \<longleftrightarrow> c = CHR ''.''" for c
    by (rule lower_sep_iff) (simp_all add: byte_simps)
  then show ?thesis
    by (simp add: to_ascii_lowercase_def split_on_map cong: map_cong)
qed

lemma zip_eq_ignore_case:
  "length xs = length ys \<Longrightarrow>
     list_all (\<lambda>(a, b). eq_ignore_ascii_case a b) (zip xs ys) \<longleftrightarrow>
     map to_ascii_lowercase xs = map to_ascii_lowercase ys"
  by (induction xs ys rule: list_induct2) (auto simp: eq_ignore_ascii_case_def)

lemma drop_zip_eq_ignore_case:
  "length s \<le> length h \<and>
     list_all (\<lambda>(a, b). eq_ignore_ascii_case a b) (zip (drop (length h - length s) h) s) \<longleftrightarrow>
   suffix (map to_ascii_lowercase s) (map to_ascii_lowercase h)"
proof (cases "length s \<le> length h")
  case True
  have "list_all (\<lambda>(a, b). eq_ignore_ascii_case a b) (zip (drop (length h - length s) h) s) \<longleftrightarrow>
      drop (length h - length s) (map to_ascii_lowercase h) = map to_ascii_lowercase s"
    using True by (subst zip_eq_ignore_case) (auto simp: drop_map)
  with True show ?thesis
    by (metis append_take_drop_id length_map suffix_drop suffix_take append_eq_conv_conj)
next
  case False
  then show ?thesis by (auto dest: suffix_length_le)
qed

section \<open>What a rule denotes\<close>

lemma host_matches_wildcard_suffix:
  "host_matches (''*.'' @ d) h \<longleftrightarrow>
     to_ascii_lowercase h = to_ascii_lowercase d \<or>
     suffix (CHR ''.'' # to_ascii_lowercase d) (to_ascii_lowercase h)"
proof -
  have p: "split_on (CHR ''.'') (''*.'' @ d) = ''*'' # split_on (CHR ''.'') d"
    using split_on_append [of "CHR ''.''" "''*''" d] by simp
  have "host_matches (''*.'' @ d) h \<longleftrightarrow>
      suffix (map to_ascii_lowercase (split_on (CHR ''.'') d))
        (map to_ascii_lowercase (split_on (CHR ''.'') h))"
    unfolding host_matches_def Let_def p using drop_zip_eq_ignore_case by simp
  then show ?thesis
    by (simp add: split_on_lowercase [symmetric] suffix_split_on_iff)
qed

lemma host_matches_literal:
  assumes "CHR ''*'' \<notin> set pattern"
  shows "host_matches pattern host \<longleftrightarrow> eq_ignore_ascii_case pattern host"
proof -
  let ?p = "split_on (CHR ''.'') pattern" and ?h = "split_on (CHR ''.'') host"
  have star: "w \<noteq> ''*''" if "w \<in> set ?p" for w
    using split_on_subset [OF that] assms by auto
  have "hd ?p \<noteq> ''*''" using star by simp
  moreover have "?p \<noteq> [''*'']" using star by force
  moreover have "list_all (\<lambda>(a, b). a = ''*'' \<or> eq_ignore_ascii_case a b) (zip ?p ?h) \<longleftrightarrow>
      list_all (\<lambda>(a, b). eq_ignore_ascii_case a b) (zip ?p ?h)"
    by (rule list.pred_cong) (auto dest!: set_zip_leftD star)
  ultimately have "host_matches pattern host \<longleftrightarrow> length ?p = length ?h \<and>
      list_all (\<lambda>(a, b). eq_ignore_ascii_case a b) (zip ?p ?h)"
    by (simp add: host_matches_def Let_def)
  also have "\<dots> \<longleftrightarrow> map to_ascii_lowercase ?p = map to_ascii_lowercase ?h"
    using zip_eq_ignore_case by (metis length_map)
  also have "\<dots> \<longleftrightarrow> eq_ignore_ascii_case pattern host"
    by (metis eq_ignore_ascii_case_def split_on_inj split_on_lowercase)
  finally show ?thesis .
qed

lemma host_matches_star [simp]: "host_matches ''*'' h"
  by (simp add: host_matches_def)

section \<open>Schemes and ports\<close>

lemma split_scheme_none: "find_sub ''://'' s = None \<Longrightarrow> split_scheme s = (None, s)"
  by (simp add: split_scheme_def)

lemma split_authority_none: "CHR '':'' \<notin> set s \<Longrightarrow> split_authority s = (s, None)"
  using rsplit_once_None_iff [of "CHR '':''" s] by (simp add: split_authority_def)

lemma no_colon_no_scheme: "CHR '':'' \<notin> set s \<Longrightarrow> find_sub ''://'' s = None"
  by (auto simp: find_sub_None_iff dest!: set_mono_sublist)

text \<open>The host part of a rule, with its scheme and port cut off.\<close>

definition rule_host :: "string \<Rightarrow> string" where
  "rule_host rule = fst (split_authority (snd (split_scheme rule)))"

text \<open>Against a bare host name the scheme and the port of a rule play no part.\<close>

lemma pattern_matches_bare_host:
  "CHR '':'' \<notin> set h \<Longrightarrow> pattern_matches rule h \<longleftrightarrow> host_matches (rule_host rule) h"
  by (auto simp: pattern_matches_def rule_host_def split_scheme_none no_colon_no_scheme
      split_authority_none split: prod.splits option.splits)

lemma allows_iff:
  "allows p a \<longleftrightarrow> (\<exists>rule \<in> set (allow p). pattern_matches rule a) \<or> \<not> default_deny p"
  by (auto simp: allows_def list_ex_iff)

lemma find_scheme: "CHR '':'' \<notin> set a \<Longrightarrow> find_sub ''://'' (a @ ''://'' @ b) = Some (length a)"
  by (induction a) auto

lemma split_scheme_some:
  "CHR '':'' \<notin> set a \<Longrightarrow> split_scheme (a @ ''://'' @ b) = (Some a, b)"
  using find_scheme [of a b] by (simp add: split_scheme_def)

lemma split_authority_some:
  "CHR '':'' \<notin> set port \<Longrightarrow> CHR '']'' \<notin> set host \<Longrightarrow>
     split_authority (host @ '':'' @ port) = (host, Some port)"
  using rsplit_once_append [of "CHR '':''" port host] by (simp add: split_authority_def)

lemma rule_host_plain: "CHR '':'' \<notin> set r \<Longrightarrow> rule_host r = r"
  by (simp add: rule_host_def split_scheme_none no_colon_no_scheme split_authority_none)

section \<open>Properties\<close>

text \<open>C18: A wildcard rule stops at label boundaries. Under a deny-by-default policy whose only
  rule is \<open>*.d\<close>, a host name is allowed exactly when it equals \<open>d\<close> or ends in \<open>.d\<close>, up to ASCII
  case; so \<open>evil-d\<close> or \<open>d.evil\<close> are refused.\<close>

theorem egress_wildcard_exact:
  assumes "CHR '':'' \<notin> set d" and "CHR '':'' \<notin> set h"
  shows "allows \<lparr>allow = [''*.'' @ d], default_deny = True\<rparr> h \<longleftrightarrow>
    to_ascii_lowercase h = to_ascii_lowercase d \<or>
    suffix (''.'' @ to_ascii_lowercase d) (to_ascii_lowercase h)"
  using assms host_matches_wildcard_suffix [of d h]
  by (simp add: allows_iff pattern_matches_bare_host rule_host_plain)

theorem egress_wildcard_exact_witness:
  "allows \<lparr>allow = [''*.'' @ ''example.com''], default_deny = True\<rparr> ''API.example.com'' \<and>
   \<not> allows \<lparr>allow = [''*.'' @ ''example.com''], default_deny = True\<rparr> ''badexample.com''"
proof -
  have "suffix (''.'' @ to_ascii_lowercase ''example.com'') (to_ascii_lowercase ''API.example.com'')"
    by code_simp
  moreover have "\<not> (to_ascii_lowercase ''badexample.com'' = to_ascii_lowercase ''example.com'' \<or>
      suffix (''.'' @ to_ascii_lowercase ''example.com'') (to_ascii_lowercase ''badexample.com''))"
    by code_simp
  ultimately show ?thesis
    using egress_wildcard_exact [of "''example.com''" "''API.example.com''"]
      egress_wildcard_exact [of "''example.com''" "''badexample.com''"] by simp
qed

text \<open>Deny by default, and literal rules name one host. When the policy denies by default and
  no rule contains a wildcard, a host name is allowed exactly when it equals, up to ASCII case, the
  host part of some rule; with no rules nothing is allowed.\<close>

theorem egress_literal_rules:
  assumes "default_deny p" and "\<forall>rule\<in>set (allow p). CHR ''*'' \<notin> set (rule_host rule)"
    and "CHR '':'' \<notin> set h"
  shows "allows p h \<longleftrightarrow> (\<exists>rule\<in>set (allow p). eq_ignore_ascii_case (rule_host rule) h)"
  using assms by (auto simp: allows_iff pattern_matches_bare_host host_matches_literal)

theorem egress_literal_rules_witness:
  "allows \<lparr>allow = [''https://api.example.com''], default_deny = True\<rparr> ''api.example.com'' \<and>
   \<not> allows egress_policy_default ''api.example.com''"
proof -
  let ?p = "\<lparr>allow = [''https://api.example.com''], default_deny = True\<rparr>"
  have "rule_host ''https://api.example.com'' = ''api.example.com''" by code_simp
  then show ?thesis
    using egress_literal_rules [of ?p "''api.example.com''"]
      egress_literal_rules [of egress_policy_default "''api.example.com''"]
    by (simp add: egress_policy_default_def)
qed

text \<open>Scheme and port of fully written rules. When rule and target both carry a scheme and a
  port, the rule matches exactly when the schemes agree up to ASCII case, the ports are the same
  string and the host pattern matches.\<close>

theorem pattern_matches_full:
  assumes "CHR '':'' \<notin> set s\<^sub>1 \<union> set h\<^sub>1 \<union> set p\<^sub>1 \<union> set s\<^sub>2 \<union> set h\<^sub>2 \<union> set p\<^sub>2"
    and "CHR '']'' \<notin> set h\<^sub>1 \<union> set h\<^sub>2"
  shows "pattern_matches (s\<^sub>1 @ ''://'' @ h\<^sub>1 @ '':'' @ p\<^sub>1) (s\<^sub>2 @ ''://'' @ h\<^sub>2 @ '':'' @ p\<^sub>2) \<longleftrightarrow>
    eq_ignore_ascii_case s\<^sub>1 s\<^sub>2 \<and> p\<^sub>1 = p\<^sub>2 \<and> host_matches h\<^sub>1 h\<^sub>2"
proof -
  have 1: "split_scheme (s\<^sub>1 @ ''://'' @ h\<^sub>1 @ '':'' @ p\<^sub>1) = (Some s\<^sub>1, h\<^sub>1 @ '':'' @ p\<^sub>1)"
    and 2: "split_scheme (s\<^sub>2 @ ''://'' @ h\<^sub>2 @ '':'' @ p\<^sub>2) = (Some s\<^sub>2, h\<^sub>2 @ '':'' @ p\<^sub>2)"
    using assms split_scheme_some [of s\<^sub>1 "h\<^sub>1 @ '':'' @ p\<^sub>1"] split_scheme_some [of s\<^sub>2 "h\<^sub>2 @ '':'' @ p\<^sub>2"]
    by simp_all
  have 3: "split_authority (h\<^sub>1 @ '':'' @ p\<^sub>1) = (h\<^sub>1, Some p\<^sub>1)"
    and 4: "split_authority (h\<^sub>2 @ '':'' @ p\<^sub>2) = (h\<^sub>2, Some p\<^sub>2)"
    using assms split_authority_some [of p\<^sub>1 h\<^sub>1] split_authority_some [of p\<^sub>2 h\<^sub>2] by simp_all
  show ?thesis unfolding pattern_matches_def 1 2 by (simp only: Let_def prod.case option.case 3 4) auto
qed

theorem pattern_matches_full_witness:
  "pattern_matches (''https'' @ ''://'' @ ''a.io'' @ '':'' @ ''443'') (''HTTPS'' @ ''://'' @ ''A.io'' @ '':'' @ ''443'') \<and>
   \<not> pattern_matches (''https'' @ ''://'' @ ''a.io'' @ '':'' @ ''443'') (''http'' @ ''://'' @ ''a.io'' @ '':'' @ ''443'')"
proof -
  have "eq_ignore_ascii_case ''https'' ''HTTPS''" "host_matches ''a.io'' ''A.io''"
      "\<not> eq_ignore_ascii_case ''https'' ''http''" by code_simp+
  then show ?thesis
    using pattern_matches_full [of "''https''" "''a.io''" "''443''" "''HTTPS''" "''A.io''" "''443''"]
      pattern_matches_full [of "''https''" "''a.io''" "''443''" "''http''" "''a.io''" "''443''"]
    by simp
qed

text \<open>Merging policies. The merged policy allows an authority exactly when a rule of either
  policy matches it or neither policy denies by default; so every rule keeps its effect and
  nothing is allowed that both policies refuse.\<close>

theorem extend_policy_allows:
  "(allows (extend_policy p q) a \<longleftrightarrow>
      (\<exists>rule \<in> set (allow p) \<union> set (allow q). pattern_matches rule a) \<or>
      \<not> default_deny p \<and> \<not> default_deny q) \<and>
   (\<not> allows p a \<and> \<not> allows q a \<longrightarrow> \<not> allows (extend_policy p q) a)"
  by (auto simp: allows_iff extend_policy_def)

theorem extend_policy_allows_witness:
  "\<not> allows (extend_policy egress_policy_default egress_policy_default) ''x.io''"
proof -
  have "\<not> allows egress_policy_default ''x.io''" by (simp add: allows_iff egress_policy_default_def)
  with extend_policy_allows [of egress_policy_default egress_policy_default "''x.io''"]
  show ?thesis by blast
qed

end
