(* ===== verification/Sandbox.thy ===== *)
theory Sandbox
  imports Tenant_Id Egress_Policy
begin

text \<open>
  The per-tenant sandbox of \<open>src/src/wasi/sandbox.rs\<close>: the resource ceilings with their defaults,
  validation and clamping, the byte-quota'd scratch filesystem \<open>MemFs\<close>, and the assembled
  \<open>Sandbox\<close>.

  \<open>MemFs\<close> keeps its counters at their width: \<open>used\<close> is a \<open>u64\<close>, the byte delta of a write is
  an \<open>i64\<close> (a 64-bit word read with \<open>sint\<close>, wrapping as in a release build), and the quota is
  compared after a cast to \<open>i64\<close>. The operations run under the \<open>files\<close> mutex, so each is one
  atomic step. Files are keyed by path components, as \<open>PathBuf\<close> compares.

  A \<open>Sandbox\<close> holds an \<open>Arc<MemFs>\<close>: the model keeps the scratch filesystems in a heap (a list)
  and the sandbox holds an index, so that clones of a sandbox share one filesystem and two
  sandboxes do not.
\<close>

section \<open>Limits\<close>

record sandbox_limits =
  lim_max_memory_bytes :: usize
  lim_max_instances :: usize
  lim_max_tables :: usize
  lim_max_epoch_delta :: u64
  lim_max_wall_duration :: duration
  lim_max_body_bytes :: usize
  lim_memfs_quota_bytes :: usize
  lim_cpus :: u32
  lim_egress_allow :: "string list"
  lim_default_deny_egress :: bool

definition sandbox_limits_default :: sandbox_limits where
  "sandbox_limits_default =
     \<lparr>lim_max_memory_bytes = 128 * 1024 * 1024, lim_max_instances = 8, lim_max_tables = 32,
      lim_max_epoch_delta = 10000000, lim_max_wall_duration = from_secs 10,
      lim_max_body_bytes = 8 * 1024 * 1024, lim_memfs_quota_bytes = 4 * 1024 * 1024,
      lim_cpus = 1, lim_egress_allow = [], lim_default_deny_egress = True\<rparr>"

definition limits_validate :: "sandbox_limits \<Rightarrow> unit result" where
  "limits_validate l =
     (if lim_max_memory_bytes l = 0 then Inl (LimitExceeded ''max_memory_bytes must be > 0'')
      else if lim_max_wall_duration l = 0 then
        Inl (LimitExceeded ''max_wall_duration must be > 0'')
      else if lim_max_instances l = 0 then Inl (LimitExceeded ''max_instances must be > 0'')
      else if lim_memfs_quota_bytes l = 0 then
        Inl (LimitExceeded ''memfs_quota_bytes must be > 0'')
      else Inr ())"

definition clamp_to :: "usize \<Rightarrow> usize \<Rightarrow> sandbox_limits \<Rightarrow> sandbox_limits" where
  "clamp_to engine_max_mem engine_max_instances l =
     l\<lparr>lim_max_memory_bytes := min (lim_max_memory_bytes l) engine_max_mem,
       lim_max_instances := min (lim_max_instances l) engine_max_instances,
       lim_max_epoch_delta := max (lim_max_epoch_delta l) 1\<rparr>"

definition limits_egress_policy :: "sandbox_limits \<Rightarrow> egress_policy" where
  "limits_egress_policy l =
     \<lparr>allow = lim_egress_allow l, default_deny = lim_default_deny_egress l\<rparr>"

section \<open>The scratch filesystem\<close>

type_synonym path_key = "path_component list"

record memfs =
  files :: "(path_key, bytes) assoc"
  quota_bytes :: usize
  used :: u64

definition memfs_new :: "usize \<Rightarrow> memfs" where
  "memfs_new quota = \<lparr>files = [], quota_bytes = quota, used = 0\<rparr>"

definition memfs_exists :: "memfs \<Rightarrow> string \<Rightarrow> bool" where
  "memfs_exists fs path \<longleftrightarrow> assoc_get (files fs) (path_components path) \<noteq> None"

text \<open>\<open>b.len() as i64\<close>: the length as a 64-bit word.\<close>

definition len_i64 :: "bytes \<Rightarrow> 64 word" where
  "len_i64 b = of_nat (length b)"

definition memfs_write :: "memfs \<Rightarrow> string \<Rightarrow> bytes \<Rightarrow> unit result \<times> memfs" where
  "memfs_write fs path bytes =
     (if path = [] \<or> is_absolute path then
        (Inl (LimitExceeded (''invalid scratch path `'' @ path @ ''`'')), fs)
      else
        (let key = path_components path;
             prev = (case assoc_get (files fs) key of Some b \<Rightarrow> len_i64 b | None \<Rightarrow> 0);
             next = len_i64 bytes;
             delta = next - prev in
         if sint delta > 0 \<and> sint (used fs + delta) > sint (quota_bytes fs) then
           (Inl (LimitExceeded (''memfs quota of '' @ show_word (quota_bytes fs)
                  @ '' bytes exceeded writing `'' @ path @ ''`'')), fs)
         else
           (Inr (),
            fs\<lparr>used := (if sint delta \<ge> 0 then used fs + delta else used fs - (- delta)),
               files := assoc_insert key bytes (files fs)\<rparr>)))"

definition memfs_read :: "memfs \<Rightarrow> string \<Rightarrow> bytes option" where
  "memfs_read fs path = assoc_get (files fs) (path_components path)"

definition memfs_remove :: "memfs \<Rightarrow> string \<Rightarrow> bytes option \<times> memfs" where
  "memfs_remove fs path =
     (let key = path_components path in
      case assoc_get (files fs) key of
        None \<Rightarrow> (None, fs)
      | Some removed \<Rightarrow>
          (Some removed,
           fs\<lparr>files := assoc_remove key (files fs), used := used fs - of_nat (length removed)\<rparr>))"

section \<open>The assembled sandbox\<close>

record sandbox =
  sb_tenant :: tenant_id
  sb_limits :: sandbox_limits
  sb_config :: "(string, string) assoc"
  sb_readonly_preopens :: "(string \<times> string) list"
  sb_scratch :: nat

type_synonym memfs_heap = "memfs list"

definition sandbox_new ::
  "tenant_id \<Rightarrow> sandbox_limits \<Rightarrow> (string, string) assoc \<Rightarrow> memfs_heap \<Rightarrow> sandbox result \<times> memfs_heap"
where
  "sandbox_new tenant limits config heap =
     (case limits_validate limits of
        Inl e \<Rightarrow> (Inl e, heap)
      | Inr _ \<Rightarrow>
          (Inr \<lparr>sb_tenant = tenant, sb_limits = limits, sb_config = config,
                sb_readonly_preopens = [], sb_scratch = length heap\<rparr>,
           heap @ [memfs_new (lim_memfs_quota_bytes limits)]))"

definition with_preopen :: "sandbox \<Rightarrow> string \<Rightarrow> string \<Rightarrow> sandbox" where
  "with_preopen sb guest_path root =
     sb\<lparr>sb_readonly_preopens := sb_readonly_preopens sb @ [(guest_path, root)]\<rparr>"

definition sandbox_egress_policy :: "sandbox \<Rightarrow> egress_policy" where
  "sandbox_egress_policy sb = limits_egress_policy (sb_limits sb)"

definition charge_memory :: "sandbox \<Rightarrow> usize \<Rightarrow> unit result" where
  "charge_memory sb bytes =
     (if bytes > lim_max_memory_bytes (sb_limits sb) then
        Inl (LimitExceeded (''instance memory '' @ show_word bytes @ '' exceeds tenant ceiling ''
              @ show_word (lim_max_memory_bytes (sb_limits sb))))
      else Inr ())"

definition scratch_bytes :: "sandbox \<Rightarrow> memfs_heap \<Rightarrow> u64" where
  "scratch_bytes sb heap = used (heap ! sb_scratch sb)"

section \<open>Accounting on words\<close>

text \<open>
  The quota a write is really compared with: a quota of \<open>2^63\<close> or more is negative after the
  cast to \<open>i64\<close>, so that no growing write can pass.
\<close>

definition effective_quota :: "usize \<Rightarrow> nat" where
  "effective_quota q = (if unat q < 2 ^ 63 then unat q else 0)"

text \<open>A \<open>Vec<u8>\<close> never holds more than \<open>isize::MAX\<close> bytes.\<close>

definition vec_len_ok :: "bytes \<Rightarrow> bool" where
  "vec_len_ok b \<longleftrightarrow> length b < 2 ^ 63"

definition memfs_inv :: "memfs \<Rightarrow> bool" where
  "memfs_inv fs \<longleftrightarrow> assoc_ok (files fs) \<and>
     unat (used fs) = assoc_weight length (files fs) \<and>
     unat (used fs) \<le> effective_quota (quota_bytes fs)"

lemma effective_quota_less: "effective_quota q < 2 ^ 63"
  by (simp add: effective_quota_def)

lemma effective_quota_le: "effective_quota q \<le> unat q"
  by (simp add: effective_quota_def)

section \<open>The word-level write against a reference on natural numbers\<close>

definition memfs_write_ref :: "memfs \<Rightarrow> string \<Rightarrow> bytes \<Rightarrow> unit result \<times> memfs" where
  "memfs_write_ref fs path bytes =
     (if path = [] \<or> is_absolute path then
        (Inl (LimitExceeded (''invalid scratch path `'' @ path @ ''`'')), fs)
      else
        (let key = path_components path;
             old = weight_at length (files fs) key;
             total = assoc_weight length (files fs) - old + length bytes in
         if length bytes > old \<and> total > effective_quota (quota_bytes fs) then
           (Inl (LimitExceeded (''memfs quota of '' @ show_word (quota_bytes fs)
                  @ '' bytes exceeded writing `'' @ path @ ''`'')), fs)
         else (Inr (), fs\<lparr>used := of_nat total, files := assoc_insert key bytes (files fs)\<rparr>)))"

text \<open>Together with the files already held, the bytes of one write stay below \<open>2^63\<close>.\<close>

definition write_fits :: "nat \<Rightarrow> bytes \<Rightarrow> bool" where
  "write_fits limit b \<longleftrightarrow> limit + length b < 2 ^ 63"

lemma quota_test:
  assumes "t < 2 ^ 63"
  shows "sint (of_nat t :: 64 word) > sint (q::64 word) \<longleftrightarrow> t > effective_quota q \<or> 2 ^ 63 \<le> unat q"
proof (cases "unat q < 2 ^ 63")
  case True
  then have "sint q = int (unat q)" by (simp only: sint64 if_True)
  then have "sint (of_nat t :: 64 word) > sint q \<longleftrightarrow> t > unat q"
    by (simp only: sint_of_nat64 [OF assms] of_nat_less_iff)
  with True show ?thesis by (simp add: effective_quota_def)
next
  case False
  then have "sint q = int (unat q) - 2 ^ 64" by (simp only: sint64 if_False)
  moreover have "int (unat q) < 2 ^ 64" using uint_lt2p [of q] by simp
  ultimately have "sint q < 0" by linarith
  then have "sint q < sint (of_nat t :: 64 word)" by (simp only: sint_of_nat64 [OF assms])
  with False show ?thesis by simp
qed

lemma memfs_write_eq_ref:
  assumes inv: "memfs_inv fs" and fits: "write_fits (effective_quota (quota_bytes fs)) bytes"
  shows "memfs_write fs path bytes = memfs_write_ref fs path bytes"
proof -
  define key where "key = path_components path"
  define old where "old = weight_at length (files fs) key"
  define w where "w = assoc_weight length (files fs)"
  define total where "total = w - old + length bytes"
  from inv have u: "unat (used fs) = w" and wq: "w \<le> effective_quota (quota_bytes fs)"
    by (simp_all add: memfs_inv_def w_def)
  have oldw: "old \<le> w" unfolding old_def w_def by (rule weight_at_le)
  from fits wq have sz: "total < 2 ^ 63" "w < 2 ^ 63" "old < 2 ^ 63" "length bytes < 2 ^ 63"
    using oldw by (auto simp: write_fits_def total_def)
  have used: "used fs = of_nat w" by (simp flip: u)
  have prev: "(case assoc_get (files fs) key of Some b \<Rightarrow> len_i64 b | None \<Rightarrow> 0) = of_nat old"
    by (simp add: old_def weight_at_def len_i64_def split: option.split)
  define delta :: "64 word" where "delta = len_i64 bytes - of_nat old"
  have delta: "sint delta = int (length bytes) - int old"
    unfolding delta_def len_i64_def by (rule sint_diff_of_nat64 [OF sz(4) sz(3)])
  have sum: "used fs + delta = of_nat total"
    using oldw by (simp add: used delta_def len_i64_def total_def)
  have "0 < sint delta \<and> sint (quota_bytes fs) < sint (used fs + delta) \<longleftrightarrow>
      length bytes > old \<and> total > effective_quota (quota_bytes fs)"
    unfolding sum quota_test [OF sz(1)] delta by (auto simp: effective_quota_def total_def)
  moreover have "(if sint delta \<ge> 0 then used fs + delta else used fs - (- delta)) = of_nat total"
    by (simp add: sum)
  ultimately show ?thesis
    unfolding memfs_write_def memfs_write_ref_def Let_def key_def [symmetric] prev
    unfolding delta_def [symmetric] old_def [symmetric] w_def [symmetric] total_def [symmetric]
    by simp
qed

lemma memfs_inv_new: "memfs_inv (memfs_new q)"
  by (simp add: memfs_inv_def memfs_new_def)

lemma memfs_new_quota [simp]: "quota_bytes (memfs_new q) = q"
  by (simp add: memfs_new_def)

lemma memfs_write_error: "memfs_write fs path bytes = (Inl e, fs') \<Longrightarrow> fs' = fs"
  by (auto simp: memfs_write_def Let_def split: if_splits)

lemma memfs_write_quota [simp]: "quota_bytes (snd (memfs_write fs path bytes)) = quota_bytes fs"
  by (simp add: memfs_write_def Let_def)

lemma memfs_remove_quota [simp]: "quota_bytes (snd (memfs_remove fs path)) = quota_bytes fs"
  by (simp add: memfs_remove_def Let_def split: option.split)

lemma memfs_write_files:
  "memfs_write fs path bytes = (Inr u, fs') \<Longrightarrow>
     files fs' = assoc_insert (path_components path) bytes (files fs)"
  by (auto simp: memfs_write_def Let_def split: if_splits)

lemma memfs_inv_write:
  assumes inv: "memfs_inv fs" and fits: "write_fits (effective_quota (quota_bytes fs)) bytes"
  shows "memfs_inv (snd (memfs_write fs path bytes))"
proof -
  let ?key = "path_components path"
  define total where
    "total = assoc_weight length (files fs) - weight_at length (files fs) ?key + length bytes"
  have "assoc_weight length (assoc_insert ?key bytes (files fs)) = total"
    using assoc_weight_insert [of length ?key bytes "files fs"] weight_at_le [of length "files fs" ?key]
    by (simp add: total_def)
  moreover have "total < 2 ^ 64"
    using inv fits effective_quota_less [of "quota_bytes fs"]
    by (auto simp: memfs_inv_def write_fits_def total_def)
  moreover have "length bytes \<le> weight_at length (files fs) ?key \<Longrightarrow>
      total \<le> effective_quota (quota_bytes fs)"
    using inv weight_at_le [of length "files fs" ?key] by (auto simp: total_def memfs_inv_def)
  moreover have "assoc_ok (assoc_insert ?key bytes (files fs))"
    using inv by (simp add: memfs_inv_def amap.ok_insert)
  ultimately show ?thesis
    using inv unfolding memfs_write_eq_ref [OF inv fits] memfs_write_ref_def Let_def
      total_def [symmetric]
    by (auto simp: memfs_inv_def unat_of_nat64)
qed

lemma memfs_inv_remove:
  assumes inv: "memfs_inv fs"
  shows "memfs_inv (snd (memfs_remove fs path))"
proof (cases "assoc_get (files fs) (path_components path)")
  case None
  with inv show ?thesis by (simp add: memfs_remove_def)
next
  case (Some b)
  let ?key = "path_components path"
  have w: "assoc_weight length (assoc_remove ?key (files fs)) + length b = assoc_weight length (files fs)"
    using assoc_weight_remove [of "files fs" length ?key] inv Some
    by (simp add: memfs_inv_def weight_at_def)
  have "unat (used fs) = assoc_weight length (files fs)" using inv by (simp add: memfs_inv_def)
  then have "used fs = of_nat (assoc_weight length (files fs))" by (metis of_nat_unat ucast_id)
  with w have "used fs - of_nat (length b) = of_nat (assoc_weight length (assoc_remove ?key (files fs)))"
    by (metis add_diff_cancel_right' of_nat_add)
  moreover have "assoc_weight length (assoc_remove ?key (files fs)) < 2 ^ 64"
    using w inv effective_quota_less [of "quota_bytes fs"] by (simp add: memfs_inv_def)
  ultimately show ?thesis
    using w inv Some by (simp add: memfs_remove_def Let_def memfs_inv_def amap.ok_remove unat_of_nat64)
qed

section \<open>The quota-store interface\<close>

text \<open>
  What the host relies on when it lends a guest scratch storage: the usage never passes the
  limit, a failed write changes nothing, and a read returns the last successful write of the
  same path. Operation sequences are stated over an arbitrary provider.
\<close>

datatype scratch_op = WriteOp string bytes | RemoveOp string

fun op_path :: "scratch_op \<Rightarrow> string" where
  "op_path (WriteOp p b) = p"
| "op_path (RemoveOp p) = p"

fun op_fits :: "nat \<Rightarrow> scratch_op \<Rightarrow> bool" where
  "op_fits limit (WriteOp p b) = write_fits limit b"
| "op_fits limit (RemoveOp p) = True"

fun apply_op ::
  "('s \<Rightarrow> string \<Rightarrow> bytes \<Rightarrow> unit result \<times> 's) \<Rightarrow> ('s \<Rightarrow> string \<Rightarrow> bytes option \<times> 's) \<Rightarrow> scratch_op \<Rightarrow> 's \<Rightarrow> 's"
where
  "apply_op write_op remove_op (WriteOp p b) s = snd (write_op s p b)"
| "apply_op write_op remove_op (RemoveOp p) s = snd (remove_op s p)"

locale quota_store =
  fixes write_op :: "'s \<Rightarrow> string \<Rightarrow> bytes \<Rightarrow> unit result \<times> 's"
    and remove_op :: "'s \<Rightarrow> string \<Rightarrow> bytes option \<times> 's"
    and read_op :: "'s \<Rightarrow> string \<Rightarrow> bytes option"
    and usage :: "'s \<Rightarrow> nat"
    and limit :: "'s \<Rightarrow> nat"
    and inv :: "'s \<Rightarrow> bool"
  assumes inv_write: "inv s \<Longrightarrow> write_fits (limit s) b \<Longrightarrow> inv (snd (write_op s p b))"
    and inv_remove: "inv s \<Longrightarrow> inv (snd (remove_op s p))"
    and limit_write: "limit (snd (write_op s p b)) = limit s"
    and limit_remove: "limit (snd (remove_op s p)) = limit s"
    and usage_le: "inv s \<Longrightarrow> usage s \<le> limit s"
    and write_error: "write_op s p b = (Inl e, s') \<Longrightarrow> s' = s"
    and read_write: "inv s \<Longrightarrow> write_op s p b = (Inr u, s') \<Longrightarrow>
          read_op s' q = (if path_components q = path_components p then Some b else read_op s q)"
    and read_remove: "inv s \<Longrightarrow>
          read_op (snd (remove_op s p)) q = (if path_components q = path_components p then None else read_op s q)"
begin

lemma apply_op_inv: "inv s \<Longrightarrow> op_fits (limit s) oper \<Longrightarrow> inv (apply_op write_op remove_op oper s)"
  by (cases oper) (auto simp: inv_write inv_remove)

lemma apply_op_limit: "limit (apply_op write_op remove_op oper s) = limit s"
  by (cases oper) (auto simp: limit_write limit_remove)

lemma run_inv:
  "inv s \<Longrightarrow> \<forall>oper\<in>set ops. op_fits (limit s) oper \<Longrightarrow> inv (fold (apply_op write_op remove_op) ops s)"
  by (induction ops arbitrary: s) (auto simp: apply_op_inv apply_op_limit)

lemma run_limit: "limit (fold (apply_op write_op remove_op) ops s) = limit s"
  by (induction ops arbitrary: s) (auto simp: apply_op_limit)

lemma run_usage:
  "inv s \<Longrightarrow> \<forall>oper\<in>set ops. op_fits (limit s) oper \<Longrightarrow>
     usage (fold (apply_op write_op remove_op) ops s) \<le> limit s"
  using usage_le [OF run_inv] by (simp add: run_limit)

lemma apply_op_read_other:
  assumes "inv s" "path_components q \<noteq> path_components (op_path oper)"
  shows "read_op (apply_op write_op remove_op oper s) q = read_op s q"
proof (cases oper)
  case (WriteOp p b)
  obtain r s' where w: "write_op s p b = (r, s')" by fastforce
  show ?thesis
  proof (cases r)
    case (Inl e)
    with w write_error have "s' = s" by blast
    with w WriteOp show ?thesis by simp
  next
    case (Inr u)
    with w assms WriteOp read_write [OF assms(1), of p b u s'] show ?thesis by simp
  qed
next
  case (RemoveOp p)
  with assms show ?thesis by (simp add: read_remove)
qed

lemma run_read_other:
  "inv s \<Longrightarrow> \<forall>oper\<in>set ops. op_fits (limit s) oper \<and> path_components q \<noteq> path_components (op_path oper) \<Longrightarrow>
     read_op (fold (apply_op write_op remove_op) ops s) q = read_op s q"
  by (induction ops arbitrary: s) (auto simp: apply_op_inv apply_op_limit apply_op_read_other)

text \<open>A successful write_op is read back after any operations on other paths.\<close>

lemma write_run_read:
  assumes "inv s" "write_fits (limit s) b" "write_op s p b = (Inr u, s')"
    and "\<forall>oper\<in>set ops. op_fits (limit s) oper \<and> path_components p \<noteq> path_components (op_path oper)"
  shows "read_op (fold (apply_op write_op remove_op) ops s') p = Some b"
proof -
  from assms(1-3) have "inv s'" using inv_write [of s b p] by simp
  moreover have "limit s' = limit s" using limit_write [of s p b] assms(3) by simp
  ultimately have "read_op (fold (apply_op write_op remove_op) ops s') p = read_op s' p"
    using assms(4) by (simp add: run_read_other)
  also have "\<dots> = Some b" using read_write [OF assms(1,3)] by simp
  finally show ?thesis .
qed

end

interpretation scratch: quota_store memfs_write memfs_remove memfs_read
  "\<lambda>fs. unat (used fs)" "\<lambda>fs. effective_quota (quota_bytes fs)" memfs_inv
proof (unfold_locales, goal_cases)
  case (5 s)
  then show ?case by (simp add: memfs_inv_def)
next
  case (7 s p b u s' q)
  then show ?case
    by (auto simp: memfs_read_def memfs_write_files memfs_inv_def amap.get_insert)
next
  case (8 s p q)
  then show ?case
    by (auto simp: memfs_read_def memfs_remove_def Let_def memfs_inv_def amap.get_remove
        split: option.splits)
qed (auto simp: memfs_inv_write memfs_inv_remove dest: memfs_write_error)

section \<open>Limits and sandboxes\<close>

lemma limits_validate_ok_iff:
  "limits_validate l = Inr u \<longleftrightarrow>
     lim_max_memory_bytes l \<noteq> 0 \<and> lim_max_wall_duration l \<noteq> 0 \<and>
     lim_max_instances l \<noteq> 0 \<and> lim_memfs_quota_bytes l \<noteq> 0"
  by (auto simp: limits_validate_def)

lemma limits_validate_error: "limits_validate l = Inl e \<Longrightarrow> \<exists>m. e = LimitExceeded m"
  by (auto simp: limits_validate_def split: if_splits)

lemma clamp_to_bounds:
  "lim_max_memory_bytes (clamp_to m i l) \<le> m" "lim_max_instances (clamp_to m i l) \<le> i"
  "1 \<le> lim_max_epoch_delta (clamp_to m i l)"
  by (simp_all add: clamp_to_def)

lemma clamp_to_idem: "clamp_to m i (clamp_to m i l) = clamp_to m i l"
  by (simp add: clamp_to_def)

lemma clamp_to_validate:
  "m \<noteq> 0 \<Longrightarrow> i \<noteq> 0 \<Longrightarrow> limits_validate (clamp_to m i l) = limits_validate l"
  by (simp add: limits_validate_def clamp_to_def min_def)

lemma sandbox_new_ok_iff:
  "sandbox_new t l c h = (Inr sb, h') \<longleftrightarrow>
     limits_validate l = Inr () \<and> h' = h @ [memfs_new (lim_memfs_quota_bytes l)] \<and>
     sb = \<lparr>sb_tenant = t, sb_limits = l, sb_config = c, sb_readonly_preopens = [],
           sb_scratch = length h\<rparr>"
  by (auto simp: sandbox_new_def split: sum.splits)

lemma sandbox_new_error: "sandbox_new t l c h = (Inl e, h') \<Longrightarrow> h' = h \<and> (\<exists>m. e = LimitExceeded m)"
  by (auto simp: sandbox_new_def limits_validate_error split: sum.splits)

section \<open>Properties\<close>

text \<open>C9: The scratch quota is never exceeded. From a fresh filesystem with quota \<open>q\<close>, after any
  sequence of writes and removals, failed ones included, the byte counter equals the bytes held
  in all files and is at most the quota. (The bytes of one write and the quota together stay below
  \<open>2^63\<close>.)\<close>

theorem memfs_quota_respected:
  assumes "\<forall>oper\<in>set ops. op_fits (effective_quota q) oper"
  shows "let fs = fold (apply_op memfs_write memfs_remove) ops (memfs_new q) in
    unat (used fs) = assoc_weight length (files fs) \<and> unat (used fs) \<le> unat q"
proof -
  let ?fs = "fold (apply_op memfs_write memfs_remove) ops (memfs_new q)"
  have "memfs_inv ?fs"
    using scratch.run_inv [where s = "memfs_new q" and ops = ops] memfs_inv_new [of q] assms by simp
  moreover have "unat (used ?fs) \<le> effective_quota q"
    using scratch.run_usage [where s = "memfs_new q" and ops = ops] memfs_inv_new [of q] assms by simp
  ultimately show ?thesis
    using effective_quota_le [of q] by (simp add: Let_def memfs_inv_def)
qed

theorem memfs_quota_respected_witness:
  "let fs = fold (apply_op memfs_write memfs_remove)
      [WriteOp ''a'' [1, 2], WriteOp ''./a'' [7, 8, 9], RemoveOp ''a'', WriteOp ''b'' [3]] (memfs_new 4) in
    unat (used fs) = assoc_weight length (files fs) \<and> unat (used fs) \<le> unat (4 :: usize)"
  by (rule memfs_quota_respected) (simp add: write_fits_def effective_quota_def)

text \<open>C23: The word-level write computes what the natural-number reference says: it refuses empty and
  absolute paths, refuses a write exactly when it grows its file and the new total would pass the
  quota, and otherwise stores the bytes and the exact new total, without wrap-around.\<close>

theorem memfs_write_refines_reference:
  assumes "memfs_inv fs" and "write_fits (effective_quota (quota_bytes fs)) bytes"
  shows "memfs_write fs path bytes = memfs_write_ref fs path bytes"
  using assms by (rule memfs_write_eq_ref)

theorem memfs_write_refines_reference_witness:
  "memfs_write (memfs_new 2) ''k'' [7, 7, 7] = memfs_write_ref (memfs_new 2) ''k'' [7, 7, 7]"
  by (rule memfs_write_refines_reference [OF memfs_inv_new])
    (simp add: write_fits_def memfs_new_def effective_quota_def)

text \<open>Reads return the last write. After a successful write of a path, and any operations on
  paths with other components, a read of the path (in any spelling with the same components)
  returns the bytes written.\<close>

theorem memfs_read_your_writes:
  assumes "memfs_inv fs" and "write_fits (effective_quota (quota_bytes fs)) b"
    and "memfs_write fs p b = (Inr (), fs')" and "path_components p' = path_components p"
    and "\<forall>oper\<in>set ops. op_fits (effective_quota (quota_bytes fs)) oper \<and>
           path_components p \<noteq> path_components (op_path oper)"
  shows "memfs_read (fold (apply_op memfs_write memfs_remove) ops fs') p' = Some b"
  using scratch.write_run_read [OF assms(1,2,3,5)] assms(4) by (simp add: memfs_read_def)

theorem memfs_read_your_writes_witness:
  "memfs_read (fold (apply_op memfs_write memfs_remove) [RemoveOp ''c'']
     (snd (memfs_write (memfs_new 8) ''a//b'' [5]))) ''a/./b'' = Some [5]"
proof -
  have "fst (memfs_write (memfs_new 8) ''a//b'' [5]) = Inr ()" by code_simp
  then have "memfs_write (memfs_new 8) ''a//b'' [5] = (Inr (), snd (memfs_write (memfs_new 8) ''a//b'' [5]))"
    by (metis prod.collapse)
  moreover have "path_components ''a/./b'' = path_components ''a//b''"
      "path_components ''a//b'' \<noteq> path_components ''c''" by code_simp+
  ultimately show ?thesis
    using memfs_read_your_writes [where fs = "memfs_new 8" and b = "[5]" and p = "''a//b''"
        and p' = "''a/./b''" and ops = "[RemoveOp ''c'']"
        and fs' = "snd (memfs_write (memfs_new 8) ''a//b'' [5])"] memfs_inv_new [of 8]
    by (simp add: write_fits_def effective_quota_def)
qed

text \<open>A quota of \<open>2^63\<close> bytes or more behaves as a quota of zero: its cast to \<open>i64\<close> is negative,
  so on a fresh filesystem every write of a non-empty file is refused.\<close>

theorem memfs_huge_quota_refuses:
  assumes "2 ^ 63 \<le> unat q" and "b \<noteq> []" and "length b < 2 ^ 63"
  shows "\<exists>m. memfs_write (memfs_new q) path b = (Inl (LimitExceeded m), memfs_new q)"
proof -
  have "effective_quota q = 0" using assms(1) by (simp add: effective_quota_def)
  moreover have "memfs_write (memfs_new q) path b = memfs_write_ref (memfs_new q) path b"
    using assms(3) calculation
    by (intro memfs_write_eq_ref memfs_inv_new) (simp add: write_fits_def memfs_new_def)
  ultimately show ?thesis
    using assms(2) by (simp add: memfs_write_ref_def memfs_new_def weight_at_def Let_def)
qed

theorem memfs_huge_quota_refuses_witness:
  "\<exists>m. memfs_write (memfs_new (2 ^ 63)) ''k'' [1] = (Inl (LimitExceeded m), memfs_new (2 ^ 63))"
  by (rule memfs_huge_quota_refuses) simp_all

text \<open>Sandboxes do not share scratch storage. Two sandboxes built one after the other hold
  different filesystems with their own quotas, and a write through one leaves the bytes and the
  usage seen through the other unchanged.\<close>

theorem sandboxes_isolated:
  assumes "sandbox_new t\<^sub>1 l\<^sub>1 c\<^sub>1 h = (Inr sb\<^sub>1, h\<^sub>1)" and "sandbox_new t\<^sub>2 l\<^sub>2 c\<^sub>2 h\<^sub>1 = (Inr sb\<^sub>2, h\<^sub>2)"
  shows "sb_scratch sb\<^sub>1 \<noteq> sb_scratch sb\<^sub>2 \<and>
    quota_bytes (h\<^sub>2 ! sb_scratch sb\<^sub>1) = lim_memfs_quota_bytes l\<^sub>1 \<and>
    quota_bytes (h\<^sub>2 ! sb_scratch sb\<^sub>2) = lim_memfs_quota_bytes l\<^sub>2 \<and>
    scratch_bytes sb\<^sub>1 h\<^sub>2 = 0 \<and> scratch_bytes sb\<^sub>2 h\<^sub>2 = 0 \<and>
    (\<forall>p b. let h' = h\<^sub>2[sb_scratch sb\<^sub>1 := snd (memfs_write (h\<^sub>2 ! sb_scratch sb\<^sub>1) p b)] in
       h' ! sb_scratch sb\<^sub>2 = h\<^sub>2 ! sb_scratch sb\<^sub>2 \<and> scratch_bytes sb\<^sub>2 h' = 0)"
  using assms by (auto simp: sandbox_new_ok_iff scratch_bytes_def memfs_new_def nth_append Let_def)

theorem sandboxes_isolated_witness:
  "\<exists>sb\<^sub>1 sb\<^sub>2 h\<^sub>1 h\<^sub>2. sandbox_new (TenantId ''a'') sandbox_limits_default [] [] = (Inr sb\<^sub>1, h\<^sub>1) \<and>
     sandbox_new (TenantId ''b'') sandbox_limits_default [] h\<^sub>1 = (Inr sb\<^sub>2, h\<^sub>2) \<and>
     sb_scratch sb\<^sub>1 \<noteq> sb_scratch sb\<^sub>2"
proof -
  have "limits_validate sandbox_limits_default = Inr ()"
    by (simp add: limits_validate_ok_iff sandbox_limits_default_def from_secs_def)
  then obtain sb\<^sub>1 h\<^sub>1 where 1: "sandbox_new (TenantId ''a'') sandbox_limits_default [] [] = (Inr sb\<^sub>1, h\<^sub>1)"
    by (simp add: sandbox_new_ok_iff)
  from \<open>limits_validate _ = _\<close> obtain sb\<^sub>2 h\<^sub>2
    where 2: "sandbox_new (TenantId ''b'') sandbox_limits_default [] h\<^sub>1 = (Inr sb\<^sub>2, h\<^sub>2)"
    by (simp add: sandbox_new_ok_iff)
  from 1 2 sandboxes_isolated [OF 1 2] show ?thesis by blast
qed

end
