(* ===== verification/Content_Store.thy ===== *)
theory Content_Store
  imports Ember_Error
begin

text \<open>
  The content-addressable module store, the pin set and the hot-reload policy of
  \<open>src/src/registry/store.rs\<close>.

  The hash function and the hex encoder are other crates (\<open>sha2\<close>, \<open>hex\<close>): they are the parameter
  \<open>C :: crypto\<close>, and \<open>crypto_ok C\<close> states what their documentation promises (32 bytes of hash, two
  lower-case hex digits per byte).

  The store directory is an association list from file names to contents. \<open>store_put\<close> is the
  sequential operation with every I/O call able to fail; \<open>cas_step\<close> describes the same calls as
  separate filesystem steps on inodes, so that a crash or another writer can come between them.
\<close>

section \<open>Digests\<close>

record crypto =
  sha256 :: "bytes \<Rightarrow> bytes"
  hex_encode :: "bytes \<Rightarrow> string"

definition is_lower_hex :: "char \<Rightarrow> bool" where
  "is_lower_hex c \<longleftrightarrow> is_ascii_digit c \<or> (97 \<le> byte c \<and> byte c \<le> 102)"

definition crypto_ok :: "crypto \<Rightarrow> bool" where
  "crypto_ok C \<longleftrightarrow> (\<forall>b. length (sha256 C b) = 32) \<and>
     (\<forall>b. length (hex_encode C b) = 2 * length b \<and> list_all is_lower_hex (hex_encode C b))"

definition store_digest :: "crypto \<Rightarrow> bytes \<Rightarrow> string" where
  "store_digest C blob = ''sha256:'' @ hex_encode C (sha256 C blob)"

definition sanitize_digest :: "string \<Rightarrow> string result" where
  "sanitize_digest digest =
     (case strip_prefix ''sha256:'' digest of
        None \<Rightarrow> Inl (ComponentNotFound (''unsupported digest scheme in `'' @ digest @ ''`''))
      | Some hex \<Rightarrow>
          if length hex \<noteq> 64 \<or> \<not> list_all is_ascii_hexdigit hex then
            Inl (ComponentNotFound (''malformed sha256 digest `'' @ digest @ ''`''))
          else Inr hex)"

section \<open>The store directory\<close>

type_synonym dir = "(string, bytes) assoc"

text \<open>How the I/O calls of one \<open>put\<close> go: \<open>None\<close> is success; a failing write has written some bytes.\<close>

record put_io =
  pi_create :: "io_error option"
  pi_write :: "(nat \<times> io_error) option"
  pi_sync :: "io_error option"
  pi_rename :: "io_error option"

definition tmp_name :: "nat \<Rightarrow> string" where
  "tmp_name pid = ''.tmp-'' @ show_nat pid"

text \<open>\<open>ContentStore::open\<close> creates the root directory; the directory then has some contents.\<close>

definition store_open :: "io_error option \<Rightarrow> dir \<Rightarrow> dir result" where
  "store_open mkdir existing = (case mkdir of Some e \<Rightarrow> Inl (Io e) | None \<Rightarrow> Inr existing)"

definition blob_path :: "string \<Rightarrow> string result" where
  "blob_path digest = sanitize_digest digest"

definition store_put :: "crypto \<Rightarrow> put_io \<Rightarrow> nat \<Rightarrow> bytes \<Rightarrow> dir \<Rightarrow> string result \<times> dir" where
  "store_put C io pid blob dir =
     (let digest = store_digest C blob in
      case blob_path digest of
        Inl e \<Rightarrow> (Inl e, dir)
      | Inr path \<Rightarrow>
          if assoc_get dir path \<noteq> None then (Inr digest, dir)
          else
            (let tmp = tmp_name pid in
             case pi_create io of
               Some e \<Rightarrow> (Inl (Io e), dir)
             | None \<Rightarrow>
                 (case pi_write io of
                    Some (n, e) \<Rightarrow> (Inl (Io e), assoc_insert tmp (take n blob) dir)
                  | None \<Rightarrow>
                      (let dir' = assoc_insert tmp blob dir in
                       case pi_sync io of
                         Some e \<Rightarrow> (Inl (Io e), dir')
                       | None \<Rightarrow>
                           (case pi_rename io of
                              None \<Rightarrow> (Inr digest, assoc_insert path blob (assoc_remove tmp dir'))
                            | Some e \<Rightarrow>
                                if kind e = AlreadyExists then (Inr digest, dir')
                                else (Inl (Io e), dir'))))))"

text \<open>\<open>rd\<close> says which existing files can be read; every failure is reported as not found.\<close>

definition store_get :: "(string \<Rightarrow> bool) \<Rightarrow> dir \<Rightarrow> string \<Rightarrow> bytes result" where
  "store_get rd dir digest =
     (case blob_path digest of
        Inl e \<Rightarrow> Inl e
      | Inr path \<Rightarrow>
          (case assoc_get dir path of
             Some b \<Rightarrow> if rd path then Inr b else Inl (ComponentNotFound digest)
           | None \<Rightarrow> Inl (ComponentNotFound digest)))"

definition store_contains :: "dir \<Rightarrow> string \<Rightarrow> bool" where
  "store_contains dir digest =
     (case blob_path digest of Inl _ \<Rightarrow> False | Inr path \<Rightarrow> assoc_get dir path \<noteq> None)"

text \<open>The loop of \<open>disk_usage\<close> over the directory entries; \<open>me\<close> gives failing \<open>metadata\<close> calls.\<close>

fun usage_loop :: "(string \<Rightarrow> io_error option) \<Rightarrow> u64 \<Rightarrow> (string \<times> bytes) list \<Rightarrow> u64 result" where
  "usage_loop me acc [] = Inr acc"
| "usage_loop me acc ((name, b) # entries) =
     (if starts_with name ''.tmp'' then usage_loop me acc entries
      else (case me name of
              Some e \<Rightarrow> Inl (Io e)
            | None \<Rightarrow> usage_loop me (acc + of_nat (length b)) entries))"

definition disk_usage :: "io_error option \<Rightarrow> (string \<Rightarrow> io_error option) \<Rightarrow> dir \<Rightarrow> u64 result" where
  "disk_usage readdir me dir =
     (case readdir of Some e \<Rightarrow> Inl (Io e) | None \<Rightarrow> usage_loop me 0 dir)"

section \<open>Pins\<close>

record pin_set =
  pins :: "(string, string) assoc"

definition pin_set_default :: pin_set where
  "pin_set_default = \<lparr>pins = []\<rparr>"

definition pin_key :: "string \<Rightarrow> string \<Rightarrow> pin_set \<Rightarrow> pin_set" where
  "pin_key key digest ps = ps\<lparr>pins := assoc_insert key digest (pins ps)\<rparr>"

definition pin_resolve :: "pin_set \<Rightarrow> string \<Rightarrow> string option" where
  "pin_resolve ps key = assoc_get (pins ps) key"

definition unpin :: "string \<Rightarrow> string \<Rightarrow> pin_set \<Rightarrow> bool \<times> pin_set" where
  "unpin key digest ps =
     (if assoc_get (pins ps) key = Some digest then (True, ps\<lparr>pins := assoc_remove key (pins ps)\<rparr>)
      else (False, ps))"

section \<open>Reload policy\<close>

record hot_reload_policy =
  poll_interval :: duration
  debounce :: duration
  require_pinned :: bool
  max_failed_polls :: usize

definition hot_reload_policy_default :: hot_reload_policy where
  "hot_reload_policy_default =
     \<lparr>poll_interval = from_secs 30, debounce = from_secs 5, require_pinned = False,
      max_failed_polls = 3\<rparr>"

definition should_reload :: "hot_reload_policy \<Rightarrow> string option \<Rightarrow> string \<Rightarrow> bool" where
  "should_reload policy prev next = (case prev of Some p \<Rightarrow> p \<noteq> next | None \<Rightarrow> True)"

definition exhausted :: "hot_reload_policy \<Rightarrow> usize \<Rightarrow> bool" where
  "exhausted policy failures \<longleftrightarrow> failures \<ge> max_failed_polls policy"

section \<open>The filesystem steps of a put\<close>

text \<open>
  The directory maps names to inodes. A writer is a \<open>put\<close> in progress: it has opened the
  temporary file (\<open>File::create\<close> truncates an existing one and keeps its inode) and written a
  prefix of its blob, or has also synced it. All writers of a process use one temporary name.
  A put may fail and leave its temporary file; a crash ends every put and may leave anything in
  the files that were not synced.
\<close>

datatype writer = Writing bytes nat nat | Synced bytes nat

record cas =
  names :: "(string, nat) assoc"
  inodes :: "bytes list"
  writers :: "writer list"

definition pwrite :: "bytes \<Rightarrow> nat \<Rightarrow> bytes \<Rightarrow> bytes" where
  "pwrite content off chunk = take off content @ chunk @ drop (off + length chunk) content"

definition blob_name :: "crypto \<Rightarrow> bytes \<Rightarrow> string" where
  "blob_name C blob = hex_encode C (sha256 C blob)"

text \<open>\<open>excl\<close> restricts a put to start only when no other put of the process is in progress.\<close>

inductive cas_step :: "crypto \<Rightarrow> nat \<Rightarrow> bool \<Rightarrow> cas \<Rightarrow> cas \<Rightarrow> bool"
  for C :: crypto and pid :: nat and excl :: bool where
  create_new:
    "assoc_get (names s) (blob_name C blob) = None \<Longrightarrow> excl \<longrightarrow> writers s = [] \<Longrightarrow>
     assoc_get (names s) (tmp_name pid) = None \<Longrightarrow>
     cas_step C pid excl s
       (s\<lparr>names := assoc_insert (tmp_name pid) (length (inodes s)) (names s),
          inodes := inodes s @ [[]], writers := writers s @ [Writing blob (length (inodes s)) 0]\<rparr>)"
| create_truncate:
    "assoc_get (names s) (blob_name C blob) = None \<Longrightarrow> excl \<longrightarrow> writers s = [] \<Longrightarrow>
     assoc_get (names s) (tmp_name pid) = Some i \<Longrightarrow>
     cas_step C pid excl s
       (s\<lparr>inodes := (inodes s)[i := []], writers := writers s @ [Writing blob i 0]\<rparr>)"
| write_chunk:
    "w < length (writers s) \<Longrightarrow> writers s ! w = Writing blob i k \<Longrightarrow> k + n \<le> length blob \<Longrightarrow>
     cas_step C pid excl s
       (s\<lparr>inodes := (inodes s)[i := pwrite (inodes s ! i) k (take n (drop k blob))],
          writers := (writers s)[w := Writing blob i (k + n)]\<rparr>)"
| sync_file:
    "w < length (writers s) \<Longrightarrow> writers s ! w = Writing blob i (length blob) \<Longrightarrow>
     cas_step C pid excl s (s\<lparr>writers := (writers s)[w := Synced blob i]\<rparr>)"
| rename_file:
    "w < length (writers s) \<Longrightarrow> writers s ! w = Synced blob i \<Longrightarrow>
     assoc_get (names s) (tmp_name pid) = Some j \<Longrightarrow>
     cas_step C pid excl s
       (s\<lparr>names := assoc_insert (blob_name C blob) j (assoc_remove (tmp_name pid) (names s)),
          writers := take w (writers s) @ drop (Suc w) (writers s)\<rparr>)"
| put_fails:
    "w < length (writers s) \<Longrightarrow>
     cas_step C pid excl s (s\<lparr>writers := take w (writers s) @ drop (Suc w) (writers s)\<rparr>)"
| crash:
    "length ns = length (inodes s) \<Longrightarrow>
     \<forall>i < length ns. (\<forall>blob k. Writing blob i k \<notin> set (writers s)) \<longrightarrow> ns ! i = inodes s ! i \<Longrightarrow>
     cas_step C pid excl s (s\<lparr>inodes := ns, writers := []\<rparr>)"

definition cas_init :: "cas \<Rightarrow> bool" where
  "cas_init s \<longleftrightarrow> names s = [] \<and> inodes s = [] \<and> writers s = []"

section \<open>Digest strings\<close>

lemma crypto_okD:
  assumes "crypto_ok C"
  shows "length (blob_name C b) = 64" "list_all is_lower_hex (blob_name C b)"
  using assms by (simp_all add: crypto_ok_def blob_name_def)

lemma store_digest_name: "store_digest C b = ''sha256:'' @ blob_name C b"
  by (simp add: store_digest_def blob_name_def)

lemma lower_hex_hexdigit: "is_lower_hex c \<Longrightarrow> is_ascii_hexdigit c"
  by (auto simp: is_lower_hex_def is_ascii_hexdigit_def)

lemma sanitize_digest_ok_iff:
  "sanitize_digest d = Inr h \<longleftrightarrow>
     d = ''sha256:'' @ h \<and> length h = 64 \<and> list_all is_ascii_hexdigit h"
  by (auto simp: sanitize_digest_def strip_prefix_Some_iff simp del: append.simps
      split: option.splits if_splits)

lemma sanitize_digest_error: "sanitize_digest d = Inl e \<Longrightarrow> \<exists>m. e = ComponentNotFound m"
  by (auto simp: sanitize_digest_def split: option.splits if_splits)

lemma blob_path_digest: "crypto_ok C \<Longrightarrow> blob_path (store_digest C b) = Inr (blob_name C b)"
  using crypto_okD [of C b]
  by (auto simp: blob_path_def sanitize_digest_ok_iff store_digest_name list_all_iff lower_hex_hexdigit
      simp del: append.simps)

lemma hexdigit_not_dot: "is_ascii_hexdigit c \<Longrightarrow> c \<noteq> CHR ''.''"
  by (auto simp: byte_simps)

text \<open>A blob file is never named like a temporary file.\<close>

lemma hex_name_not_tmp:
  assumes "length h = 64" "list_all is_ascii_hexdigit h"
  shows "\<not> starts_with h ''.tmp''" "h \<noteq> tmp_name pid"
proof -
  from assms obtain c t where "h = c # t" "c \<noteq> CHR ''.''"
    by (cases h) (auto dest: hexdigit_not_dot)
  then show "\<not> starts_with h ''.tmp''" "h \<noteq> tmp_name pid"
    by (auto simp: starts_with_def tmp_name_def)
qed

lemma blob_name_not_tmp:
  assumes "crypto_ok C"
  shows "\<not> starts_with (blob_name C b) ''.tmp''" "blob_name C b \<noteq> tmp_name pid"
proof -
  have "length (blob_name C b) = 64" "list_all is_ascii_hexdigit (blob_name C b)"
    using crypto_okD [OF assms, of b] by (auto simp: list_all_iff lower_hex_hexdigit)
  then show "\<not> starts_with (blob_name C b) ''.tmp''" "blob_name C b \<noteq> tmp_name pid"
    by (rule hex_name_not_tmp)+
qed

lemma tmp_name_tmp [simp]: "starts_with (tmp_name pid) ''.tmp''"
  by (simp add: starts_with_def tmp_name_def)

section \<open>Integrity of the directory\<close>

definition store_inv :: "crypto \<Rightarrow> dir \<Rightarrow> bool" where
  "store_inv C dir \<longleftrightarrow> assoc_ok dir \<and>
     (\<forall>n b. assoc_get dir n = Some b \<longrightarrow> starts_with n ''.tmp'' \<or> n = blob_name C b)"

lemma store_inv_empty: "store_inv C []"
  by (simp add: store_inv_def)

lemma store_inv_tmp: "store_inv C dir \<Longrightarrow> store_inv C (assoc_insert (tmp_name pid) b dir)"
  by (auto simp: store_inv_def amap.ok_insert amap.get_insert)

lemma store_inv_remove: "store_inv C dir \<Longrightarrow> store_inv C (assoc_remove n dir)"
  by (auto simp: store_inv_def amap.ok_remove amap.get_remove)

lemma store_inv_blob: "store_inv C dir \<Longrightarrow> store_inv C (assoc_insert (blob_name C b) b dir)"
  by (auto simp: store_inv_def amap.ok_insert amap.get_insert)

text \<open>The three shapes of the directory after a put.\<close>

lemma store_put_dir:
  assumes "crypto_ok C"
  shows "snd (store_put C io pid blob dir) = dir \<or>
    assoc_get dir (blob_name C blob) = None \<and>
      (\<exists>b. snd (store_put C io pid blob dir) = assoc_insert (tmp_name pid) b dir) \<or>
    assoc_get dir (blob_name C blob) = None \<and>
      snd (store_put C io pid blob dir) = assoc_insert (blob_name C blob) blob
        (assoc_remove (tmp_name pid) (assoc_insert (tmp_name pid) blob dir))"
  using assms unfolding store_put_def
  by (simp add: blob_path_digest Let_def split: option.split prod.split) blast

lemma store_put_ok_digest: "store_put C io pid blob dir = (Inr d, dir') \<Longrightarrow> d = store_digest C blob"
  by (auto simp: store_put_def Let_def split: sum.splits option.splits prod.splits if_splits)

lemma store_inv_put:
  assumes "crypto_ok C" "store_inv C dir"
  shows "store_inv C (snd (store_put C io pid blob dir))"
  using store_put_dir [OF assms(1), of io pid blob dir] assms(2)
  by (metis store_inv_blob store_inv_remove store_inv_tmp)

lemma store_get_ok_iff:
  "store_get rd dir d = Inr b \<longleftrightarrow>
     (\<exists>h. blob_path d = Inr h \<and> assoc_get dir h = Some b \<and> rd h)"
  by (auto simp: store_get_def split: sum.splits option.splits if_splits)

lemma store_get_digest:
  assumes "store_inv C dir" "store_get rd dir d = Inr b"
  shows "store_digest C b = d"
proof -
  from assms(2) obtain h where h: "d = ''sha256:'' @ h" "length h = 64" "list_all is_ascii_hexdigit h"
      "assoc_get dir h = Some b"
    by (auto simp: store_get_ok_iff blob_path_def sanitize_digest_ok_iff simp del: append.simps)
  with assms(1) hex_name_not_tmp(1) [OF h(2,3)] show ?thesis
    by (auto simp: store_inv_def store_digest_name)
qed

lemma store_put_keeps:
  assumes "crypto_ok C" "store_inv C dir" "store_get rd dir d = Inr b"
  shows "store_get rd (snd (store_put C io pid blob dir)) d = Inr b"
proof -
  from assms(3) obtain h where h: "blob_path d = Inr h" "assoc_get dir h = Some b" "rd h"
    by (auto simp: store_get_ok_iff)
  then have "h \<noteq> tmp_name pid"
    using hex_name_not_tmp(2) by (auto simp: blob_path_def sanitize_digest_ok_iff simp del: append.simps)
  moreover have ok: "assoc_ok dir" using assms(2) by (simp add: store_inv_def)
  ultimately have "assoc_get (snd (store_put C io pid blob dir)) h = Some b"
    using store_put_dir [OF assms(1), of io pid blob dir] h(2)
    by (auto simp: amap.get_insert amap.get_remove amap.ok_insert amap.ok_remove)
  with h show ?thesis by (auto simp: store_get_ok_iff)
qed

section \<open>The blob-store interface\<close>

text \<open>
  What the registry client relies on: a put answers with the digest of the bytes, keeps the store
  sound and every blob readable before it, and a get answers only with bytes of the digest asked for.
\<close>

locale blob_store =
  fixes put :: "bytes \<Rightarrow> 's \<Rightarrow> string result \<times> 's"
    and get :: "'s \<Rightarrow> string \<Rightarrow> bytes result"
    and digest :: "bytes \<Rightarrow> string"
    and inv :: "'s \<Rightarrow> bool"
  assumes inv_put: "inv s \<Longrightarrow> inv (snd (put b s))"
    and put_digest: "put b s = (Inr d, s') \<Longrightarrow> d = digest b"
    and get_digest: "inv s \<Longrightarrow> get s d = Inr b \<Longrightarrow> digest b = d"
    and put_keeps: "inv s \<Longrightarrow> get s d = Inr b \<Longrightarrow> get (snd (put x s)) d = Inr b"
begin

lemma puts_inv: "inv s \<Longrightarrow> inv (fold (\<lambda>b s. snd (put b s)) bs s)"
  by (induction bs arbitrary: s) (auto simp: inv_put)

lemma puts_keep: "inv s \<Longrightarrow> get s d = Inr b \<Longrightarrow> get (fold (\<lambda>b s. snd (put b s)) bs s) d = Inr b"
  by (induction bs arbitrary: s) (auto simp: inv_put put_keeps)

lemma puts_get_digest:
  "inv s \<Longrightarrow> get (fold (\<lambda>b s. snd (put b s)) bs s) d = Inr b \<Longrightarrow> digest b = d"
  by (rule get_digest) (simp_all add: puts_inv)

end

interpretation cas: blob_store "store_put C io pid" "store_get rd" "store_digest C"
    "\<lambda>dir. crypto_ok C \<and> store_inv C dir" for C io pid rd
  by unfold_locales (auto simp: store_inv_put store_put_keeps dest: store_put_ok_digest store_get_digest)

section \<open>Crash safety of the filesystem steps\<close>

text \<open>
  With at most one put at a time, an open temporary file is the only inode whose content may be
  incomplete, and no blob name points at it.
\<close>

fun writer_inv :: "nat \<Rightarrow> cas \<Rightarrow> writer \<Rightarrow> bool" where
  "writer_inv pid s (Writing blob i k) \<longleftrightarrow>
     assoc_get (names s) (tmp_name pid) = Some i \<and> k \<le> length blob \<and> inodes s ! i = take k blob"
| "writer_inv pid s (Synced blob i) \<longleftrightarrow>
     assoc_get (names s) (tmp_name pid) = Some i \<and> inodes s ! i = blob"

definition names_inv :: "crypto \<Rightarrow> nat \<Rightarrow> cas \<Rightarrow> bool" where
  "names_inv C pid s \<longleftrightarrow> crypto_ok C \<and> assoc_ok (names s) \<and>
     (\<forall>n i. assoc_get (names s) n = Some i \<longrightarrow> i < length (inodes s)) \<and>
     (\<forall>n m i. assoc_get (names s) n = Some i \<longrightarrow> assoc_get (names s) m = Some i \<longrightarrow> n = m) \<and>
     (\<forall>n i. assoc_get (names s) n = Some i \<longrightarrow> n = tmp_name pid \<or> n = blob_name C (inodes s ! i))"

definition cas_inv :: "crypto \<Rightarrow> nat \<Rightarrow> cas \<Rightarrow> bool" where
  "cas_inv C pid s \<longleftrightarrow> names_inv C pid s \<and>
     (writers s = [] \<or> (\<exists>w. writers s = [w] \<and> writer_inv pid s w))"

lemma names_invD:
  assumes "names_inv C pid s"
  shows "crypto_ok C" "assoc_ok (names s)"
    "assoc_get (names s) n = Some i \<Longrightarrow> i < length (inodes s)"
    "assoc_get (names s) n = Some i \<Longrightarrow> assoc_get (names s) m = Some i \<Longrightarrow> n = m"
    "assoc_get (names s) n = Some i \<Longrightarrow> n = tmp_name pid \<or> n = blob_name C (inodes s ! i)"
  using assms unfolding names_inv_def by blast+

text \<open>Changing the content of the temporary file's inode keeps the names sound.\<close>

lemma names_inv_tmp_content:
  assumes "names_inv C pid s" "assoc_get (names s) (tmp_name pid) = Some i"
  shows "names_inv C pid (s\<lparr>inodes := (inodes s)[i := c], writers := ws\<rparr>)"
  using assms unfolding names_inv_def
  by simp (metis assms(2) nth_list_update_neq)

lemma names_inv_writers [simp]: "names_inv C pid (s\<lparr>writers := ws\<rparr>) = names_inv C pid s"
  by (simp add: names_inv_def)

lemma single_writer:
  assumes "cas_inv C pid s" "w < length (writers s)"
  shows "names_inv C pid s" "writers s = [writers s ! w]" "w = 0" "writer_inv pid s (writers s ! w)"
  using assms by (auto simp: cas_inv_def)

lemma cas_inv_create:
  assumes "cas_inv C pid s" "writers s = []" "assoc_get (names s) (tmp_name pid) = None"
  shows "cas_inv C pid (s\<lparr>names := assoc_insert (tmp_name pid) (length (inodes s)) (names s),
    inodes := inodes s @ [[]], writers := [Writing blob (length (inodes s)) 0]\<rparr>)" (is "cas_inv C pid ?t")
proof -
  have n: "names_inv C pid s" using assms(1) by (simp add: cas_inv_def)
  then have "names_inv C pid ?t"
    using assms(3) unfolding names_inv_def
    by (auto simp: amap.get_insert amap.ok_insert nth_append split: if_splits) (metis less_irrefl less_SucI)+
  then show ?thesis using names_invD(2) [OF n] by (simp add: cas_inv_def amap.get_insert)
qed

lemma cas_inv_write:
  assumes inv: "cas_inv C pid s" and w: "w < length (writers s)" "writers s ! w = Writing blob i k"
    and fits: "k + m \<le> length blob"
  shows "cas_inv C pid (s\<lparr>inodes := (inodes s)[i := pwrite (inodes s ! i) k (take m (drop k blob))],
    writers := (writers s)[w := Writing blob i (k + m)]\<rparr>)"
proof -
  note single = single_writer [OF inv w(1)]
  from single w(2) have i: "writers s = [Writing blob i k]" "assoc_get (names s) (tmp_name pid) = Some i"
    "inodes s ! i = take k blob" "k \<le> length blob" by auto
  have "pwrite (take k blob) k (take m (drop k blob)) = take (k + m) blob"
    using i(4) by (simp add: pwrite_def take_add)
  then show ?thesis
    using names_inv_tmp_content [OF single(1) i(2)] names_invD(3) [OF single(1) i(2)] i single(3) fits
    by (simp add: cas_inv_def)
qed

lemma cas_inv_rename:
  assumes inv: "cas_inv C pid s" and w: "w < length (writers s)" "writers s ! w = Synced blob i"
    and tmp: "assoc_get (names s) (tmp_name pid) = Some j"
  shows "cas_inv C pid (s\<lparr>names := assoc_insert (blob_name C blob) j (assoc_remove (tmp_name pid) (names s)),
    writers := take w (writers s) @ drop (Suc w) (writers s)\<rparr>)" (is "cas_inv C pid ?t")
proof -
  note single = single_writer [OF inv w(1)]
  from single w(2) tmp have i: "writers s = [Synced blob i]" "j = i" "inodes s ! i = blob" by auto
  have "names_inv C pid ?t"
    using single(1) tmp i(2,3) unfolding names_inv_def
    by (auto simp: amap.get_insert amap.get_remove amap.ok_insert amap.ok_remove split: if_splits)
  then show ?thesis using i(1) single(3) by (simp add: cas_inv_def)
qed

text \<open>After a crash only the content of open temporary files may differ, which no blob name points at.\<close>

lemma cas_inv_crash:
  assumes inv: "cas_inv C pid s" and len: "length ns = length (inodes s)"
    and kept: "\<forall>i < length ns. (\<forall>blob k. Writing blob i k \<notin> set (writers s)) \<longrightarrow> ns ! i = inodes s ! i"
  shows "cas_inv C pid (s\<lparr>inodes := ns, writers := []\<rparr>)"
proof -
  have n: "names_inv C pid s" using inv by (simp add: cas_inv_def)
  have "ns ! i = inodes s ! i" if "assoc_get (names s) m = Some i" "m \<noteq> tmp_name pid" for m i
  proof -
    have "assoc_get (names s) (tmp_name pid) \<noteq> Some i" using names_invD(4) [OF n that(1)] that(2) by blast
    then have "Writing blob i k \<notin> set (writers s)" for blob k using inv by (auto simp: cas_inv_def)
    moreover have "i < length ns" using len names_invD(3) [OF n that(1)] by simp
    ultimately show ?thesis using kept by blast
  qed
  with n len show ?thesis unfolding cas_inv_def names_inv_def by simp metis
qed

lemma cas_inv_step:
  assumes inv: "cas_inv C pid s" and step: "cas_step C pid True s t"
  shows "cas_inv C pid t"
  using step
proof cases
  case (create_new blob)
  with cas_inv_create [OF inv] show ?thesis by simp
next
  case (create_truncate blob i)
  have n: "names_inv C pid s" using inv by (simp add: cas_inv_def)
  from create_truncate names_inv_tmp_content [OF n] names_invD(3) [OF n] show ?thesis by (simp add: cas_inv_def)
next
  case (write_chunk w blob i k m)
  with cas_inv_write [OF inv] show ?thesis by simp
next
  case (sync_file w blob i)
  with single_writer [OF inv sync_file(2)] show ?thesis by (auto simp: cas_inv_def)
next
  case (rename_file w blob i j)
  with cas_inv_rename [OF inv] show ?thesis by simp
next
  case (put_fails w)
  note single = single_writer [OF inv put_fails(2)]
  then have "take w (writers s) @ drop (Suc w) (writers s) = []"
    by (metis append_self_conv2 drop_Cons drop_Nil nat.case(2) take0)
  with put_fails single(1) show ?thesis by (simp add: cas_inv_def)
next
  case (crash ns)
  with cas_inv_crash [OF inv] show ?thesis by simp
qed

interpretation single_put: transition_invariant "\<lambda>s. cas_init s \<and> crypto_ok C" "cas_step C pid True"
    "cas_inv C pid" for C pid
  by unfold_locales (auto simp: cas_inv_step, simp add: cas_init_def cas_inv_def names_inv_def)

section \<open>Shared lemmas of the properties\<close>

lemma store_inv_puts:
  assumes "crypto_ok C" "store_inv C dir"
  shows "store_inv C (fold (\<lambda>(io, b) d. snd (store_put C io pid b d)) puts dir)"
  using assms(2) by (induction puts arbitrary: dir) (auto simp: store_inv_put [OF assms(1)])

text \<open>The outcome of the I/O calls when nothing fails.\<close>

definition io_success :: put_io where
  "io_success = \<lparr>pi_create = None, pi_write = None, pi_sync = None, pi_rename = None\<rparr>"

lemma store_put_success:
  assumes "crypto_ok C"
  shows "store_put C io_success pid blob dir =
    (Inr (store_digest C blob),
     if assoc_get dir (blob_name C blob) \<noteq> None then dir
     else assoc_insert (blob_name C blob) blob
            (assoc_remove (tmp_name pid) (assoc_insert (tmp_name pid) blob dir)))"
  using assms by (auto simp: store_put_def blob_path_digest io_success_def Let_def)

lemma usage_loop_eq:
  "usage_loop (\<lambda>_. None) acc es =
     Inr (acc + of_nat (\<Sum>(n, b)\<leftarrow>filter (\<lambda>(n, b). \<not> starts_with n ''.tmp'') es. length b))"
  by (induction es arbitrary: acc) auto

text \<open>A concrete hash and hex encoder that meet the documented behaviour.\<close>

definition nibble_char :: "nat \<Rightarrow> char" where
  "nibble_char n = (if n < 10 then char_of (48 + n) else char_of (87 + n))"

definition hex_of :: "bytes \<Rightarrow> string" where
  "hex_of bs = concat (map (\<lambda>b. [nibble_char (unat b div 16), nibble_char (unat b mod 16)]) bs)"

definition pad_crypto :: crypto where
  "pad_crypto = \<lparr>sha256 = (\<lambda>b. take 32 (b @ replicate 32 0)), hex_encode = hex_of\<rparr>"

lemma nibble_char_hex: "n < 16 \<Longrightarrow> is_lower_hex (nibble_char n)"
  by (auto simp: nibble_char_def is_lower_hex_def is_ascii_digit_def byte_char_of)

lemma hex_of_ok: "length (hex_of bs) = 2 * length bs \<and> list_all is_lower_hex (hex_of bs)"
proof (induction bs)
  case (Cons b bs)
  have "unat b < 16 * 16" using unsigned_less [of b, where ?'a = nat] by simp
  then have "unat b div 16 < 16" by (simp add: less_mult_imp_div_less)
  with Cons show ?case by (simp add: hex_of_def nibble_char_hex)
qed (simp add: hex_of_def)

lemma pad_crypto_ok: "crypto_ok pad_crypto"
  by (auto simp: crypto_ok_def pad_crypto_def hex_of_ok min_def)

subsection \<open>Traces of the filesystem steps\<close>

definition cas_empty :: cas where
  "cas_empty = \<lparr>names = [], inodes = [], writers = []\<rparr>"

lemma reach_empty:
  "crypto_ok C \<Longrightarrow> reachable (\<lambda>s. cas_init s \<and> crypto_ok C) (cas_step C pid excl) cas_empty"
  by (rule reachable.reach_init) (simp add: cas_init_def cas_empty_def)

text \<open>One put from the empty directory up to its synced temporary file.\<close>

lemma reach_synced:
  assumes "crypto_ok C"
  shows "reachable (\<lambda>s. cas_init s \<and> crypto_ok C) (cas_step C pid excl)
    \<lparr>names = [(tmp_name pid, 0)], inodes = [blob], writers = [Synced blob 0]\<rparr>"
proof -
  have 1: "cas_step C pid excl cas_empty
      \<lparr>names = [(tmp_name pid, 0)], inodes = [[]], writers = [Writing blob 0 0]\<rparr>"
    using cas_step.create_new [of cas_empty C blob excl pid]
    by (simp add: cas_empty_def assoc_insert_def)
  have 2: "cas_step C pid excl
      \<lparr>names = [(tmp_name pid, 0)], inodes = [[]], writers = [Writing blob 0 0]\<rparr>
      \<lparr>names = [(tmp_name pid, 0)], inodes = [blob], writers = [Writing blob 0 (length blob)]\<rparr>"
    using cas_step.write_chunk [of 0 "\<lparr>names = [(tmp_name pid, 0)], inodes = [[]],
        writers = [Writing blob 0 0]\<rparr>" blob 0 0 "length blob" C pid excl]
    by (simp add: pwrite_def)
  have 3: "cas_step C pid excl
      \<lparr>names = [(tmp_name pid, 0)], inodes = [blob], writers = [Writing blob 0 (length blob)]\<rparr>
      \<lparr>names = [(tmp_name pid, 0)], inodes = [blob], writers = [Synced blob 0]\<rparr>"
    using cas_step.sync_file [of 0 "\<lparr>names = [(tmp_name pid, 0)], inodes = [blob],
        writers = [Writing blob 0 (length blob)]\<rparr>" blob 0 C pid excl] by simp
  from reach_empty [OF assms] 1 2 3 show ?thesis by (meson reachable.reach_step)
qed

text \<open>The rename publishes whatever the temporary file holds at that moment.\<close>

lemma cas_rename_step:
  assumes "crypto_ok C"
  shows "cas_step C pid excl
    \<lparr>names = [(tmp_name pid, 0)], inodes = [c], writers = Synced blob i # ws\<rparr>
    \<lparr>names = [(blob_name C blob, 0)], inodes = [c], writers = ws\<rparr>"
  using cas_step.rename_file [of 0 "\<lparr>names = [(tmp_name pid, 0)], inodes = [c],
      writers = Synced blob i # ws\<rparr>" blob i pid 0 C excl]
  by (simp add: assoc_defs)

lemma reach_published:
  assumes "crypto_ok C"
  shows "reachable (\<lambda>s. cas_init s \<and> crypto_ok C) (cas_step C pid excl)
    \<lparr>names = [(blob_name C blob, 0)], inodes = [blob], writers = []\<rparr>"
  using reach_synced [OF assms] cas_rename_step [OF assms] by (rule reachable.reach_step)

text \<open>A second put that starts before the rename truncates the first one's temporary file.\<close>

lemma reach_raced:
  assumes "crypto_ok C"
  shows "reachable (\<lambda>s. cas_init s \<and> crypto_ok C) (cas_step C pid False)
    \<lparr>names = [(blob_name C a, 0)], inodes = [[]], writers = [Writing b 0 0]\<rparr>"
proof -
  have "assoc_get [(tmp_name pid, 0::nat)] (blob_name C b) = None"
    using blob_name_not_tmp(2) [OF assms] by (simp add: assoc_get_def)
  then have "cas_step C pid False
      \<lparr>names = [(tmp_name pid, 0)], inodes = [a], writers = [Synced a 0]\<rparr>
      \<lparr>names = [(tmp_name pid, 0)], inodes = [[]], writers = [Synced a 0, Writing b 0 0]\<rparr>"
    using cas_step.create_truncate [of "\<lparr>names = [(tmp_name pid, 0)], inodes = [a],
        writers = [Synced a 0]\<rparr>" C b False pid 0] by (simp add: assoc_get_def)
  with reach_synced [OF assms] cas_rename_step [OF assms] show ?thesis
    by (meson reachable.reach_step)
qed

section \<open>Properties\<close>



text \<open>C40: The temporary name is shared by all puts of a process, so two puts that overlap can
  publish a file under a digest its bytes do not have: there is a run in which the second put
  truncates the file the first one then renames into place.\<close>

theorem cas_concurrent_puts_corrupt:
  assumes "crypto_ok C" and "blob_name C a \<noteq> blob_name C []"
  shows "\<exists>s i. reachable (\<lambda>s. cas_init s \<and> crypto_ok C) (cas_step C pid False) s \<and>
    assoc_get (names s) (blob_name C a) = Some i \<and> blob_name C (inodes s ! i) \<noteq> blob_name C a"
  using reach_raced [OF assms(1), of pid a "[]"] assms(2)
  by (intro exI [of _ "\<lparr>names = [(blob_name C a, 0)], inodes = [[]], writers = [Writing [] 0 0]\<rparr>"]
      exI [of _ 0]) (auto simp: assoc_get_def)

theorem cas_concurrent_puts_corrupt_witness:
  "\<exists>s i. reachable (\<lambda>s. cas_init s \<and> crypto_ok pad_crypto) (cas_step pad_crypto 7 False) s \<and>
    assoc_get (names s) (blob_name pad_crypto [1]) = Some i \<and>
    blob_name pad_crypto (inodes s ! i) \<noteq> blob_name pad_crypto [1]"
proof -
  have "blob_name pad_crypto [1] \<noteq> blob_name pad_crypto []"
    by code_simp
  with cas_concurrent_puts_corrupt [OF pad_crypto_ok] show ?thesis .
qed

text \<open>C24: Integrity of the cache under I/O failures. From an empty directory, after any
  sequence of puts in which any create, write, sync or rename call may have failed, a successful
  \<open>get\<close> returns bytes whose sha256 digest is the digest asked for.\<close>

theorem store_integrity:
  assumes "crypto_ok C"
    and "store_get rd (fold (\<lambda>(io, b) d. snd (store_put C io pid b d)) puts []) d = Inr b"
  shows "store_digest C b = d"
  using store_get_digest [OF store_inv_puts [OF assms(1) store_inv_empty] assms(2)] .

theorem store_integrity_witness:
  "store_digest pad_crypto [9] = ''sha256:'' @ blob_name pad_crypto [9]"
proof -
  let ?d = "''sha256:'' @ blob_name pad_crypto [9]"
  have "blob_path ?d = Inr (blob_name pad_crypto [9])"
    using blob_path_digest [OF pad_crypto_ok, of "[9]"] unfolding store_digest_name .
  then have "store_get (\<lambda>_. True)
      (fold (\<lambda>(io, b) d. snd (store_put pad_crypto io 7 b d)) [(io_success, [9])] []) ?d = Inr [9]"
    by (simp add: store_put_success [OF pad_crypto_ok] store_get_def assoc_defs)
  from store_integrity [OF pad_crypto_ok this] show ?thesis .
qed



text \<open>Compare-and-unpin. \<open>unpin\<close> reports success exactly when the key was pinned to the given
  digest; then the key is unpinned and every other pin stays, otherwise nothing changes, so a
  newer pin set by a racing redeploy survives.\<close>

theorem unpin_compare_and_clear:
  assumes "assoc_ok (pins ps)"
  shows "(fst (unpin key digest ps) \<longleftrightarrow> pin_resolve ps key = Some digest) \<and>
    (\<forall>k. pin_resolve (snd (unpin key digest ps)) k =
      (if k = key \<and> pin_resolve ps key = Some digest then None else pin_resolve ps k)) \<and>
    pin_resolve (snd (unpin key digest (pin_key key newer ps))) key =
      (if newer = digest then None else Some newer)"
  using assms by (auto simp: unpin_def pin_key_def pin_resolve_def amap.get_insert amap.get_remove amap.ok_insert)

theorem unpin_compare_and_clear_witness:
  "pin_resolve (snd (unpin ''echo'' ''old'' (pin_key ''echo'' ''new'' pin_set_default))) ''echo'' = Some ''new''"
  using unpin_compare_and_clear [of pin_set_default "''echo''" "''old''" "''new''"]
  by (simp add: pin_set_default_def)

end
