(* ===== verification/Component_Loader.thy ===== *)
theory Component_Loader
  imports Content_Store
begin

text \<open>
  Component artifacts: \<open>src/src/component/loader.rs\<close>. A \<open>Loaded\<close> artifact is a validated binary with
  its digest, size, embedded world id and export names; \<open>ensure_contract\<close> checks that it exposes
  the \<open>ember-guest\<close> handler surface.

  The validator and the component parser are the \<open>wasm-tools\<close> crate: the parameter \<open>W :: wasm_tools\<close>
  gives, for a byte string, the validation outcome and the export names (or the error text).
\<close>

record wasm_tools =
  validate_all :: "bytes \<Rightarrow> string + unit"
  component_exports :: "bytes \<Rightarrow> string + string list"

definition EMBER_WORLD :: string where
  "EMBER_WORLD = ''ember-guest''"

definition HANDLER_INTERFACE :: string where
  "HANDLER_INTERFACE = ''ember-handler''"

record loaded =
  ld_source :: string
  ld_bytes :: bytes
  ld_digest :: string
  ld_size :: u64
  ld_world_id :: "string option"
  ld_exports :: "string list"

definition loader_digest_of :: "crypto \<Rightarrow> bytes \<Rightarrow> string" where
  "loader_digest_of C bytes = ''sha256:'' @ hex_encode C (sha256 C bytes)"

text \<open>\<open>exports.iter().find_map(|e| e.strip_prefix('#'))\<close>.\<close>

fun find_world :: "string list \<Rightarrow> string option" where
  "find_world [] = None"
| "find_world (e # es) =
     (case strip_prefix ''#'' e of Some w \<Rightarrow> Some w | None \<Rightarrow> find_world es)"

definition from_bytes :: "crypto \<Rightarrow> wasm_tools \<Rightarrow> string \<Rightarrow> bytes \<Rightarrow> loaded result" where
  "from_bytes C W source bytes =
     (case validate_all W bytes of
        Inl e \<Rightarrow> Inl (Validation e)
      | Inr _ \<Rightarrow>
          (case component_exports W bytes of
             Inl e \<Rightarrow> Inl (InvalidComponent source e)
           | Inr exports \<Rightarrow>
               Inr \<lparr>ld_source = source, ld_bytes = bytes, ld_digest = loader_digest_of C bytes,
                    ld_size = of_nat (length bytes), ld_world_id = find_world exports,
                    ld_exports = exports\<rparr>))"

text \<open>\<open>read\<close> is the outcome of \<open>std::fs::read\<close> on the path.\<close>

definition from_path :: "crypto \<Rightarrow> wasm_tools \<Rightarrow> (string \<Rightarrow> io_error + bytes) \<Rightarrow> string \<Rightarrow> loaded result" where
  "from_path C W read path =
     (case read path of
        Inl e \<Rightarrow> Inl (InvalidComponent path (io_text e))
      | Inr bytes \<Rightarrow> from_bytes C W path bytes)"

definition exports_interface :: "loaded \<Rightarrow> string \<Rightarrow> bool" where
  "exports_interface l name \<longleftrightarrow> list_ex (\<lambda>e. e = name) (ld_exports l)"

definition has_world :: "loaded \<Rightarrow> string \<Rightarrow> bool" where
  "has_world l world \<longleftrightarrow> ld_world_id l = Some world"

definition contract_violations :: "string list \<Rightarrow> string option" where
  "contract_violations exports =
     (let has_world = list_ex (\<lambda>e. e = EMBER_WORLD \<or> e = ''#'' @ EMBER_WORLD) exports;
          has_interface = list_ex (\<lambda>e. e = HANDLER_INTERFACE \<or> e = ''handler'' \<or>
                                      str_contains e '':runtime/handler'') exports in
      if has_world \<or> has_interface then None
      else
        (let seen = (if exports = [] then ''no exports at all''
                     else ''only: '' @ str_join '', '' exports) in
         Some (''artifact exports '' @ seen @ ''; expected interface `'' @ HANDLER_INTERFACE
               @ ''` or world `'' @ EMBER_WORLD @ ''`'')))"

definition ensure_contract :: "loaded \<Rightarrow> unit result" where
  "ensure_contract l =
     (case contract_violations (ld_exports l) of None \<Rightarrow> Inr () | Some reason \<Rightarrow> Inl (Contract reason))"

section \<open>Facts about loaded artifacts\<close>

text \<open>What every artifact produced by the loader satisfies.\<close>

definition loaded_ok :: "crypto \<Rightarrow> loaded \<Rightarrow> bool" where
  "loaded_ok C l \<longleftrightarrow> ld_digest l = store_digest C (ld_bytes l) \<and>
     ld_size l = of_nat (length (ld_bytes l))"

lemma loader_digest_of_eq: "loader_digest_of = store_digest"
  by (simp add: loader_digest_of_def store_digest_def fun_eq_iff)

lemma from_bytes_ok_iff:
  "from_bytes C W src b = Inr l \<longleftrightarrow>
     validate_all W b = Inr () \<and>
     (\<exists>es. component_exports W b = Inr es \<and>
        l = \<lparr>ld_source = src, ld_bytes = b, ld_digest = store_digest C b,
             ld_size = of_nat (length b), ld_world_id = find_world es, ld_exports = es\<rparr>)"
  by (auto simp: from_bytes_def loader_digest_of_eq split: sum.splits)

lemma from_bytes_loaded_ok: "from_bytes C W src b = Inr l \<Longrightarrow> loaded_ok C l \<and> ld_bytes l = b"
  by (auto simp: from_bytes_ok_iff loaded_ok_def)

lemma from_bytes_error:
  "from_bytes C W src b = Inl e \<Longrightarrow> (\<exists>m. e = Validation m) \<or> (\<exists>m. e = InvalidComponent src m)"
  by (auto simp: from_bytes_def split: sum.splits)

lemma find_world_Some_iff:
  "find_world es = Some w \<longleftrightarrow>
     (\<exists>xs ys. es = xs @ (''#'' @ w) # ys \<and> (\<forall>x\<in>set xs. \<not> starts_with x ''#''))"
proof (induction es)
  case (Cons e es)
  show ?case
  proof (cases "strip_prefix ''#'' e")
    case None
    then have "\<not> starts_with e ''#''" by (simp add: starts_with_def)
    with None Cons show ?thesis
      by (auto simp: Cons_eq_append_conv starts_with_def) (metis set_ConsD)
  next
    case (Some v)
    then have "e = ''#'' @ v" "starts_with e ''#''" by (auto simp: strip_prefix_Some_iff starts_with_def)
    with Some show ?thesis by (auto simp: Cons_eq_append_conv)
  qed
qed simp

lemma contract_ok_iff:
  "contract_violations es = None \<longleftrightarrow>
     (\<exists>e\<in>set es. e = ''ember-guest'' \<or> e = ''#ember-guest'' \<or> e = ''ember-handler'' \<or>
        e = ''handler'' \<or> sublist '':runtime/handler'' e)"
  by (auto simp: contract_violations_def EMBER_WORLD_def HANDLER_INTERFACE_def list_ex_iff
      str_contains_iff Let_def)

lemma ensure_contract_ok_iff: "ensure_contract l = Inr u \<longleftrightarrow> contract_violations (ld_exports l) = None"
  by (auto simp: ensure_contract_def split: option.splits)

lemma ensure_contract_error: "ensure_contract l = Inl e \<Longrightarrow> \<exists>m. e = Contract m"
  by (auto simp: ensure_contract_def split: option.splits)

section \<open>Properties\<close>

text \<open>Which artifacts can be scheduled. An artifact is loaded and passes the contract check if and only
  if the validator accepts its bytes, its exports can be decoded, and one of them is the world
  \<open>ember-guest\<close> (plain or marked with \<open>#\<close>), the handler interface under one of its two names, or
  mentions \<open>:runtime/handler\<close>; it is then recorded under the digest of exactly these bytes.\<close>

theorem schedulable_artifacts:
  "(from_bytes C W src b = Inr l \<and> ensure_contract l = Inr ()) \<longleftrightarrow>
     validate_all W b = Inr () \<and>
     (\<exists>es. component_exports W b = Inr es \<and>
        (\<exists>e\<in>set es. e = ''ember-guest'' \<or> e = ''#ember-guest'' \<or> e = ''ember-handler'' \<or>
           e = ''handler'' \<or> sublist '':runtime/handler'' e) \<and>
        l = \<lparr>ld_source = src, ld_bytes = b, ld_digest = store_digest C b,
             ld_size = of_nat (length b), ld_world_id = find_world es, ld_exports = es\<rparr>)"
proof -
  define rec where "rec es = \<lparr>ld_source = src, ld_bytes = b, ld_digest = store_digest C b,
      ld_size = of_nat (length b), ld_world_id = find_world es, ld_exports = es\<rparr>" for es
  define ok where "ok es \<longleftrightarrow> (\<exists>e\<in>set es. e = ''ember-guest'' \<or> e = ''#ember-guest'' \<or>
      e = ''ember-handler'' \<or> e = ''handler'' \<or> sublist '':runtime/handler'' e)" for es
  have "ld_exports (rec es) = es" for es by (simp add: rec_def)
  then have "((A \<and> (\<exists>es. component_exports W b = Inr es \<and> l = rec es)) \<and> ok (ld_exports l)) \<longleftrightarrow>
      A \<and> (\<exists>es. component_exports W b = Inr es \<and> ok es \<and> l = rec es)" for A
    by metis
  then show ?thesis
    unfolding from_bytes_ok_iff ensure_contract_ok_iff contract_ok_iff ok_def rec_def .
qed

end
