(* ===== verification/Oci_Registry.thy ===== *)
theory Oci_Registry
  imports Component_Loader
begin

text \<open>
  Module distribution: the OCI client of \<open>src/src/registry/oci.rs\<close> and the registry facade of
  \<open>src/src/registry.rs\<close>.

  The distribution protocol itself is the crate \<open>oci-distribution\<close>: the parameter \<open>R :: 'r oci_remote\<close>
  gives the reference parser, the manifest pull (a manifest is the list of its layers' digests) and
  the blob pull, each with its error text. The registry may answer anything. The store directory
  is passed through; a fetch environment \<open>E\<close> bundles the parameters with the outcome of the local I/O.
\<close>

record oci_client_config =
  oc_endpoint :: string
  oc_insecure :: bool
  oc_cache_dir :: string
  oc_manifest_cache_ttl :: duration

definition oci_client_config_default :: oci_client_config where
  "oci_client_config_default =
     \<lparr>oc_endpoint = ''ghcr.io'', oc_insecure = False, oc_cache_dir = ''registry-cache'',
      oc_manifest_cache_ttl = from_secs 60\<rparr>"

datatype client_protocol = ProtoHttp | ProtoHttps

datatype registry_auth = Anonymous | Basic string string

record oci_client =
  cl_protocol :: client_protocol
  cl_auth :: registry_auth
  cl_config :: oci_client_config

text \<open>\<open>user\<close> and \<open>password\<close> are the two environment variables, \<open>mkdir\<close> the outcome of creating the
  cache directory.\<close>

definition oci_client_new ::
  "oci_client_config \<Rightarrow> string option \<Rightarrow> string option \<Rightarrow> io_error option \<Rightarrow> dir \<Rightarrow> (oci_client \<times> dir) result"
where
  "oci_client_new config user password mkdir existing =
     (let protocol = (if oc_insecure config then ProtoHttp else ProtoHttps);
          auth = (case (user, password) of (Some u, Some p) \<Rightarrow> Basic u p | _ \<Rightarrow> Anonymous) in
      case store_open mkdir existing of
        Inl e \<Rightarrow> Inl e
      | Inr store \<Rightarrow> Inr (\<lparr>cl_protocol = protocol, cl_auth = auth, cl_config = config\<rparr>, store))"

record 'r oci_remote =
  ref_try_from :: "string \<Rightarrow> string + 'r"
  ref_display :: "'r \<Rightarrow> string"
  remote_manifest :: "registry_auth \<Rightarrow> 'r \<Rightarrow> string + string list"
  remote_blob :: "registry_auth \<Rightarrow> 'r \<Rightarrow> string \<Rightarrow> string + bytes"

record 'r fetch_env =
  fe_crypto :: crypto
  fe_wasm :: wasm_tools
  fe_remote :: "'r oci_remote"
  fe_put_io :: put_io
  fe_readable :: "string \<Rightarrow> bool"
  fe_pid :: nat

definition oci_resolve :: "'r oci_remote \<Rightarrow> oci_client \<Rightarrow> string \<Rightarrow> 'r result" where
  "oci_resolve R client reference =
     (let qualified = (if CHR ''/'' \<in> set reference then reference
                       else oc_endpoint (cl_config client) @ ''/'' @ reference) in
      map_err (\<lambda>e. Oci (''invalid reference `'' @ reference @ ''`: '' @ e)) (ref_try_from R qualified))"

definition oci_pull_manifest :: "'r oci_remote \<Rightarrow> oci_client \<Rightarrow> 'r \<Rightarrow> string list result" where
  "oci_pull_manifest R client reference =
     map_err (\<lambda>e. Oci (''pull manifest `'' @ ref_display R reference @ ''`: '' @ e))
       (remote_manifest R (cl_auth client) reference)"

definition oci_digest_of :: "crypto \<Rightarrow> bytes \<Rightarrow> string" where
  "oci_digest_of C bytes = ''sha256:'' @ hex_encode C (sha256 C bytes)"

definition verify_digest :: "crypto \<Rightarrow> bytes \<Rightarrow> string \<Rightarrow> unit result" where
  "verify_digest C bytes expected =
     (let computed = oci_digest_of C bytes in
      if computed \<noteq> expected then Inl (DigestMismatch expected computed) else Inr ())"

definition parse_digest :: "string \<Rightarrow> unit result" where
  "parse_digest s =
     (case strip_prefix ''sha256:'' s of
        None \<Rightarrow> Inl (Config (''digest `'' @ s @ ''` must use the sha256 scheme''))
      | Some hex \<Rightarrow>
          if length hex \<noteq> 64 \<or> \<not> list_all is_ascii_hexdigit hex then
            Inl (Config (''malformed sha256 digest `'' @ s @ ''`''))
          else Inr ())"

text \<open>The tail of \<open>fetch_component\<close>: read the blob from the store and load it.\<close>

definition load_cached :: "'r fetch_env \<Rightarrow> string \<Rightarrow> string \<Rightarrow> dir \<Rightarrow> loaded result" where
  "load_cached E reference digest dir =
     (case store_get (fe_readable E) dir digest of
        Inl e \<Rightarrow> Inl e
      | Inr bytes \<Rightarrow>
          (case from_bytes (fe_crypto E) (fe_wasm E) reference bytes of
             Inl e \<Rightarrow> Inl e
           | Inr l \<Rightarrow> Inr (l\<lparr>ld_digest := digest\<rparr>)))"

definition fetch_component :: "'r fetch_env \<Rightarrow> oci_client \<Rightarrow> string \<Rightarrow> dir \<Rightarrow> loaded result \<times> dir" where
  "fetch_component E client reference dir =
     (case oci_resolve (fe_remote E) client reference of
        Inl e \<Rightarrow> (Inl e, dir)
      | Inr resolved \<Rightarrow>
          (case oci_pull_manifest (fe_remote E) client resolved of
             Inl e \<Rightarrow> (Inl e, dir)
           | Inr [] \<Rightarrow> (Inl (Oci (''manifest for `'' @ reference @ ''` has no layers'')), dir)
           | Inr (digest # _) \<Rightarrow>
               if \<not> store_contains dir digest then
                 (case remote_blob (fe_remote E) (cl_auth client) resolved digest of
                    Inl e \<Rightarrow> (Inl (Oci (''pull blob '' @ digest @ '': '' @ e)), dir)
                  | Inr blob \<Rightarrow>
                      (case verify_digest (fe_crypto E) blob digest of
                         Inl e \<Rightarrow> (Inl e, dir)
                       | Inr _ \<Rightarrow>
                           (case store_put (fe_crypto E) (fe_put_io E) (fe_pid E) blob dir of
                              (Inl e, dir') \<Rightarrow> (Inl e, dir')
                            | (Inr _, dir') \<Rightarrow> (load_cached E reference digest dir', dir'))))
               else (load_cached E reference digest dir, dir)))"

section \<open>The registry facade\<close>

record registry =
  reg_oci :: oci_client
  reg_policy :: hot_reload_policy

definition registry_new ::
  "oci_client_config \<Rightarrow> hot_reload_policy \<Rightarrow> string option \<Rightarrow> string option \<Rightarrow> io_error option \<Rightarrow> dir \<Rightarrow>
     (registry \<times> dir) result"
where
  "registry_new config policy user password mkdir existing =
     (case oci_client_new config user password mkdir existing of
        Inl e \<Rightarrow> Inl e
      | Inr (oci, store) \<Rightarrow> Inr (\<lparr>reg_oci = oci, reg_policy = policy\<rparr>, store))"

definition registry_pull ::
  "'r fetch_env \<Rightarrow> registry \<Rightarrow> string \<Rightarrow> string option \<Rightarrow> dir \<Rightarrow> loaded result \<times> dir"
where
  "registry_pull E reg reference pin dir =
     (case fetch_component E (reg_oci reg) reference dir of
        (Inl e, dir') \<Rightarrow> (Inl e, dir')
      | (Inr l, dir') \<Rightarrow>
          (case pin of
             None \<Rightarrow> (Inr l, dir')
           | Some p \<Rightarrow>
               (case verify_digest (fe_crypto E) (ld_bytes l) p of
                  Inl e \<Rightarrow> (Inl e, dir')
                | Inr _ \<Rightarrow> (Inr (l\<lparr>ld_digest := p\<rparr>), dir'))))"

section \<open>Digest checks\<close>

lemma oci_digest_of_eq: "oci_digest_of = store_digest"
  by (simp add: oci_digest_of_def store_digest_def fun_eq_iff)

lemma verify_digest_ok_iff: "verify_digest C b d = Inr u \<longleftrightarrow> store_digest C b = d"
  by (auto simp: verify_digest_def oci_digest_of_eq Let_def)

lemma verify_digest_error_iff:
  "verify_digest C b d = Inl e \<longleftrightarrow> store_digest C b \<noteq> d \<and> e = DigestMismatch d (store_digest C b)"
  by (auto simp: verify_digest_def oci_digest_of_eq Let_def)

lemma parse_digest_ok_iff:
  "parse_digest s = Inr u \<longleftrightarrow>
     (\<exists>h. s = ''sha256:'' @ h \<and> length h = 64 \<and> list_all is_ascii_hexdigit h)"
  by (auto simp: parse_digest_def strip_prefix_Some_iff simp del: append.simps
      split: option.splits if_splits)

lemma parse_digest_error: "parse_digest s = Inl e \<Longrightarrow> \<exists>m. e = Config m"
  by (auto simp: parse_digest_def split: option.splits if_splits)

lemma store_digest_lower:
  "crypto_ok C \<Longrightarrow> store_digest C b = ''sha256:'' @ h \<Longrightarrow> list_all is_lower_hex h"
  using crypto_okD(2) [of C b] by (simp add: store_digest_name)

section \<open>Fetching\<close>

text \<open>Everything a fetch may do to the store is one put.\<close>

lemma fetch_dir:
  "snd (fetch_component E client reference dir) = dir \<or>
   (\<exists>blob. snd (fetch_component E client reference dir) =
      snd (store_put (fe_crypto E) (fe_put_io E) (fe_pid E) blob dir))"
  by (auto simp: fetch_component_def split: sum.split list.split prod.split) (metis snd_conv)+

lemma fetch_inv:
  assumes "crypto_ok (fe_crypto E)" "store_inv (fe_crypto E) dir"
  shows "store_inv (fe_crypto E) (snd (fetch_component E client reference dir))"
  using fetch_dir [of E client reference dir] assms store_inv_put by fastforce

lemma load_cached_ok:
  assumes "store_inv (fe_crypto E) dir" "load_cached E reference digest dir = Inr l"
  shows "loaded_ok (fe_crypto E) l \<and> ld_digest l = digest \<and> ld_source l = reference"
  using assms store_get_digest [OF assms(1)]
  by (auto simp: load_cached_def loaded_ok_def from_bytes_ok_iff split: sum.splits)

text \<open>Only the blob pull looks at the registry's blobs.\<close>

lemma blob_endpoint_unused [simp]:
  "load_cached (E\<lparr>fe_remote := R\<rparr>) reference digest dir = load_cached E reference digest dir"
  "oci_resolve (R\<lparr>remote_blob := any\<rparr>) client reference = oci_resolve R client reference"
  "oci_pull_manifest (R\<lparr>remote_blob := any\<rparr>) client r = oci_pull_manifest R client r"
  by (simp_all add: load_cached_def oci_resolve_def oci_pull_manifest_def split: sum.split)

lemma fetch_ok_cached:
  "fetch_component E client reference dir = (Inr l, dir') \<Longrightarrow>
     \<exists>digest. load_cached E reference digest dir' = Inr l"
  by (auto simp: fetch_component_def split: sum.splits list.splits prod.splits if_splits)

lemma fetch_ok:
  assumes "crypto_ok (fe_crypto E)" "store_inv (fe_crypto E) dir"
    and "fetch_component E client reference dir = (Inr l, dir')"
  shows "loaded_ok (fe_crypto E) l" "ld_source l = reference" "store_inv (fe_crypto E) dir'"
proof -
  show inv: "store_inv (fe_crypto E) dir'"
    using fetch_inv [OF assms(1,2), of client reference] assms(3) by simp
  from fetch_ok_cached [OF assms(3)] load_cached_ok [OF inv]
  show "loaded_ok (fe_crypto E) l" "ld_source l = reference" by blast+
qed

section \<open>The component-source interface\<close>

text \<open>
  What the runtime relies on when it pulls a component: the artifact's digest is that of its bytes,
  a pinned pull yields the pin, and the pull keeps the local store sound.
\<close>

locale component_source =
  fixes pull :: "string \<Rightarrow> string option \<Rightarrow> 's \<Rightarrow> loaded result \<times> 's"
    and digest :: "bytes \<Rightarrow> string"
    and inv :: "'s \<Rightarrow> bool"
  assumes pull_inv: "inv s \<Longrightarrow> inv (snd (pull reference p s))"
    and pull_digest: "inv s \<Longrightarrow> pull reference p s = (Inr l, s') \<Longrightarrow> ld_digest l = digest (ld_bytes l)"
    and pull_pin: "pull reference (Some d) s = (Inr l, s') \<Longrightarrow> ld_digest l = d"
begin

lemma pull_pinned_bytes:
  "inv s \<Longrightarrow> pull reference (Some d) s = (Inr l, s') \<Longrightarrow> digest (ld_bytes l) = d"
  using pull_digest pull_pin by metis

text \<open>Two pulls under one pin yield bytes of one digest, whatever the registry did in between.\<close>

lemma pull_pinned_reproducible:
  "inv s \<Longrightarrow> inv t \<Longrightarrow> pull reference (Some d) s = (Inr l, s') \<Longrightarrow> pull reference' (Some d) t = (Inr l', t') \<Longrightarrow>
     digest (ld_bytes l) = digest (ld_bytes l')"
  using pull_pinned_bytes by metis

end

lemma registry_pull_pin:
  "registry_pull E reg reference (Some d) dir = (Inr l, dir') \<Longrightarrow>
     ld_digest l = d \<and> store_digest (fe_crypto E) (ld_bytes l) = d"
  by (auto simp: registry_pull_def verify_digest_ok_iff split: prod.splits sum.splits)

lemma registry_pull_dir:
  "snd (registry_pull E reg reference p dir) = snd (fetch_component E (reg_oci reg) reference dir)"
  by (auto simp: registry_pull_def split: prod.split sum.split option.split)

lemma registry_pull_ok:
  assumes "crypto_ok (fe_crypto E)" "store_inv (fe_crypto E) dir"
    and "registry_pull E reg reference p dir = (Inr l, dir')"
  shows "loaded_ok (fe_crypto E) l"
proof -
  from assms(3) obtain l0 where f: "fetch_component E (reg_oci reg) reference dir = (Inr l0, dir')"
    and l: "l = (case p of None \<Rightarrow> l0 | Some d \<Rightarrow> l0\<lparr>ld_digest := d\<rparr>)"
    by (auto simp: registry_pull_def split: prod.splits sum.splits option.splits)
  with fetch_ok(1) [OF assms(1,2) f] registry_pull_pin assms(3) show ?thesis
    by (cases p) (fastforce simp: loaded_ok_def)+
qed

interpretation registry_source: component_source "registry_pull E reg" "store_digest (fe_crypto E)"
    "\<lambda>dir. crypto_ok (fe_crypto E) \<and> store_inv (fe_crypto E) dir" for E reg
proof (unfold_locales, goal_cases)
  case (1 dir reference p)
  then show ?case by (simp add: registry_pull_dir fetch_inv)
next
  case (2 dir reference p l dir')
  then show ?case using registry_pull_ok [of E dir reg reference p l dir'] by (simp add: loaded_ok_def)
next
  case (3 reference d dir l dir')
  then show ?case using registry_pull_pin by blast
qed

text \<open>A registry that serves one artifact under every reference, for concrete runs.\<close>

definition serve_blob :: "string \<Rightarrow> bytes \<Rightarrow> string oci_remote" where
  "serve_blob digest blob =
     \<lparr>ref_try_from = Inr, ref_display = (\<lambda>r. r), remote_manifest = (\<lambda>_ _. Inr [digest]),
      remote_blob = (\<lambda>_ _ _. Inr blob)\<rparr>"

definition handler_wasm :: wasm_tools where
  "handler_wasm = \<lparr>validate_all = (\<lambda>_. Inr ()), component_exports = (\<lambda>_. Inr [''handler''])\<rparr>"

definition serve_env :: "string \<Rightarrow> bytes \<Rightarrow> string fetch_env" where
  "serve_env digest blob =
     \<lparr>fe_crypto = pad_crypto, fe_wasm = handler_wasm, fe_remote = serve_blob digest blob,
      fe_put_io = io_success, fe_readable = (\<lambda>_. True), fe_pid = 7\<rparr>"

definition demo_client :: oci_client where
  "demo_client = \<lparr>cl_protocol = ProtoHttps, cl_auth = Anonymous, cl_config = oci_client_config_default\<rparr>"

definition demo_registry :: registry where
  "demo_registry = \<lparr>reg_oci = demo_client, reg_policy = hot_reload_policy_default\<rparr>"

definition demo_loaded :: "string \<Rightarrow> bytes \<Rightarrow> loaded" where
  "demo_loaded reference blob =
     \<lparr>ld_source = reference, ld_bytes = blob, ld_digest = store_digest pad_crypto blob,
      ld_size = of_nat (length blob), ld_world_id = None, ld_exports = [''handler'']\<rparr>"

lemma demo_fetch:
  "\<exists>dir'. fetch_component (serve_env (store_digest pad_crypto blob) blob) client reference [] =
     (Inr (demo_loaded reference blob), dir')"
  using blob_path_digest [OF pad_crypto_ok, of blob]
  by (auto simp: fetch_component_def serve_env_def serve_blob_def oci_resolve_def oci_pull_manifest_def
      store_contains_def verify_digest_def oci_digest_of_eq Let_def store_put_success [OF pad_crypto_ok]
      load_cached_def store_get_def amap.get_insert amap.ok_insert amap.ok_remove from_bytes_def
      handler_wasm_def loader_digest_of_eq demo_loaded_def)

lemma demo_pull:
  "\<exists>dir'. registry_pull (serve_env (store_digest pad_crypto blob) blob) demo_registry reference
     (Some (store_digest pad_crypto blob)) [] = (Inr (demo_loaded reference blob), dir')"
  using demo_fetch [of blob demo_client reference]
  by (auto simp: registry_pull_def demo_registry_def verify_digest_def oci_digest_of_eq demo_loaded_def
      serve_env_def)

section \<open>Properties\<close>



text \<open>A tampered blob never enters the store. When the registry serves bytes whose sha256 is not
  the layer digest of its own manifest, the fetch fails with \<open>DigestMismatch\<close> naming both digests
  and the store directory is unchanged.\<close>

theorem fetch_rejects_tampered_blob:
  assumes "oci_resolve (fe_remote E) client reference = Inr r"
    and "remote_manifest (fe_remote E) (cl_auth client) r = Inr (digest # ds)"
    and "\<not> store_contains dir digest"
    and "remote_blob (fe_remote E) (cl_auth client) r digest = Inr blob"
    and "store_digest (fe_crypto E) blob \<noteq> digest"
  shows "fetch_component E client reference dir =
    (Inl (DigestMismatch digest (store_digest (fe_crypto E) blob)), dir)"
  using assms by (simp add: fetch_component_def oci_pull_manifest_def verify_digest_def oci_digest_of_eq Let_def)

theorem fetch_rejects_tampered_blob_witness:
  "fetch_component (serve_env ''sha256:00'' [3]) demo_client ''echo'' [] =
     (Inl (DigestMismatch ''sha256:00'' (store_digest pad_crypto [3])), [])"
proof -
  have "store_digest pad_crypto [3] \<noteq> ''sha256:00''" by code_simp
  moreover have "\<not> store_contains [] ''sha256:00''"
    by (simp add: store_contains_def split: sum.split)
  ultimately show ?thesis
    using fetch_rejects_tampered_blob [of "serve_env ''sha256:00'' [3]" demo_client "''echo''" "''ghcr.io/echo''"
        "''sha256:00''" "[]" "[]" "[3]"]
    by (simp add: serve_env_def serve_blob_def oci_resolve_def demo_client_def oci_client_config_default_def Let_def)
qed

text \<open>The cache makes the blob endpoint unnecessary. When the digest in the manifest is already
  stored, the fetch neither asks the registry for the blob (its answer does not matter) nor
  changes the store.\<close>

theorem fetch_uses_cache:
  assumes "oci_resolve (fe_remote E) client reference = Inr r"
    and "remote_manifest (fe_remote E) (cl_auth client) r = Inr (digest # ds)"
    and "store_contains dir digest"
  shows "fetch_component (E\<lparr>fe_remote := (fe_remote E)\<lparr>remote_blob := any\<rparr>\<rparr>) client reference dir =
    (load_cached E reference digest dir, dir)"
  using assms by (simp add: fetch_component_def) (simp add: oci_pull_manifest_def)

theorem fetch_uses_cache_witness:
  "fetch_component ((serve_env (store_digest pad_crypto [3]) [3])
      \<lparr>fe_remote := (serve_blob (store_digest pad_crypto [3]) [3])\<lparr>remote_blob := \<lambda>_ _ _. Inl ''offline''\<rparr>\<rparr>)
     demo_client ''echo'' [(blob_name pad_crypto [3], [3])] =
   (load_cached (serve_env (store_digest pad_crypto [3]) [3]) ''echo'' (store_digest pad_crypto [3])
      [(blob_name pad_crypto [3], [3])], [(blob_name pad_crypto [3], [3])])"
proof -
  have "store_contains [(blob_name pad_crypto [3], [3])] (store_digest pad_crypto [3])"
    by (simp add: store_contains_def blob_path_digest [OF pad_crypto_ok] assoc_get_def)
  then show ?thesis
    using fetch_uses_cache [of "serve_env (store_digest pad_crypto [3]) [3]" demo_client "''echo''" "''ghcr.io/echo''"]
    by (simp add: serve_env_def serve_blob_def oci_resolve_def demo_client_def oci_client_config_default_def Let_def)
qed

text \<open>C17: Pins decide. A pull with a pin either fails or yields an artifact that carries the pin as
  its digest and whose bytes hash to the pin, with no assumption on the registry or the store.\<close>

theorem pinned_pull_yields_pin:
  assumes "registry_pull E reg reference (Some d) dir = (Inr l, dir')"
  shows "ld_digest l = d \<and> store_digest (fe_crypto E) (ld_bytes l) = d"
  using registry_pull_pin [OF assms] .

theorem pinned_pull_yields_pin_witness:
  "ld_digest (demo_loaded ''echo'' [3]) = store_digest pad_crypto [3]"
proof -
  let ?E = "serve_env (store_digest pad_crypto [3]) [3]"
  obtain dir' where "registry_pull ?E demo_registry ''echo'' (Some (store_digest pad_crypto [3])) [] =
      (Inr (demo_loaded ''echo'' [3]), dir')" using demo_pull by blast
  from pinned_pull_yields_pin [OF this] show ?thesis by blast
qed

text \<open>An upper-case pin can never be met. \<open>parse_digest\<close> accepts upper-case hex digits, so such a
  pin passes configuration checks, but computed digests are lower case: every pull under it
  fails.\<close>

theorem uppercase_pin_unsatisfiable:
  assumes "crypto_ok (fe_crypto E)" and "length h = 64" and "list_all is_ascii_hexdigit h"
    and "c \<in> set h" and "is_ascii_uppercase c"
  shows "parse_digest (''sha256:'' @ h) = Inr () \<and>
    \<not> is_ok (fst (registry_pull E reg reference (Some (''sha256:'' @ h)) dir))"
proof -
  have "parse_digest (''sha256:'' @ h) = Inr ()" using assms(2,3) parse_digest_ok_iff by blast
  moreover have "fst (registry_pull E reg reference (Some (''sha256:'' @ h)) dir) \<noteq> Inr l" for l
  proof
    assume "fst (registry_pull E reg reference (Some (''sha256:'' @ h)) dir) = Inr l"
    then have "store_digest (fe_crypto E) (ld_bytes l) = ''sha256:'' @ h"
      using registry_pull_pin by (metis prod.collapse)
    then have "is_lower_hex c"
      using store_digest_lower [OF assms(1)] assms(4) by (metis list_all_iff)
    with assms(5) show False
      by (auto simp: is_lower_hex_def is_ascii_digit_def is_ascii_uppercase_def)
  qed
  ultimately show ?thesis by (auto simp: is_ok_def split: sum.split)
qed

theorem uppercase_pin_unsatisfiable_witness:
  "parse_digest (''sha256:'' @ replicate 64 (CHR ''A'')) = Inr () \<and>
   \<not> is_ok (fst (registry_pull (serve_env ''x'' [3]) demo_registry ''echo''
        (Some (''sha256:'' @ replicate 64 (CHR ''A''))) []))"
  by (rule uppercase_pin_unsatisfiable [where c = "CHR ''A''"])
    (simp_all add: serve_env_def pad_crypto_ok byte_simps list_all_iff)

end
