(* ===== verification/Socket_Addr.thy ===== *)
theory Socket_Addr
  imports Ember_Prelude
begin

text \<open>
  The textual socket addresses of the standard library that \<open>src/src/config.rs\<close> and
  \<open>src/src/main.rs\<close> parse (\<open>str::parse::<SocketAddr>\<close>): a recursive-descent parser in which a
  reader returns the rest of the input, and failing readers consume nothing. An IPv4 octet has
  one to three digits and no leading zero; an IPv6 group has one to four hexadecimal digits; a
  port is any run of digits below \<open>2^16\<close>.
\<close>

datatype socket_addr =
    SocketAddrV4 "u8 list" u16
  | SocketAddrV6 "u16 list" u32 u16

definition hex_digit_value :: "char \<Rightarrow> int" where
  "hex_digit_value c =
     (if is_ascii_digit c then of_char c - 48
      else if is_ascii_lowercase c then of_char c - 87 else of_char c - 55)"

definition radix_digit :: "int \<Rightarrow> char \<Rightarrow> bool" where
  "radix_digit radix c \<longleftrightarrow> (if radix = 16 then is_ascii_hexdigit c else is_ascii_digit c)"

fun radix_value :: "int \<Rightarrow> int \<Rightarrow> string \<Rightarrow> int" where
  "radix_value radix acc [] = acc"
| "radix_value radix acc (c # s) = radix_value radix (radix * acc + hex_digit_value c) s"

text \<open>\<open>Parser::read_number\<close>: radix, most digits, whether a leading zero may be followed by more
  digits, and the number of values of the target type. The value of the digits
  is an unbounded integer: with the digit limits used here the \<open>u32\<close> of the source never wraps, and
  without a limit every overflow is refused.\<close>

definition read_number :: "int \<Rightarrow> nat option \<Rightarrow> bool \<Rightarrow> int \<Rightarrow> string \<Rightarrow> (int \<times> string) option" where
  "read_number radix max_digits zero_prefix bound s =
     (let ds = takeWhile (radix_digit radix) s; rest = dropWhile (radix_digit radix) s in
      if ds = [] \<or> (case max_digits of None \<Rightarrow> False | Some m \<Rightarrow> m < length ds) then None
      else if \<not> zero_prefix \<and> hd ds = CHR ''0'' \<and> 1 < length ds then None
      else if radix_value radix 0 ds < bound then Some (radix_value radix 0 ds, rest) else None)"

fun read_given_char :: "char \<Rightarrow> string \<Rightarrow> string option" where
  "read_given_char c [] = None"
| "read_given_char c (d # s) = (if c = d then Some s else None)"

text \<open>\<open>Parser::read_separator\<close>: a separator before every element but the first.\<close>

definition read_separator ::
  "char \<Rightarrow> nat \<Rightarrow> (string \<Rightarrow> ('a \<times> string) option) \<Rightarrow> string \<Rightarrow> ('a \<times> string) option" where
  "read_separator sep i reader s =
     (if i = 0 then reader s else Option.bind (read_given_char sep s) reader)"

definition read_octet :: "string \<Rightarrow> (int \<times> string) option" where
  "read_octet = read_number 10 (Some 3) False 256"

definition read_ipv4_addr :: "string \<Rightarrow> (u8 list \<times> string) option" where
  "read_ipv4_addr s =
     Option.bind (read_separator (CHR ''.'') 0 read_octet s) (\<lambda>(a, s1).
     Option.bind (read_separator (CHR ''.'') 1 read_octet s1) (\<lambda>(b, s2).
     Option.bind (read_separator (CHR ''.'') 2 read_octet s2) (\<lambda>(c, s3).
     Option.bind (read_separator (CHR ''.'') 3 read_octet s3) (\<lambda>(d, s4).
     Some ([of_int a, of_int b, of_int c, of_int d], s4)))))"

definition ipv4_groups :: "u8 list \<Rightarrow> u16 list" where
  "ipv4_groups o4 =
     [of_int (uint (o4 ! 0) * 256 + uint (o4 ! 1)), of_int (uint (o4 ! 2) * 256 + uint (o4 ! 3))]"

text \<open>\<open>read_groups\<close> of the IPv6 reader: up to \<open>limit\<close> groups, the last two possibly written as
  an IPv4 address, which is reported and ends the groups.\<close>

function read_groups :: "nat \<Rightarrow> nat \<Rightarrow> string \<Rightarrow> u16 list \<times> bool \<times> string" where
  "read_groups i limit s =
     (if limit \<le> i then ([], False, s)
      else
        (case (if i < limit - 1 then read_separator (CHR '':'') i read_ipv4_addr s else None) of
           Some (o4, s') \<Rightarrow> (ipv4_groups o4, True, s')
         | None \<Rightarrow>
             (case read_separator (CHR '':'') i (read_number 16 (Some 4) True 65536) s of
                None \<Rightarrow> ([], False, s)
              | Some (g, s') \<Rightarrow>
                  (let (gs, v4, s'') = read_groups (Suc i) limit s' in (of_int g # gs, v4, s'')))))"
  by pat_completeness auto
termination
  by (relation "measure (\<lambda>(i, limit, _). limit - i)") auto

declare read_groups.simps [simp del]

definition read_ipv6_addr :: "string \<Rightarrow> (u16 list \<times> string) option" where
  "read_ipv6_addr s =
     (let (head, head_ipv4, s1) = read_groups 0 8 s in
      if length head = 8 then Some (head, s1)
      else if head_ipv4 then None
      else
        Option.bind (read_given_char (CHR '':'') s1) (\<lambda>s2.
        Option.bind (read_given_char (CHR '':'') s2) (\<lambda>s3.
          let (tail, _, s4) = read_groups 0 (8 - (length head + 1)) s3 in
          Some (head @ replicate (8 - length head - length tail) 0 @ tail, s4))))"

definition read_port :: "string \<Rightarrow> (u16 \<times> string) option" where
  "read_port s =
     Option.bind (read_given_char (CHR '':'') s) (\<lambda>s1.
     map_option (apfst of_int) (read_number 10 None True 65536 s1))"

definition read_scope_id :: "string \<Rightarrow> (u32 \<times> string) option" where
  "read_scope_id s =
     Option.bind (read_given_char (CHR ''%'') s) (\<lambda>s1.
     map_option (apfst of_int) (read_number 10 None True 4294967296 s1))"

definition read_socket_addr_v4 :: "string \<Rightarrow> (socket_addr \<times> string) option" where
  "read_socket_addr_v4 s =
     Option.bind (read_ipv4_addr s) (\<lambda>(ip, s1).
     Option.bind (read_port s1) (\<lambda>(port, s2). Some (SocketAddrV4 ip port, s2)))"

definition read_socket_addr_v6 :: "string \<Rightarrow> (socket_addr \<times> string) option" where
  "read_socket_addr_v6 s =
     Option.bind (read_given_char (CHR ''['') s) (\<lambda>s1.
     Option.bind (read_ipv6_addr s1) (\<lambda>(ip, s2).
       let (scope_id, s3) = (case read_scope_id s2 of Some r \<Rightarrow> r | None \<Rightarrow> (0, s2)) in
       Option.bind (read_given_char (CHR '']'') s3) (\<lambda>s4.
       Option.bind (read_port s4) (\<lambda>(port, s5). Some (SocketAddrV6 ip scope_id port, s5)))))"

definition parse_socket_addr :: "string \<Rightarrow> socket_addr option" where
  "parse_socket_addr s =
     (case (case read_socket_addr_v4 s of Some r \<Rightarrow> Some r | None \<Rightarrow> read_socket_addr_v6 s) of
        Some (addr, []) \<Rightarrow> Some addr
      | _ \<Rightarrow> None)"

lemma parse_socket_addr_examples:
  "parse_socket_addr ''127.0.0.1:8080'' = Some (SocketAddrV4 [127, 0, 0, 1] 8080)"
  "parse_socket_addr ''[2001:db8::8.8.4.4%7]:65535'' =
     Some (SocketAddrV6 [0x2001, 0xdb8, 0, 0, 0, 0, 0x808, 0x404] 7 65535)"
  "parse_socket_addr ''127.0.0.01:80'' = None"
  "parse_socket_addr ''0.0.0.0:65536'' = None"
  by code_simp+

end
