(* ===== verification/Ember_Config.thy ===== *)
theory Ember_Config
  imports Sandbox Oci_Registry Socket_Addr
begin

text \<open>
  The configuration of \<open>src/src/config.rs\<close>: its records with their defaults, human-readable
  memory sizes, environment overrides, eager validation with clamping, and \<open>Config::load\<close>.

  Reading a file, the environment and \<open>toml::from_str\<close> are arguments of \<open>config_load\<close>, the last a
  function from text to a configuration or an error text, about which nothing is assumed here
  (\<open>Config_Decode\<close> has it down to the TOML parser). The two field decoders the source writes
  itself, \<open>deserialize_memory\<close> and \<open>serde_millis\<close>, are modelled on the decoded scalar.

  The lemmas characterise the accepted sizes exactly, show that a validated configuration has
  valid tenant names, references and pins and limits inside the engine budget, and that
  validation is idempotent.
\<close>

section \<open>Data\<close>

datatype component_source =
    SourceOci (src_reference: string) (src_pin: "string option")
  | SourceFile (src_path: string)

record tenant_config =
  tc_name :: string
  tc_component :: component_source
  tc_limits :: sandbox_limits
  tc_config :: "(string, string) assoc"

record engine_config =
  eng_max_memory_bytes :: usize
  eng_max_instances :: usize
  eng_threads :: usize
  eng_epoch_interval_ms :: u64

definition engine_config_default :: engine_config where
  "engine_config_default =
     \<lparr>eng_max_memory_bytes = 1024 * 1024 * 1024, eng_max_instances = 64, eng_threads = 4,
      eng_epoch_interval_ms = 100\<rparr>"

definition clamp_tenants :: "engine_config \<Rightarrow> tenant_config list \<Rightarrow> tenant_config list" where
  "clamp_tenants e tenants =
     map (\<lambda>t. t\<lparr>tc_limits := clamp_to (eng_max_memory_bytes e) (eng_max_instances e) (tc_limits t)\<rparr>)
       tenants"

record registry_config =
  rc_endpoint :: string
  rc_insecure :: bool
  rc_pull_interval_secs :: u64
  rc_cache_dir :: string

definition registry_config_default :: registry_config where
  "registry_config_default =
     \<lparr>rc_endpoint = ''ghcr.io'', rc_insecure = False, rc_pull_interval_secs = 30,
      rc_cache_dir = ''registry-cache''\<rparr>"

definition pull_interval :: "registry_config \<Rightarrow> duration" where
  "pull_interval r = from_secs (max (rc_pull_interval_secs r) 1)"

record http_config =
  hc_timeout_secs :: u64
  hc_concurrency :: usize
  hc_max_body_bytes :: usize
  hc_request_id_header :: string

definition http_config_default :: http_config where
  "http_config_default =
     \<lparr>hc_timeout_secs = 30, hc_concurrency = 512, hc_max_body_bytes = 8 * 1024 * 1024,
      hc_request_id_header = ''x-request-id''\<rparr>"

definition http_timeout :: "http_config \<Rightarrow> duration" where
  "http_timeout h = from_secs (max (hc_timeout_secs h) 1)"

record config =
  cfg_bind :: socket_addr
  cfg_tenants :: "tenant_config list"
  cfg_engine :: engine_config
  cfg_registry :: registry_config
  cfg_http :: http_config

text \<open>The \<open>expect\<close> on the static address: the parse succeeds (lemma \<open>default_bind_parses\<close>).\<close>

definition default_bind :: socket_addr where
  "default_bind = the (parse_socket_addr ''127.0.0.1:8080'')"

definition config_default :: config where
  "config_default =
     \<lparr>cfg_bind = default_bind, cfg_tenants = [], cfg_engine = engine_config_default,
      cfg_registry = registry_config_default, cfg_http = http_config_default\<rparr>"

section \<open>Memory sizes\<close>

fun unit_multiplier :: "string \<Rightarrow> usize option" where
  "unit_multiplier u =
     (if u = '''' then Some 1
      else if u = ''k'' \<or> u = ''kb'' \<or> u = ''kib'' then Some 1024
      else if u = ''m'' \<or> u = ''mb'' \<or> u = ''mib'' then Some (1024 * 1024)
      else if u = ''g'' \<or> u = ''gb'' \<or> u = ''gib'' then Some (1024 * 1024 * 1024)
      else None)"

declare unit_multiplier.simps [simp del]

definition parse_memory :: "string \<Rightarrow> usize result" where
  "parse_memory sz =
     (let s = trim sz in
      if s = [] then Inl (Config ''empty memory size'')
      else
        (let digits = takeWhile is_ascii_digit s; suffix = dropWhile is_ascii_digit s in
         if digits = [] then Inl (Config (''invalid memory size `'' @ sz @ ''`''))
         else
           (case parse_u64 digits of
              None \<Rightarrow> Inl (Config (''invalid memory size `'' @ sz @ ''`''))
            | Some value \<Rightarrow>
                (case unit_multiplier (to_ascii_lowercase suffix) of
                   None \<Rightarrow>
                     Inl (Config (''unknown memory unit `'' @ to_ascii_lowercase suffix @ ''`''))
                 | Some multiplier \<Rightarrow>
                     (case checked_mul value multiplier of
                        None \<Rightarrow> Inl (Config (''memory size `'' @ sz @ ''` overflows''))
                      | Some n \<Rightarrow> Inr n)))))"

text \<open>The scalar a deserializer found: an integer or a string. Failures are \<open>D::Error::custom\<close>
  of the error's text; \<open>usize::try_from\<close> of a \<open>u64\<close> succeeds on a 64-bit target.\<close>

datatype mem_size = MemBytes u64 | MemText string

fun deserialize_memory :: "mem_size \<Rightarrow> string + usize" where
  "deserialize_memory (MemBytes b) = Inr b"
| "deserialize_memory (MemText t) = map_err error_to_string (parse_memory t)"

definition deserialize_millis :: "u64 \<Rightarrow> duration" where
  "deserialize_millis ms = from_millis ms"

section \<open>Overrides, validation, loading\<close>

type_synonym environment = "string \<Rightarrow> string option"

definition apply_env :: "environment \<Rightarrow> config \<Rightarrow> config" where
  "apply_env env c =
     (let c1 = (case env ''EMBER_BIND'' of
                  None \<Rightarrow> c
                | Some bind \<Rightarrow>
                    (case parse_socket_addr bind of
                       Some addr \<Rightarrow> c\<lparr>cfg_bind := addr\<rparr>
                     | None \<Rightarrow> c));
          c2 = (case env ''EMBER_REGISTRY_ENDPOINT'' of
                  None \<Rightarrow> c1
                | Some endpoint \<Rightarrow> c1\<lparr>cfg_registry := (cfg_registry c1)\<lparr>rc_endpoint := endpoint\<rparr>\<rparr>) in
      case env ''EMBER_PULL_INTERVAL_SECS'' of
        None \<Rightarrow> c2
      | Some interval \<Rightarrow>
          (case parse_u64 interval of
             Some v \<Rightarrow> c2\<lparr>cfg_registry := (cfg_registry c2)\<lparr>rc_pull_interval_secs := v\<rparr>\<rparr>
           | None \<Rightarrow> c2))"

text \<open>One iteration of the tenant loop of \<open>Config::validate\<close>.\<close>

definition validate_tenant :: "tenant_config \<Rightarrow> unit result" where
  "validate_tenant t =
     (case limits_validate (tc_limits t) of
        Inl e \<Rightarrow> Inl e
      | Inr _ \<Rightarrow>
          (case tenant_new (tc_name t) of
             Inl e \<Rightarrow> Inl (Config (''tenant `'' @ tc_name t @ ''`: '' @ error_to_string e))
           | Inr _ \<Rightarrow>
               (case tc_component t of
                  SourceOci reference pin \<Rightarrow>
                    if reference = [] then
                      Inl (Config (''tenant `'' @ tc_name t @ ''`: empty oci reference''))
                    else
                      (case pin of
                         None \<Rightarrow> Inr ()
                       | Some p \<Rightarrow>
                           map_err (\<lambda>e. Config (''tenant `'' @ tc_name t @ ''`: bad pin: ''
                             @ error_to_string e)) (parse_digest p))
                | SourceFile path \<Rightarrow>
                    if path = [] then
                      Inl (Config (''tenant `'' @ tc_name t @ ''`: empty file path''))
                    else Inr ())))"

definition config_validate :: "config \<Rightarrow> config result" where
  "config_validate c =
     (if eng_max_memory_bytes (cfg_engine c) = 0 then
        Inl (Config ''engine.max_memory_bytes must be > 0'')
      else if eng_max_instances (cfg_engine c) = 0 then
        Inl (Config ''engine.max_instances must be > 0'')
      else
        (case check_each validate_tenant (cfg_tenants c) of
           Inl e \<Rightarrow> Inl e
         | Inr _ \<Rightarrow> Inr (c\<lparr>cfg_tenants := clamp_tenants (cfg_engine c) (cfg_tenants c)\<rparr>)))"

definition config_load ::
  "(string \<Rightarrow> string + string) \<Rightarrow> (string \<Rightarrow> string + config) \<Rightarrow> environment \<Rightarrow> string option \<Rightarrow>
   config result"
where
  "config_load read_to_string from_toml env path =
     (case (case path of
              None \<Rightarrow> Inr config_default
            | Some p \<Rightarrow>
                (case read_to_string p of
                   Inl e \<Rightarrow> Inl (Config (''cannot read '' @ p @ '': '' @ e))
                 | Inr raw \<Rightarrow>
                     map_err (\<lambda>e. Config (''invalid TOML in '' @ p @ '': '' @ e)) (from_toml raw))) of
        Inl e \<Rightarrow> Inl e
      | Inr c \<Rightarrow> config_validate (apply_env env c))"

section \<open>Lemmas on sizes\<close>

lemma default_bind_parses: "parse_socket_addr ''127.0.0.1:8080'' = Some default_bind"
proof -
  have "parse_socket_addr ''127.0.0.1:8080'' \<noteq> None" by code_simp
  then show ?thesis by (auto simp: default_bind_def)
qed

lemma unit_multiplier_Some:
  assumes "unit_multiplier u = Some m"
  shows "unat m \<in> {1, 1024, 1024 ^ 2, 1024 ^ 3}"
    and "u = [] \<or> (ascii_visible (last u) \<and> \<not> is_ascii_digit (hd u) \<and> \<not> is_ascii_uppercase (hd u))"
proof -
  let ?P = "\<lambda>u. u = [] \<or>
    (ascii_visible (last u) \<and> \<not> is_ascii_digit (hd u) \<and> \<not> is_ascii_uppercase (hd u))"
  have "list_all ?P ['''', ''k'', ''kb'', ''kib'', ''m'', ''mb'', ''mib'', ''g'', ''gb'', ''gib'']"
    by code_simp
  moreover have "u \<in> set ['''', ''k'', ''kb'', ''kib'', ''m'', ''mb'', ''mib'', ''g'', ''gb'', ''gib'']"
    using assms unfolding unit_multiplier.simps by (simp split: if_split_asm) blast+
  ultimately show "?P u" unfolding list_all_iff by blast
  have "m = 1 \<or> m = 1024 \<or> m = 1024 * 1024 \<or> m = 1024 * 1024 * 1024"
    using assms unfolding unit_multiplier.simps by (simp split: if_split_asm)
  then show "unat m \<in> {1, 1024, 1024 ^ 2, 1024 ^ 3}" by auto
qed

lemma lower_digit_iff [simp]: "is_ascii_digit (to_ascii_lower c) \<longleftrightarrow> is_ascii_digit c"
  by (auto simp: is_ascii_digit_def byte_lower is_ascii_uppercase_def)

lemma lower_visible_iff [simp]: "ascii_visible (to_ascii_lower c) \<longleftrightarrow> ascii_visible c"
  by (auto simp: ascii_visible_def byte_lower is_ascii_uppercase_def)

lemma lowercase_hd: "u \<noteq> [] \<Longrightarrow> hd (to_ascii_lowercase u) = to_ascii_lower (hd u)"
  and lowercase_last: "u \<noteq> [] \<Longrightarrow> last (to_ascii_lowercase u) = to_ascii_lower (last u)"
  by (simp_all add: to_ascii_lowercase_def hd_map last_map)

lemma lowercase_Nil_iff [simp]: "to_ascii_lowercase u = [] \<longleftrightarrow> u = []"
  by (simp add: to_ascii_lowercase_def)

text \<open>A digit string followed by a known unit is cut exactly between the two.\<close>

lemma digits_unit_split:
  assumes "list_all is_ascii_digit ds" and "unit_multiplier (to_ascii_lowercase u) = Some m"
  shows "takeWhile is_ascii_digit (ds @ u) = ds" "dropWhile is_ascii_digit (ds @ u) = u"
proof -
  have "u = [] \<or> \<not> is_ascii_digit (hd u)"
    using unit_multiplier_Some(2) [OF assms(2)] by (auto simp: lowercase_hd)
  then have "takeWhile is_ascii_digit u = []" "dropWhile is_ascii_digit u = u"
    by (cases u; simp)+
  moreover have "\<And>c. c \<in> set ds \<Longrightarrow> is_ascii_digit c" using assms(1) by (simp add: list_all_iff)
  ultimately show "takeWhile is_ascii_digit (ds @ u) = ds" "dropWhile is_ascii_digit (ds @ u) = u"
    by (simp_all add: takeWhile_append2 dropWhile_append2)
qed

text \<open>What \<open>parse_memory\<close> answers on digits followed by a known unit.\<close>

lemma parse_memory_digits:
  assumes "trim sz = ds @ u" "ds \<noteq> []" "list_all is_ascii_digit ds"
    and "unit_multiplier (to_ascii_lowercase u) = Some m"
  shows "parse_memory sz =
    (if digits_value 0 ds * unat m < 2 ^ 64 then Inr (of_nat (digits_value 0 ds) * m)
     else if digits_value 0 ds < 2 ^ 64 then Inl (Config (''memory size `'' @ sz @ ''` overflows''))
     else Inl (Config (''invalid memory size `'' @ sz @ ''`'')))"
proof -
  define n where "n = digits_value 0 ds"
  have "0 < unat m" using unit_multiplier_Some(1) [OF assms(4)] by auto
  then have "n \<le> n * unat m" by simp
  then have le: "n * unat m < 2 ^ 64 \<Longrightarrow> n < 2 ^ 64" by (rule le_less_trans)
  have "parse_memory sz = (case parse_u64 ds of
      None \<Rightarrow> Inl (Config (''invalid memory size `'' @ sz @ ''`''))
    | Some value \<Rightarrow> (case checked_mul value m of
        None \<Rightarrow> Inl (Config (''memory size `'' @ sz @ ''` overflows'')) | Some n \<Rightarrow> Inr n))"
    using assms by (simp add: parse_memory_def digits_unit_split split: option.split)
  also have "parse_u64 ds = (if n < 2 ^ 64 then Some (of_nat n) else None)"
    using assms(2,3) by (simp add: parse_u64_digits n_def)
  finally show ?thesis
    using le unfolding n_def [symmetric]
    by (cases "n < 2 ^ 64"; cases "n * unat m < 2 ^ 64")
      (simp_all add: checked_mul_def unat_of_nat64)
qed

lemma parse_memory_okD:
  assumes "parse_memory sz = Inr n"
  obtains ds u m where "trim sz = ds @ u" "ds \<noteq> []" "list_all is_ascii_digit ds"
    "unit_multiplier (to_ascii_lowercase u) = Some m"
proof -
  have "trim sz = takeWhile is_ascii_digit (trim sz) @ dropWhile is_ascii_digit (trim sz)" by simp
  moreover have "takeWhile is_ascii_digit (trim sz) \<noteq> []"
    and "\<exists>m. unit_multiplier (to_ascii_lowercase (dropWhile is_ascii_digit (trim sz))) = Some m"
    using assms by (auto simp: parse_memory_def Let_def split: if_splits option.splits)
  moreover have "list_all is_ascii_digit (takeWhile is_ascii_digit (trim sz))"
    by (auto simp: list_all_iff dest: set_takeWhileD)
  ultimately show ?thesis using that by blast
qed

lemma trim_digits_unit:
  assumes "ds \<noteq> []" "list_all is_ascii_digit ds" "unit_multiplier (to_ascii_lowercase u) = Some m"
  shows "trim (ds @ u) = ds @ u"
proof (rule trim_visible)
  show "ascii_visible (hd (ds @ u))"
    using assms(1,2) by (cases ds) (auto intro: digit_visible)
  show "ascii_visible (last (ds @ u))"
  proof (cases "u = []")
    case True
    then show ?thesis using assms(1,2) digit_visible by (simp add: list_all_iff)
  next
    case False
    then show ?thesis
      using unit_multiplier_Some(2) [OF assms(3)] by (simp add: lowercase_last)
  qed
qed (use assms(1) in simp)

text \<open>The same on a text that is digits and a unit, for concrete sizes.\<close>

lemma parse_memory_text:
  assumes "ds \<noteq> []" "list_all is_ascii_digit ds" "unit_multiplier (to_ascii_lowercase u) = Some m"
    and "digits_value 0 ds = n" "n * unat m < 2 ^ 64"
  shows "parse_memory (ds @ u) = Inr (of_nat n * m)"
  using parse_memory_digits [OF trim_digits_unit [OF assms(1-3)] assms(1-3)] assms(4,5) by simp

lemma concrete_units:
  "unit_multiplier (to_ascii_lowercase '''') = Some 1"
  "unit_multiplier (to_ascii_lowercase ''k'') = Some 1024"
  "unit_multiplier (to_ascii_lowercase ''K'') = Some 1024"
  "unit_multiplier (to_ascii_lowercase ''m'') = Some 1048576"
  "unit_multiplier (to_ascii_lowercase ''g'') = Some 1073741824"
proof -
  have "to_ascii_lowercase '''' = ''''" "to_ascii_lowercase ''k'' = ''k''"
    "to_ascii_lowercase ''K'' = ''k''" "to_ascii_lowercase ''m'' = ''m''"
    "to_ascii_lowercase ''g'' = ''g''"
    by code_simp+
  then show "unit_multiplier (to_ascii_lowercase '''') = Some 1"
    "unit_multiplier (to_ascii_lowercase ''k'') = Some 1024"
    "unit_multiplier (to_ascii_lowercase ''K'') = Some 1024"
    "unit_multiplier (to_ascii_lowercase ''m'') = Some 1048576"
    "unit_multiplier (to_ascii_lowercase ''g'') = Some 1073741824"
    by (simp_all only: unit_multiplier.simps) simp_all
qed

section \<open>Lemmas on validation\<close>

definition source_ok :: "component_source \<Rightarrow> bool" where
  "source_ok s \<longleftrightarrow> (case s of
      SourceOci reference pin \<Rightarrow> reference \<noteq> [] \<and>
        (case pin of None \<Rightarrow> True
         | Some p \<Rightarrow> \<exists>h. p = ''sha256:'' @ h \<and> length h = 64 \<and> list_all is_ascii_hexdigit h)
    | SourceFile path \<Rightarrow> path \<noteq> [])"

text \<open>What a validated configuration promises its readers.\<close>

definition tenant_within :: "engine_config \<Rightarrow> tenant_config \<Rightarrow> bool" where
  "tenant_within e t \<longleftrightarrow> valid_tenant_name (tc_name t) \<and> source_ok (tc_component t) \<and>
     limits_validate (tc_limits t) = Inr () \<and>
     lim_max_memory_bytes (tc_limits t) \<le> eng_max_memory_bytes e \<and>
     lim_max_instances (tc_limits t) \<le> eng_max_instances e \<and>
     0 < lim_max_epoch_delta (tc_limits t)"

definition config_ok :: "config \<Rightarrow> bool" where
  "config_ok c \<longleftrightarrow> 0 < eng_max_memory_bytes (cfg_engine c) \<and> 0 < eng_max_instances (cfg_engine c) \<and>
     list_all (tenant_within (cfg_engine c)) (cfg_tenants c)"

lemma unit_result_cases: "(r :: unit result) = Inr () \<or> (\<exists>e. r = Inl e)"
  by (cases r) auto

lemma tenant_new_cases:
  obtains (ok) "valid_tenant_name s" "tenant_new s = Inr (TenantId s)"
    | (bad) e where "\<not> valid_tenant_name s" "tenant_new s = Inl e"
  by (metis sum.exhaust tenant_new_ok_iff sum.distinct(1))

lemma validate_tenant_ok_iff:
  "validate_tenant t = Inr () \<longleftrightarrow>
     limits_validate (tc_limits t) = Inr () \<and> valid_tenant_name (tc_name t) \<and>
     source_ok (tc_component t)"
  by (cases "tc_name t" rule: tenant_new_cases)
    (auto simp: validate_tenant_def source_ok_def map_err_Inr_iff parse_digest_ok_iff
      split: sum.splits component_source.splits option.splits)

lemma config_validate_ok_iff:
  "config_validate c = Inr c' \<longleftrightarrow>
     0 < eng_max_memory_bytes (cfg_engine c) \<and> 0 < eng_max_instances (cfg_engine c) \<and>
     (\<forall>t\<in>set (cfg_tenants c). validate_tenant t = Inr ()) \<and>
     c' = c\<lparr>cfg_tenants := clamp_tenants (cfg_engine c) (cfg_tenants c)\<rparr>"
  by (auto simp: config_validate_def check_each_ok_iff word_neq_0_conv
      split: sum.splits dest: check_each_errorD)

lemma clamped_within:
  assumes "validate_tenant t = Inr ()" "0 < eng_max_memory_bytes e" "0 < eng_max_instances e"
  shows "tenant_within e
    (t\<lparr>tc_limits := clamp_to (eng_max_memory_bytes e) (eng_max_instances e) (tc_limits t)\<rparr>)"
proof -
  from assms(2,3) have "eng_max_memory_bytes e \<noteq> 0" "eng_max_instances e \<noteq> 0" by auto
  moreover have "0 < lim_max_epoch_delta
      (clamp_to (eng_max_memory_bytes e) (eng_max_instances e) (tc_limits t))"
    by (rule less_le_trans [OF _ clamp_to_bounds(3)]) simp
  ultimately show ?thesis
    using assms(1)
    by (simp add: tenant_within_def validate_tenant_ok_iff clamp_to_bounds clamp_to_validate)
qed

lemma within_clamped:
  "tenant_within e t \<Longrightarrow>
     clamp_to (eng_max_memory_bytes e) (eng_max_instances e) (tc_limits t) = tc_limits t"
  by (cases "tc_limits t")
    (auto simp: tenant_within_def clamp_to_def dest: inc_le intro!: max_absorb1)

lemma config_validate_sound: "config_validate c = Inr c' \<Longrightarrow> config_ok c'"
  by (auto simp: config_validate_ok_iff config_ok_def clamp_tenants_def list_all_iff
      intro: clamped_within)

lemma config_ok_validate:
  assumes "config_ok c"
  shows "config_validate c = Inr c"
proof -
  let ?e = "cfg_engine c"
  have within: "tenant_within ?e t" if "t \<in> set (cfg_tenants c)" for t
    using assms that by (auto simp: config_ok_def list_all_iff)
  then have "clamp_tenants ?e (cfg_tenants c) = cfg_tenants c"
    by (auto simp: clamp_tenants_def within_clamped intro: map_idI)
  moreover have "validate_tenant t = Inr ()" if "t \<in> set (cfg_tenants c)" for t
    using within [OF that] by (simp add: validate_tenant_ok_iff tenant_within_def)
  ultimately show ?thesis
    using assms by (simp add: config_validate_ok_iff config_ok_def)
qed

section \<open>Properties\<close>


text \<open>Printing a size and reading it back. A decimal number with a unit in any letter case is
  read as number times unit while the product fits 64 bits; otherwise the answer is an error, and
  the error says whether the product or the number itself is too large.\<close>

theorem parse_memory_print:
  assumes "unit_multiplier (to_ascii_lowercase u) = Some m"
  shows "parse_memory (show_nat n @ u) =
    (if n * unat m < 2 ^ 64 then Inr (of_nat n * m)
     else if n < 2 ^ 64 then Inl (Config (''memory size `'' @ show_nat n @ u @ ''` overflows''))
     else Inl (Config (''invalid memory size `'' @ show_nat n @ u @ ''`'')))"
  using parse_memory_digits [OF trim_digits_unit [OF show_nat_not_Nil show_nat_digits assms]
      show_nat_not_Nil show_nat_digits assms]
  by simp

theorem parse_memory_print_witness:
  "parse_memory (show_nat 64 @ ''KiB'') = Inr 65536 \<and>
   parse_memory (show_nat (2 ^ 34) @ ''g'') =
     Inl (Config (''memory size `'' @ show_nat (2 ^ 34) @ ''g'' @ ''` overflows''))"
proof -
  have "to_ascii_lowercase ''KiB'' = ''kib''" "to_ascii_lowercase ''g'' = ''g''" by code_simp+
  then have "unit_multiplier (to_ascii_lowercase ''KiB'') = Some 1024"
    and "unit_multiplier (to_ascii_lowercase ''g'') = Some 1073741824"
    by (simp_all only: unit_multiplier.simps) simp_all
  from parse_memory_print [OF this(1), of 64] parse_memory_print [OF this(2), of "2 ^ 34"]
  show ?thesis by simp
qed

text \<open>C20: A loaded configuration is fit to run. Whatever the file, the decoder and the environment
  hold, when \<open>load\<close> succeeds the engine budget is positive, every tenant has a valid id, a
  non-empty source and a well-formed pin, its limits pass \<open>validate\<close> and lie within the engine
  budget, and validating the result once more changes nothing.\<close>

theorem config_load_sound:
  assumes "config_load read_to_string from_toml env path = Inr c"
  shows "config_ok c \<and> config_validate c = Inr c"
proof -
  from assms obtain c0 where "config_validate (apply_env env c0) = Inr c"
    by (auto simp: config_load_def split: sum.splits)
  then show ?thesis using config_validate_sound config_ok_validate by blast
qed

definition demo_tenant :: tenant_config where
  "demo_tenant =
     \<lparr>tc_name = ''echo'', tc_component = SourceOci ''ghcr.io/acme/echo:latest'' None,
      tc_limits = sandbox_limits_default\<lparr>lim_max_instances := 1000\<rparr>, tc_config = []\<rparr>"

theorem config_load_sound_witness:
  "\<exists>c. config_load (\<lambda>_. Inr ''x'') (\<lambda>_. Inr (config_default\<lparr>cfg_tenants := [demo_tenant]\<rparr>))
       (\<lambda>_. None) (Some ''ember.toml'') = Inr c \<and> config_ok c \<and>
     map (lim_max_instances \<circ> tc_limits) (cfg_tenants c) = [64]"
proof -
  let ?c = "config_default\<lparr>cfg_tenants := [demo_tenant]\<rparr>"
  have "valid_tenant_name ''echo''" by code_simp
  then have "validate_tenant demo_tenant = Inr ()"
    by (simp add: validate_tenant_ok_iff demo_tenant_def source_ok_def limits_validate_ok_iff
        sandbox_limits_default_def from_secs_def)
  then have ok: "config_load (\<lambda>_. Inr ''x'') (\<lambda>_. Inr ?c) (\<lambda>_. None) (Some ''ember.toml'') =
      Inr (?c\<lparr>cfg_tenants := clamp_tenants engine_config_default [demo_tenant]\<rparr>)"
    by (simp add: config_load_def apply_env_def config_validate_ok_iff config_default_def
        engine_config_default_def)
  have "map (lim_max_instances \<circ> tc_limits) (clamp_tenants engine_config_default [demo_tenant]) = [64]"
    by (simp add: clamp_tenants_def clamp_to_def demo_tenant_def engine_config_default_def min_def)
  with ok config_load_sound [OF ok] show ?thesis by auto
qed

end
