(* ===== verification/Http_Bridge.thy ===== *)
theory Http_Bridge
  imports Egress_Policy
begin

text \<open>
  The outbound HTTP bridge of \<open>src/src/http/bridge.rs\<close>: what a guest's outgoing request passes
  through between \<open>wasi:http\<close> and the network.

  The \<open>http\<close> and \<open>reqwest\<close> crates are not part of the repository. A \<open>Uri\<close> is the record of what
  the source reads of it (its text, the host of its authority, path and query). The functions of
  \<open>http\<close> that the source calls on headers and responses are fields of \<open>http_lib\<close>, and the network
  client is an argument: it takes the request that leaves the process and answers with a response
  or an error text. \<open>send_prepare\<close> is the part of \<open>HttpBridge::send\<close> before the network call, so
  that "nothing is sent" is a statement about its result. Redirects are followed by the client itself and
  are not part of the model.

  The loop that copies the request headers calls a by-value builder method and drops the result;
  the model follows it in that the outbound request carries method, address, timeout and body.
\<close>

section \<open>HTTP data\<close>

record uri =
  uri_text :: string
  uri_host :: "string option"
  uri_path :: string
  uri_query :: "string option"

type_synonym headers = "(string \<times> bytes) list"

record http_response =
  rs_status :: u16
  rs_headers :: headers
  rs_body :: bytes

text \<open>
  What the source calls of the \<open>http\<close> crate: \<open>HeaderValue::to_str\<close>, \<open>HeaderName::from_bytes\<close>,
  \<open>HeaderValue::from_str\<close>, \<open>StatusCode\<close> range, one more header on a builder, and the finished
  response.
\<close>

record http_lib =
  value_to_str :: "bytes \<Rightarrow> string option"
  name_from_bytes :: "string \<Rightarrow> string option"
  value_from_str :: "string \<Rightarrow> bytes option"
  status_valid :: "u16 \<Rightarrow> bool"
  add_header :: "headers \<Rightarrow> string \<Rightarrow> bytes \<Rightarrow> headers option"
  finish_response :: "u16 \<Rightarrow> headers \<Rightarrow> bytes \<Rightarrow> string + http_response"

text \<open>
  The documented behaviour some theorems rely on: status codes are 100 to 999, a builder appends
  headers, and finishing a builder whose parts were accepted yields those parts.
\<close>

definition http_lib_ok :: "http_lib \<Rightarrow> bool" where
  "http_lib_ok H \<longleftrightarrow>
     (\<forall>s. status_valid H s \<longleftrightarrow> 100 \<le> unat s \<and> unat s \<le> 999) \<and>
     (\<forall>hs n v hs'. add_header H hs n v = Some hs' \<longrightarrow> hs' = hs @ [(n, v)]) \<and>
     (\<forall>s hs b. status_valid H s \<longrightarrow>
        finish_response H s hs b = Inr \<lparr>rs_status = s, rs_headers = hs, rs_body = b\<rparr>)"

section \<open>The bridge\<close>

record bridge =
  br_policy :: egress_policy
  br_connect_timeout :: duration
  br_max_body_bytes :: usize

text \<open>\<open>client\<close> is the outcome of building the reqwest client, an error text or the client.\<close>

definition client_builder_bridge :: "string + unit \<Rightarrow> unit result" where
  "client_builder_bridge client = map_err (\<lambda>e. Config (''egress client: '' @ e)) client"

definition bridge_new :: "string + unit \<Rightarrow> egress_policy \<Rightarrow> usize \<Rightarrow> bridge result" where
  "bridge_new client policy max_body =
     (case client_builder_bridge client of
        Inl e \<Rightarrow> Inl e
      | Inr _ \<Rightarrow>
          Inr \<lparr>br_policy = policy, br_connect_timeout = from_secs 3, br_max_body_bytes = max_body\<rparr>)"

definition with_connect_timeout :: "bridge \<Rightarrow> duration \<Rightarrow> bridge" where
  "with_connect_timeout br timeout = br\<lparr>br_connect_timeout := timeout\<rparr>"

text \<open>\<open>HttpError::new(status, message)\<close>.\<close>

datatype http_error = HttpError (he_status: u16) (he_message: string)

datatype reqwest_method = M_GET | M_POST | M_PUT | M_DELETE | M_PATCH | M_HEAD | M_OPTIONS

definition method_to_reqwest :: "string \<Rightarrow> reqwest_method" where
  "method_to_reqwest method =
     (if method = ''GET'' then M_GET
      else if method = ''POST'' then M_POST
      else if method = ''PUT'' then M_PUT
      else if method = ''DELETE'' then M_DELETE
      else if method = ''PATCH'' then M_PATCH
      else if method = ''HEAD'' then M_HEAD
      else if method = ''OPTIONS'' then M_OPTIONS
      else M_GET)"

text \<open>A guest's request; the body is \<open>None\<close> when collecting it fails.\<close>

record out_request =
  or_method :: string
  or_uri :: uri
  or_body :: "bytes option"

record wire_request =
  wr_method :: reqwest_method
  wr_url :: string
  wr_timeout :: duration
  wr_body :: bytes

definition send_prepare :: "bridge \<Rightarrow> out_request \<Rightarrow> http_error + wire_request" where
  "send_prepare br req =
     (case uri_host (or_uri req) of
        None \<Rightarrow> Inl (HttpError 500 ''outbound request missing authority'')
      | Some host \<Rightarrow>
          if \<not> allows (br_policy br) host then
            Inl (HttpError 403 (''egress denied for `'' @ host @ ''`''))
          else
            (case or_body req of
               None \<Rightarrow> Inl (HttpError 500 ''failed to read outbound body'')
             | Some bytes \<Rightarrow>
                 if length bytes > unat (br_max_body_bytes br) then
                   Inl (HttpError 413 (''outbound request body exceeds ''
                     @ show_word (br_max_body_bytes br) @ '' bytes''))
                 else
                   Inr \<lparr>wr_method = method_to_reqwest (or_method req), wr_url = uri_text (or_uri req),
                        wr_timeout = br_connect_timeout br + from_secs 25, wr_body = bytes\<rparr>))"

text \<open>What the network answers: a status (a reqwest \<open>StatusCode\<close>, so the \<open>unwrap\<close> on setting it never
  fails), headers and a body whose reading may fail.\<close>

record net_response =
  nr_status :: u16
  nr_headers :: headers
  nr_body :: "string + bytes"

type_synonym net_client = "wire_request \<Rightarrow> string + net_response"

definition bridge_send :: "net_client \<Rightarrow> bridge \<Rightarrow> out_request \<Rightarrow> http_error + net_response" where
  "bridge_send client br req =
     (case send_prepare br req of
        Inl e \<Rightarrow> Inl e
      | Inr w \<Rightarrow> map_err (\<lambda>e. HttpError 502 (''outbound request failed: '' @ e)) (client w))"

text \<open>The response headers: an unreadable value becomes empty, a refused header is skipped.\<close>

fun copy_headers :: "http_lib \<Rightarrow> headers \<Rightarrow> headers \<Rightarrow> headers" where
  "copy_headers H out [] = out"
| "copy_headers H out ((name, value) # rest) =
     (let v = (case value_to_str H value of Some s \<Rightarrow> s | None \<Rightarrow> '''') in
      case Option.bind (value_from_str H v) (add_header H out name) of
        Some next \<Rightarrow> copy_headers H next rest
      | None \<Rightarrow> copy_headers H out rest)"

definition send_request ::
  "http_lib \<Rightarrow> net_client \<Rightarrow> bridge \<Rightarrow> out_request \<Rightarrow> http_error + http_response" where
  "send_request H client br req =
     (case bridge_send client br req of
        Inl e \<Rightarrow> Inl e
      | Inr res \<Rightarrow>
          (let out = copy_headers H [] (nr_headers res) in
           case nr_body res of
             Inl e \<Rightarrow> Inl (HttpError 502 (''failed to read outbound response: '' @ e))
           | Inr body \<Rightarrow> map_err (HttpError 500) (finish_response H (nr_status res) out body)))"

section \<open>Lemmas\<close>

lemma send_prepare_ok_iff:
  "send_prepare br req = Inr w \<longleftrightarrow>
     (\<exists>host bytes. uri_host (or_uri req) = Some host \<and> allows (br_policy br) host \<and>
        or_body req = Some bytes \<and> length bytes \<le> unat (br_max_body_bytes br) \<and>
        w = \<lparr>wr_method = method_to_reqwest (or_method req), wr_url = uri_text (or_uri req),
             wr_timeout = br_connect_timeout br + from_secs 25, wr_body = bytes\<rparr>)"
  by (auto simp: send_prepare_def split: option.splits if_splits)

lemma send_request_prepared:
  "send_prepare br req = Inl e \<Longrightarrow> send_request H client br req = Inl e"
  by (simp add: send_request_def bridge_send_def)

lemma bridge_new_ok_iff:
  "bridge_new client p m = Inr br \<longleftrightarrow> client = Inr () \<and>
     br = \<lparr>br_policy = p, br_connect_timeout = from_secs 3, br_max_body_bytes = m\<rparr>"
  by (auto simp: bridge_new_def client_builder_bridge_def map_err_Inr_iff split: sum.splits
      dest: map_err_Inl_iff [THEN iffD1])

lemma bridge_new_error: "bridge_new client p m = Inl e \<Longrightarrow> \<exists>t. e = Config t"
  by (auto simp: bridge_new_def client_builder_bridge_def map_err_Inl_iff split: sum.splits)

section \<open>Properties\<close>


text \<open>Scheme and port of egress rules are not enforced. The bridge asks the policy about the bare
  host only, so two requests to the same host are admitted alike whatever scheme and port they
  use: a rule written \<open>https://host:port\<close> also admits plain HTTP to any port of that host.\<close>

theorem egress_ignores_scheme_and_port:
  assumes "uri_host u = uri_host (or_uri req)"
  shows "(\<exists>w. send_prepare br req = Inr w) \<longleftrightarrow> (\<exists>w. send_prepare br (req\<lparr>or_uri := u\<rparr>) = Inr w)"
  using assms by (auto simp: send_prepare_ok_iff)

definition demo_uri :: "string \<Rightarrow> string \<Rightarrow> uri" where
  "demo_uri scheme port =
     \<lparr>uri_text = scheme @ ''://api.example.com:'' @ port @ ''/'', uri_host = Some ''api.example.com'',
      uri_path = ''/'', uri_query = None\<rparr>"

definition demo_bridge :: bridge where
  "demo_bridge =
     \<lparr>br_policy = \<lparr>allow = [''https://api.example.com:443''], default_deny = True\<rparr>,
      br_connect_timeout = from_secs 3, br_max_body_bytes = 1024\<rparr>"

theorem egress_ignores_scheme_and_port_witness:
  "\<exists>w. send_prepare demo_bridge
     \<lparr>or_method = ''GET'', or_uri = demo_uri ''http'' ''8080'', or_body = Some []\<rparr> = Inr w"
proof -
  let ?req = "\<lparr>or_method = ''GET'', or_uri = demo_uri ''https'' ''443'', or_body = Some []\<rparr>"
  have "allows \<lparr>allow = [''https://api.example.com:443''], default_deny = True\<rparr> ''api.example.com''"
    by code_simp
  then have "allows (br_policy demo_bridge) ''api.example.com''" by (simp add: demo_bridge_def)
  then have ok: "\<exists>w. send_prepare demo_bridge ?req = Inr w"
    by (simp add: send_prepare_ok_iff demo_uri_def)
  have "uri_host (demo_uri ''http'' ''8080'') = uri_host (or_uri ?req)"
    by (simp add: demo_uri_def)
  from iffD1 [OF egress_ignores_scheme_and_port [OF this] ok] show ?thesis by simp
qed

end
