(* ===== verification/Host_Linker.thy ===== *)
theory Host_Linker
  imports Sandbox Http_Bridge
begin

text \<open>
  The host side of the component boundary: \<open>src/src/component/linker.rs\<close> (the \<open>HostCtx\<close> of a store,
  the \<open>ember:runtime\<close> imports, and the conversions of requests and responses) and
  \<open>src/src/wasi.rs\<close> (the WASI context of a tenant).

  A guest acts on the host only through its imports. \<open>host_call\<close> lists them, \<open>exec_call\<close> runs one
  of them on the \<open>host_world\<close>: the scratch filesystems, the log, and the requests handed to the
  HTTP client. What the guest code itself does is a parameter of the development; \<open>guest_prog\<close> is one
  invocation of it as the host sees it, a tree of import calls that ends in a response, in a trap,
  or never.

  File-system calls, the WASI builder and the \<open>http\<close> crate are arguments (\<open>wasi_os\<close>, \<open>http_lib\<close>).
\<close>

section \<open>WASI context\<close>

type_synonym fd = nat

text \<open>\<open>metadata\<close> (is it a directory), \<open>File::open\<close>, and \<open>WasiCtxBuilder::preopened_dir\<close>.\<close>

record wasi_os =
  os_metadata :: "string \<Rightarrow> string + bool"
  os_open :: "string \<Rightarrow> string + fd"
  os_preopen :: "fd \<Rightarrow> string \<Rightarrow> string + unit"

record wasi_ctx =
  wx_inherit_stdio :: bool
  wx_env :: "(string \<times> string) list"
  wx_preopens :: "(fd \<times> string) list"

record wasi =
  wasi_ctx_of :: wasi_ctx
  wasi_http :: bridge

definition open_readonly_dir :: "wasi_os \<Rightarrow> string \<Rightarrow> fd result" where
  "open_readonly_dir os root =
     (case os_metadata os root of
        Inl e \<Rightarrow> Inl (Config (''preopen `'' @ root @ ''` unreadable: '' @ e))
      | Inr is_dir \<Rightarrow>
          if \<not> is_dir then Inl (Config (''preopen `'' @ root @ ''` is not a directory''))
          else map_err (\<lambda>e. Config (''preopen `'' @ root @ ''` open failed: '' @ e)) (os_open os root))"

fun add_preopens :: "wasi_os \<Rightarrow> wasi_ctx \<Rightarrow> (string \<times> string) list \<Rightarrow> wasi_ctx result" where
  "add_preopens os ctx [] = Inr ctx"
| "add_preopens os ctx ((guest_path, host_root) # rest) =
     (case open_readonly_dir os host_root of
        Inl e \<Rightarrow> Inl e
      | Inr file \<Rightarrow>
          (case os_preopen os file guest_path of
             Inl e \<Rightarrow> Inl (Config (''preopen `'' @ guest_path @ ''` failed: '' @ e))
           | Inr _ \<Rightarrow> add_preopens os (ctx\<lparr>wx_preopens := wx_preopens ctx @ [(file, guest_path)]\<rparr>) rest))"

definition wasi_new :: "wasi_os \<Rightarrow> sandbox \<Rightarrow> bridge \<Rightarrow> wasi result" where
  "wasi_new os sb egress =
     (let ctx = \<lparr>wx_inherit_stdio = True,
                 wx_env = [(''EMBER_TENANT'', as_str (sb_tenant sb)),
                           (''EMBER_SCRATCH_QUOTA'', show_word (lim_memfs_quota_bytes (sb_limits sb)))],
                 wx_preopens = []\<rparr> in
      case add_preopens os ctx (sb_readonly_preopens sb) of
        Inl e \<Rightarrow> Inl e
      | Inr ctx' \<Rightarrow> Inr \<lparr>wasi_ctx_of = ctx', wasi_http = egress\<rparr>)"

section \<open>The store state of an instance\<close>

record host_ctx =
  hx_tenant :: tenant_id
  hx_sandbox :: sandbox
  hx_config :: "(string, string) assoc"
  hx_wasi :: wasi_ctx
  hx_http :: bridge
  hx_egress :: bridge

definition host_ctx_new :: "wasi_os \<Rightarrow> sandbox \<Rightarrow> bridge \<Rightarrow> host_ctx result" where
  "host_ctx_new os sb egress =
     (case wasi_new os sb egress of
        Inl e \<Rightarrow> Inl e
      | Inr w \<Rightarrow>
          Inr \<lparr>hx_tenant = sb_tenant sb, hx_sandbox = sb, hx_config = sb_config sb,
               hx_wasi = wasi_ctx_of w, hx_http = wasi_http w, hx_egress = egress\<rparr>)"

section \<open>The imports\<close>

datatype log_level = LogDebug | LogInfo | LogWarn | LogError

datatype scratch_error = ScratchNotFound | QuotaExceeded | InvalidPath

record host_world =
  hw_heap :: memfs_heap
  hw_log :: "(log_level \<times> string \<times> string) list"
  hw_wire :: "(tenant_id \<times> wire_request) list"

definition import_tenant_id :: "host_ctx \<Rightarrow> string" where
  "import_tenant_id ctx = as_str (hx_tenant ctx)"

definition import_get_config :: "host_ctx \<Rightarrow> string \<Rightarrow> string option" where
  "import_get_config ctx key = assoc_get (hx_config ctx) key"

definition scratch_of :: "host_ctx \<Rightarrow> memfs_heap \<Rightarrow> memfs" where
  "scratch_of ctx heap = heap ! sb_scratch (hx_sandbox ctx)"

definition import_scratch_write ::
  "host_ctx \<Rightarrow> string \<Rightarrow> bytes \<Rightarrow> memfs_heap \<Rightarrow> (scratch_error + unit) \<times> memfs_heap" where
  "import_scratch_write ctx path data heap =
     (let (r, fs) = memfs_write (scratch_of ctx heap) path data in
      ((case r of
          Inr _ \<Rightarrow> Inr ()
        | Inl (LimitExceeded _) \<Rightarrow> Inl QuotaExceeded
        | Inl _ \<Rightarrow> Inl InvalidPath),
       heap[sb_scratch (hx_sandbox ctx) := fs]))"

definition import_scratch_read :: "host_ctx \<Rightarrow> string \<Rightarrow> memfs_heap \<Rightarrow> bytes option" where
  "import_scratch_read ctx path heap = memfs_read (scratch_of ctx heap) path"

definition import_scratch_bytes :: "host_ctx \<Rightarrow> memfs_heap \<Rightarrow> u64" where
  "import_scratch_bytes ctx heap = used (scratch_of ctx heap)"

definition import_emit ::
  "host_ctx \<Rightarrow> log_level \<Rightarrow> string \<Rightarrow> host_world \<Rightarrow> host_world" where
  "import_emit ctx level message w =
     w\<lparr>hw_log := hw_log w @ [(level, ''ember::guest::'' @ as_str (hx_tenant ctx), message)]\<rparr>"

text \<open>
  One import call and its reply. Outgoing HTTP goes to the bridge that \<open>WasiHttpCtx\<close> was built
  with; a request that passes \<open>send_prepare\<close> is recorded as handed to the HTTP client.
\<close>

datatype host_call =
    CallTenantId
  | CallGetConfig string
  | CallScratchWrite string bytes
  | CallScratchRead string
  | CallScratchBytes
  | CallEmit log_level string
  | CallSend out_request

datatype host_reply =
    ReplyString string
  | ReplyConfig "string option"
  | ReplyWrite "scratch_error + unit"
  | ReplyRead "bytes option"
  | ReplyBytes u64
  | ReplyUnit
  | ReplyHttp "http_error + http_response"

fun exec_call ::
  "http_lib \<Rightarrow> net_client \<Rightarrow> host_ctx \<Rightarrow> host_call \<Rightarrow> host_world \<Rightarrow> host_reply \<times> host_world" where
  "exec_call H net ctx CallTenantId w = (ReplyString (import_tenant_id ctx), w)"
| "exec_call H net ctx (CallGetConfig key) w = (ReplyConfig (import_get_config ctx key), w)"
| "exec_call H net ctx (CallScratchWrite path data) w =
     (let (r, heap) = import_scratch_write ctx path data (hw_heap w) in
      (ReplyWrite r, w\<lparr>hw_heap := heap\<rparr>))"
| "exec_call H net ctx (CallScratchRead path) w =
     (ReplyRead (import_scratch_read ctx path (hw_heap w)), w)"
| "exec_call H net ctx CallScratchBytes w = (ReplyBytes (import_scratch_bytes ctx (hw_heap w)), w)"
| "exec_call H net ctx (CallEmit level message) w = (ReplyUnit, import_emit ctx level message w)"
| "exec_call H net ctx (CallSend req) w =
     (ReplyHttp (send_request H net (hx_http ctx) req),
      (case send_prepare (hx_http ctx) req of
         Inl _ \<Rightarrow> w
       | Inr wire \<Rightarrow> w\<lparr>hw_wire := hw_wire w @ [(hx_tenant ctx, wire)]\<rparr>))"

section \<open>Requests and responses\<close>

record http_request =
  rq_method :: string
  rq_uri :: uri
  rq_headers :: headers
  rq_body :: bytes

record guest_request =
  gr_method :: string
  gr_path :: string
  gr_query :: "string option"
  gr_headers :: "(string \<times> string) list"
  gr_body :: "bytes option"

record guest_response =
  gs_status :: u16
  gs_headers :: "(string \<times> string) list"
  gs_body :: bytes

definition request_try_from :: "http_lib \<Rightarrow> http_request \<Rightarrow> string + guest_request" where
  "request_try_from H req =
     (let headers = List.map_filter
            (\<lambda>(name, v). map_option (\<lambda>s. (name, s)) (value_to_str H v)) (rq_headers req);
          (path, query) = (case uri_query (rq_uri req) of
              Some q \<Rightarrow> (uri_path (rq_uri req), Some q)
            | None \<Rightarrow> (uri_path (rq_uri req), None)) in
      Inr \<lparr>gr_method = rq_method req, gr_path = path, gr_query = query, gr_headers = headers,
           gr_body = Some (rq_body req)\<rparr>)"

text \<open>A computation that may panic; the release profile aborts the process on a panic.\<close>

datatype 'a outcome = Done 'a | Panic string

fun build_headers :: "http_lib \<Rightarrow> headers \<Rightarrow> (string \<times> string) list \<Rightarrow> headers outcome" where
  "build_headers H out [] = Done out"
| "build_headers H out ((name, v) # rest) =
     (case (name_from_bytes H name, value_from_str H v) of
        (Some n, Some hv) \<Rightarrow>
          (case add_header H out n hv of
             Some next \<Rightarrow> build_headers H next rest
           | None \<Rightarrow> Panic ''called `Result::unwrap()` on an `Err` value'')
      | _ \<Rightarrow> build_headers H out rest)"

definition response_from :: "http_lib \<Rightarrow> guest_response \<Rightarrow> http_response outcome" where
  "response_from H resp =
     (if \<not> status_valid H (gs_status resp) then
        Panic ''component response status is a valid HTTP status''
      else
        (case build_headers H [] (gs_headers resp) of
           Panic m \<Rightarrow> Panic m
         | Done hs \<Rightarrow>
             Done (case finish_response H (gs_status resp) hs (gs_body resp) of
                     Inr r \<Rightarrow> r
                   | Inl _ \<Rightarrow> \<lparr>rs_status = 200, rs_headers = [], rs_body = []\<rparr>)))"

section \<open>One guest invocation\<close>

text \<open>\<open>GReturn\<close> carries the state the instance keeps for its next invocation; \<open>GStall\<close> is a guest
  that never yields again.\<close>

datatype 'g guest_prog =
    GReturn guest_response 'g
  | GTrap string
  | GCall host_call "host_reply \<Rightarrow> 'g guest_prog"
  | GStall

section \<open>Lemmas on the imports\<close>

definition exec_calls ::
  "http_lib \<Rightarrow> net_client \<Rightarrow> host_ctx \<Rightarrow> host_call list \<Rightarrow> host_world \<Rightarrow> host_world" where
  "exec_calls H net ctx calls w = fold (\<lambda>c w. snd (exec_call H net ctx c w)) calls w"

text \<open>A written buffer together with the quota stays below \<open>2^63\<close>.\<close>

fun call_fits :: "nat \<Rightarrow> host_call \<Rightarrow> bool" where
  "call_fits limit (CallScratchWrite path data) = write_fits limit data"
| "call_fits limit _ = True"

lemma host_ctx_new_okD:
  assumes "host_ctx_new os sb br = Inr ctx"
  shows "hx_tenant ctx = sb_tenant sb" "hx_sandbox ctx = sb" "hx_config ctx = sb_config sb"
    "hx_http ctx = br" "hx_egress ctx = br"
  using assms by (auto simp: host_ctx_new_def wasi_new_def Let_def split: sum.splits)

lemma scratch_write_heap:
  "snd (import_scratch_write ctx p d heap) =
     heap[sb_scratch (hx_sandbox ctx) := snd (memfs_write (scratch_of ctx heap) p d)]"
  by (simp add: import_scratch_write_def split: prod.split)

lemma exec_call_length [simp]:
  "length (hw_heap (snd (exec_call H net ctx c w))) = length (hw_heap w)"
  by (cases c) (auto simp: import_emit_def scratch_write_heap split_beta split: sum.split)

lemma exec_call_other:
  "j \<noteq> sb_scratch (hx_sandbox ctx) \<Longrightarrow>
     hw_heap (snd (exec_call H net ctx c w)) ! j = hw_heap w ! j"
  by (cases c) (auto simp: import_emit_def scratch_write_heap split_beta split: sum.split)

lemma exec_call_own:
  assumes "sb_scratch (hx_sandbox ctx) < length (hw_heap w)"
  shows "scratch_of ctx (hw_heap (snd (exec_call H net ctx c w))) = scratch_of ctx (hw_heap w) \<or>
    (\<exists>p d. c = CallScratchWrite p d \<and>
       scratch_of ctx (hw_heap (snd (exec_call H net ctx c w))) =
         snd (memfs_write (scratch_of ctx (hw_heap w)) p d))"
  using assms
  by (cases c) (auto simp: import_emit_def scratch_write_heap split_beta scratch_of_def split: sum.split)

lemma exec_call_quota:
  "quota_bytes (hw_heap (snd (exec_call H net ctx c w)) ! j) = quota_bytes (hw_heap w ! j)"
proof (cases "j = sb_scratch (hx_sandbox ctx) \<and> j < length (hw_heap w)")
  case True
  then show ?thesis using exec_call_own [of ctx w H net c] by (auto simp: scratch_of_def)
next
  case False
  then have "j \<noteq> sb_scratch (hx_sandbox ctx) \<or> length (hw_heap w) \<le> sb_scratch (hx_sandbox ctx)"
    by auto
  then show ?thesis
    by (cases c) (auto simp: import_emit_def scratch_write_heap split_beta list_update_beyond
        split: sum.split)
qed

lemma exec_call_memfs_inv:
  assumes "memfs_inv (hw_heap w ! j)" and "j < length (hw_heap w)"
    and "call_fits (effective_quota (quota_bytes (hw_heap w ! j))) c"
  shows "memfs_inv (hw_heap (snd (exec_call H net ctx c w)) ! j)"
proof (cases "j = sb_scratch (hx_sandbox ctx)")
  case True
  then show ?thesis
    using exec_call_own [of ctx w H net c] assms memfs_inv_write [OF assms(1)]
    by (auto simp: scratch_of_def)
next
  case False
  with assms(1) show ?thesis by (simp add: exec_call_other)
qed

lemma exec_call_log:
  "\<exists>ls. hw_log (snd (exec_call H net ctx c w)) = hw_log w @ ls \<and>
     (\<forall>l\<in>set ls. fst (snd l) = ''ember::guest::'' @ as_str (hx_tenant ctx))"
  by (cases c) (auto simp: import_emit_def split_beta split: sum.split)

lemma exec_call_wire:
  "\<exists>rs. hw_wire (snd (exec_call H net ctx c w)) = hw_wire w @ rs \<and>
     (\<forall>r\<in>set rs. fst r = hx_tenant ctx \<and>
        (\<exists>req. c = CallSend req \<and> send_prepare (hx_http ctx) req = Inr (snd r)))"
  by (cases c) (auto simp: import_emit_def split_beta split: sum.split)

lemmas exec_call_confined = exec_call_other exec_call_quota exec_call_memfs_inv exec_call_log
  exec_call_wire

text \<open>What any number of calls through one context may have changed.\<close>

definition confined :: "host_ctx \<Rightarrow> host_call set \<Rightarrow> host_world \<Rightarrow> host_world \<Rightarrow> bool" where
  "confined ctx C w w' \<longleftrightarrow>
     length (hw_heap w') = length (hw_heap w) \<and>
     (\<forall>j. j \<noteq> sb_scratch (hx_sandbox ctx) \<longrightarrow> hw_heap w' ! j = hw_heap w ! j) \<and>
     (\<forall>j. quota_bytes (hw_heap w' ! j) = quota_bytes (hw_heap w ! j)) \<and>
     (\<exists>ls. hw_log w' = hw_log w @ ls \<and>
        (\<forall>l\<in>set ls. fst (snd l) = ''ember::guest::'' @ as_str (hx_tenant ctx))) \<and>
     (\<exists>rs. hw_wire w' = hw_wire w @ rs \<and>
        (\<forall>r\<in>set rs. fst r = hx_tenant ctx \<and>
           (\<exists>req. CallSend req \<in> C \<and> send_prepare (hx_http ctx) req = Inr (snd r))))"

lemma confined_refl: "confined ctx C w w"
  by (auto simp: confined_def)

lemma confined_call: "c \<in> C \<Longrightarrow> confined ctx C w (snd (exec_call H net ctx c w))"
  using exec_call_log [of H net ctx c w] exec_call_wire [of H net ctx c w]
  by (simp add: confined_def exec_call_other exec_call_quota) blast

lemma confined_trans:
  assumes "confined ctx C w w'" "confined ctx C w' w''"
  shows "confined ctx C w w''"
proof -
  from assms obtain ls ls' where log: "hw_log w' = hw_log w @ ls" "hw_log w'' = hw_log w' @ ls'"
    and lok: "\<forall>l\<in>set (ls @ ls'). fst (snd l) = ''ember::guest::'' @ as_str (hx_tenant ctx)"
    unfolding confined_def by fastforce
  from assms obtain rs rs' where wire: "hw_wire w' = hw_wire w @ rs" "hw_wire w'' = hw_wire w' @ rs'"
    and wok: "\<forall>r\<in>set (rs @ rs'). fst r = hx_tenant ctx \<and>
        (\<exists>req. CallSend req \<in> C \<and> send_prepare (hx_http ctx) req = Inr (snd r))"
    unfolding confined_def by (metis Un_iff set_append)
  from log have "hw_log w'' = hw_log w @ ls @ ls'" by simp
  moreover from wire have "hw_wire w'' = hw_wire w @ rs @ rs'" by simp
  ultimately show ?thesis using assms lok wok unfolding confined_def by metis
qed

lemma exec_calls_Cons [simp]:
  "exec_calls H net ctx [] w = w"
  "exec_calls H net ctx (c # cs) w = exec_calls H net ctx cs (snd (exec_call H net ctx c w))"
  by (simp_all add: exec_calls_def)

lemma exec_calls_confined: "set cs \<subseteq> C \<Longrightarrow> confined ctx C w (exec_calls H net ctx cs w)"
proof (induction cs arbitrary: w)
  case (Cons c cs)
  then have "confined ctx C w (snd (exec_call H net ctx c w))" by (simp add: confined_call)
  with Cons show ?case by (auto intro: confined_trans)
qed (simp add: confined_refl)

lemma exec_calls_memfs_inv:
  "memfs_inv (hw_heap w ! j) \<Longrightarrow> j < length (hw_heap w) \<Longrightarrow>
     list_all (call_fits (effective_quota (quota_bytes (hw_heap w ! j)))) cs \<Longrightarrow>
     memfs_inv (hw_heap (exec_calls H net ctx cs w) ! j)"
  by (induction cs arbitrary: w) (auto simp: exec_call_memfs_inv exec_call_quota)

section \<open>Lemmas on conversions\<close>

lemma http_lib_okD:
  assumes "http_lib_ok H"
  shows "status_valid H s \<longleftrightarrow> 100 \<le> unat s \<and> unat s \<le> 999"
    and "add_header H hs n v = Some hs' \<Longrightarrow> hs' = hs @ [(n, v)]"
    and "status_valid H s \<Longrightarrow>
      finish_response H s hs b = Inr \<lparr>rs_status = s, rs_headers = hs, rs_body = b\<rparr>"
  using assms unfolding http_lib_ok_def by blast+

definition parse_header :: "http_lib \<Rightarrow> string \<times> string \<Rightarrow> (string \<times> bytes) option" where
  "parse_header H h =
     (case (name_from_bytes H (fst h), value_from_str H (snd h)) of
        (Some n, Some v) \<Rightarrow> Some (n, v) | _ \<Rightarrow> None)"

lemma build_headers_Done:
  assumes "http_lib_ok H" "build_headers H out hs = Done r"
  shows "r = out @ List.map_filter (parse_header H) hs"
  using assms(2)
proof (induction hs arbitrary: out)
  case (Cons h rest)
  obtain name v where h: "h = (name, v)" by fastforce
  show ?case
  proof (cases "parse_header H h")
    case None
    with Cons h show ?thesis by (auto simp: parse_header_def map_filter_simps split: option.splits)
  next
    case (Some nv)
    with Cons.prems h obtain next_hs where "add_header H out (fst nv) (snd nv) = Some next_hs"
      and "build_headers H next_hs rest = Done r"
      by (auto simp: parse_header_def split: option.splits)
    moreover from this(1) have "next_hs = out @ [nv]"
      by (auto dest: http_lib_okD(2) [OF assms(1)])
    ultimately have "r = (out @ [nv]) @ List.map_filter (parse_header H) rest" using Cons.IH by blast
    with Some show ?thesis by (simp add: map_filter_simps)
  qed
qed (simp add: map_filter_simps)

lemma response_from_status_valid: "response_from H g = Done r \<Longrightarrow> status_valid H (gs_status g)"
  by (auto simp: response_from_def split: if_splits)

lemma response_from_Done:
  assumes "http_lib_ok H" "response_from H g = Done r"
  shows "r = \<lparr>rs_status = gs_status g, rs_headers = List.map_filter (parse_header H) (gs_headers g),
    rs_body = gs_body g\<rparr>"
  using assms response_from_status_valid [OF assms(2)]
  by (auto simp: response_from_def http_lib_okD(3) split: if_splits outcome.splits
      dest!: build_headers_Done [OF assms(1)])

lemma map_filter_by_name:
  "map snd (filter (\<lambda>h. fst h = name)
     (List.map_filter (\<lambda>(n, v). map_option (\<lambda>s. (n, s)) (f v)) hs)) =
   List.map_filter f (map snd (filter (\<lambda>h. fst h = name) hs))"
  by (induction hs) (auto simp: map_filter_simps split: option.splits)

text \<open>An instance of the library: visible ASCII and tab in values, token characters unchecked, no
  limit on the number of headers.\<close>

definition ascii_http :: http_lib where
  "ascii_http =
     \<lparr>value_to_str = (\<lambda>v. if list_all (\<lambda>b. (32 \<le> b \<and> b < 127) \<or> b = 9) v
                          then Some (map (\<lambda>b. char_of (unat b)) v) else None),
      name_from_bytes = (\<lambda>n. if n = [] then None else Some (to_ascii_lowercase n)),
      value_from_str = (\<lambda>s. Some (map (\<lambda>c. of_nat (byte c)) s)),
      status_valid = (\<lambda>s. 100 \<le> unat s \<and> unat s \<le> 999),
      add_header = (\<lambda>hs n v. Some (hs @ [(n, v)])),
      finish_response = (\<lambda>s hs b. Inr \<lparr>rs_status = s, rs_headers = hs, rs_body = b\<rparr>)\<rparr>"

lemma ascii_http_ok: "http_lib_ok ascii_http"
  by (simp add: http_lib_ok_def ascii_http_def)

section \<open>Properties\<close>

text \<open>C8: A guest is confined to its tenant. Whatever sequence of imports a guest calls through the
  context built for its sandbox, every other filesystem stays as it was, its own filesystem keeps
  exact accounting within its quota, every log line is written under the tenant's target, and
  every request that left the process came from one of its calls, passed the tenant's bridge and
  is attributed to the tenant.\<close>

theorem guest_confined:
  assumes "host_ctx_new os sb br = Inr ctx"
    and "sb_scratch sb < length (hw_heap w)" and "memfs_inv (hw_heap w ! sb_scratch sb)"
    and "list_all (call_fits (effective_quota (quota_bytes (hw_heap w ! sb_scratch sb)))) calls"
  shows "let w' = exec_calls H net ctx calls w; fs = hw_heap w' ! sb_scratch sb in
    (\<forall>j. j \<noteq> sb_scratch sb \<longrightarrow> hw_heap w' ! j = hw_heap w ! j) \<and>
    unat (used fs) = assoc_weight length (files fs) \<and>
    unat (used fs) \<le> unat (quota_bytes (hw_heap w ! sb_scratch sb)) \<and>
    (\<exists>ls. hw_log w' = hw_log w @ ls \<and>
       (\<forall>l\<in>set ls. fst (snd l) = ''ember::guest::'' @ as_str (sb_tenant sb))) \<and>
    (\<exists>rs. hw_wire w' = hw_wire w @ rs \<and>
       (\<forall>r\<in>set rs. fst r = sb_tenant sb \<and>
          (\<exists>req. CallSend req \<in> set calls \<and> send_prepare br req = Inr (snd r))))"
proof -
  let ?w' = "exec_calls H net ctx calls w"
  have conf: "confined ctx (set calls) w ?w'" by (rule exec_calls_confined) simp
  have inv: "memfs_inv (hw_heap ?w' ! sb_scratch sb)"
    using exec_calls_memfs_inv assms(2-4) by blast
  moreover have "quota_bytes (hw_heap ?w' ! sb_scratch sb) = quota_bytes (hw_heap w ! sb_scratch sb)"
    using conf by (simp add: confined_def)
  ultimately show ?thesis
    using conf effective_quota_le [of "quota_bytes (hw_heap w ! sb_scratch sb)"]
    unfolding Let_def confined_def memfs_inv_def host_ctx_new_okD [OF assms(1)]
    by (auto intro: le_trans)
qed

definition demo_sandbox :: sandbox where
  "demo_sandbox =
     \<lparr>sb_tenant = TenantId ''echo'', sb_limits = sandbox_limits_default, sb_config = [],
      sb_readonly_preopens = [], sb_scratch = 0\<rparr>"

definition demo_os :: wasi_os where
  "demo_os = \<lparr>os_metadata = (\<lambda>_. Inr True), os_open = (\<lambda>_. Inr 3), os_preopen = (\<lambda>_ _. Inr ())\<rparr>"

theorem guest_confined_witness:
  "\<exists>ctx. host_ctx_new demo_os demo_sandbox demo_bridge = Inr ctx \<and>
     (let w = \<lparr>hw_heap = [memfs_new 8, memfs_new 8], hw_log = [], hw_wire = []\<rparr>;
          w' = exec_calls ascii_http (\<lambda>_. Inl ''down'') ctx [CallScratchWrite ''k'' [1, 2], CallEmit LogInfo ''hi''] w in
      hw_heap w' ! 1 = memfs_new 8 \<and> unat (used (hw_heap w' ! 0)) \<le> 8)"
proof -
  define w where "w = \<lparr>hw_heap = [memfs_new 8, memfs_new 8], hw_log = [], hw_wire = []\<rparr>"
  obtain ctx where ctx: "host_ctx_new demo_os demo_sandbox demo_bridge = Inr ctx"
    by (simp add: host_ctx_new_def wasi_new_def demo_sandbox_def Let_def)
  have "sb_scratch demo_sandbox < length (hw_heap w)"
    and "memfs_inv (hw_heap w ! sb_scratch demo_sandbox)"
    and "list_all (call_fits (effective_quota (quota_bytes (hw_heap w ! sb_scratch demo_sandbox))))
      [CallScratchWrite ''k'' [1, 2], CallEmit LogInfo ''hi'']"
    by (simp_all add: w_def demo_sandbox_def memfs_inv_new write_fits_def effective_quota_def)
  from guest_confined [OF ctx this, of ascii_http "\<lambda>_. Inl ''down''"]
  have "hw_heap (exec_calls ascii_http (\<lambda>_. Inl ''down'') ctx [CallScratchWrite ''k'' [1, 2], CallEmit LogInfo ''hi''] w) ! 1
      = hw_heap w ! 1"
    and "unat (used (hw_heap (exec_calls ascii_http (\<lambda>_. Inl ''down'') ctx
        [CallScratchWrite ''k'' [1, 2], CallEmit LogInfo ''hi''] w) ! 0)) \<le> unat (quota_bytes (hw_heap w ! 0))"
    unfolding Let_def by (simp_all add: demo_sandbox_def del: exec_calls_Cons)
  with ctx show ?thesis unfolding w_def Let_def by (auto simp del: exec_calls_Cons)
qed

text \<open>Requests reach the guest as they were sent. The conversion never fails, keeps method, path,
  query and body, and for every header name the guest sees exactly the readable values of that
  name, each as often as it was sent and in the same order.\<close>

theorem request_preserved:
  "\<exists>g. request_try_from H req = Inr g \<and> gr_method g = rq_method req \<and>
     gr_path g = uri_path (rq_uri req) \<and> gr_query g = uri_query (rq_uri req) \<and>
     gr_body g = Some (rq_body req) \<and>
     (\<forall>name. map snd (filter (\<lambda>h. fst h = name) (gr_headers g)) =
        List.map_filter (value_to_str H) (map snd (filter (\<lambda>h. fst h = name) (rq_headers req))))"
  by (cases "uri_query (rq_uri req)") (auto simp: request_try_from_def map_filter_by_name)



text \<open>Scratch errors seen by a guest. A write fails exactly when \<open>MemFs::write\<close> fails, and every
  failure is reported as \<open>quota-exceeded\<close>: an empty or absolute path, too, never as the
  \<open>invalid-path\<close> the interface has for it; a failed write changes nothing.\<close>

theorem scratch_write_errors:
  "fst (import_scratch_write ctx p d heap) =
     (case fst (memfs_write (scratch_of ctx heap) p d) of Inr _ \<Rightarrow> Inr () | Inl _ \<Rightarrow> Inl QuotaExceeded) \<and>
   fst (import_scratch_write ctx [] d heap) = Inl QuotaExceeded \<and>
   fst (import_scratch_write ctx (CHR ''/'' # p) d heap) = Inl QuotaExceeded \<and>
   snd (import_scratch_write ctx [] d heap) = heap"
proof -
  have "fst (memfs_write fs q d) = Inl e \<Longrightarrow> \<exists>m. e = LimitExceeded m" for fs q e
    by (auto simp: memfs_write_def Let_def split: if_splits)
  then have "fst (import_scratch_write ctx q d heap) =
     (case fst (memfs_write (scratch_of ctx heap) q d) of Inr _ \<Rightarrow> Inr () | Inl _ \<Rightarrow> Inl QuotaExceeded)" for q
    by (cases "fst (memfs_write (scratch_of ctx heap) q d)")
      (force simp: import_scratch_write_def split_beta Let_def)+
  moreover have "memfs_write fs [] d = (Inl (LimitExceeded ''invalid scratch path ``''), fs)"
    and "\<exists>e. fst (memfs_write fs (CHR ''/'' # p) d) = Inl e" for fs
    by (simp_all add: memfs_write_def is_absolute_def)
  moreover from this(2) obtain e where "fst (memfs_write (scratch_of ctx heap) (CHR ''/'' # p) d) = Inl e" ..
  ultimately show ?thesis by (simp add: scratch_write_heap scratch_of_def)
qed

end
