(* ===== verification/Instance_Pool.thy ===== *)
theory Instance_Pool
  imports Ember_Config Host_Linker
begin

text \<open>
  The engine settings of \<open>src/src/runtime/engine.rs\<close> and the per-tenant pool of prepared instances of
  \<open>src/src/runtime/invoke.rs\<close>.

  Wasmtime is not part of the repository: \<open>wasm_lib\<close> has what the source calls of it, compiling a
  component to a value of type \<open>'c\<close>, instantiating it to the guest state \<open>'g\<close> and running the
  handler on that state. \<open>Store::set_epoch_deadline\<close> arms a deadline the given number of ticks beyond the
  current epoch, so a prepared instance carries the absolute epoch at which it traps.
  The pool's mutex makes \<open>acquire\<close> and \<open>release\<close> atomic.
\<close>

section \<open>Engine settings\<close>

record engine_cap =
  cap_max_memory_bytes :: usize
  cap_max_instances :: usize
  cap_threads :: usize

record engine_builder =
  eb_cap :: engine_cap
  eb_epoch_interval :: duration

definition engine_builder_new :: "engine_cap \<Rightarrow> engine_builder" where
  "engine_builder_new cap = \<lparr>eb_cap = cap, eb_epoch_interval = from_millis 100\<rparr>"

definition with_epoch_interval :: "engine_builder \<Rightarrow> duration \<Rightarrow> engine_builder" where
  "with_epoch_interval b interval = b\<lparr>eb_epoch_interval := interval\<rparr>"

definition engine_builder_from_config :: "engine_config \<Rightarrow> engine_builder" where
  "engine_builder_from_config c =
     with_epoch_interval
       (engine_builder_new \<lparr>cap_max_memory_bytes = eng_max_memory_bytes c,
          cap_max_instances = eng_max_instances c, cap_threads = eng_threads c\<rparr>)
       (from_millis (eng_epoch_interval_ms c))"

text \<open>The settings of \<open>EngineBuilder::build\<close> that depend on the capacity, or that the runtime's
  behaviour depends on.\<close>

record wasm_config =
  wc_async_support :: bool
  wc_component_model :: bool
  wc_epoch_interruption :: bool
  wc_total_memory_pages :: usize
  wc_instance_memory_limit :: usize
  wc_total_instances :: usize
  wc_max_tables_per_instance :: nat

definition wasm_config_of :: "engine_builder \<Rightarrow> wasm_config" where
  "wasm_config_of b =
     \<lparr>wc_async_support = True, wc_component_model = True, wc_epoch_interruption = True,
      wc_total_memory_pages = max (cap_max_memory_bytes (eb_cap b) div (64 * 1024)) 1,
      wc_instance_memory_limit = cap_max_memory_bytes (eb_cap b),
      wc_total_instances = cap_max_instances (eb_cap b), wc_max_tables_per_instance = 32\<rparr>"

text \<open>Wasmtime, as the source uses it.\<close>

record ('c, 'g) wasm_lib =
  wl_engine_new :: "wasm_config \<Rightarrow> string + unit"
  wl_linker_new :: "string + unit"
  wl_compile :: "bytes \<Rightarrow> string + 'c"
  wl_instantiate :: "'c \<Rightarrow> string + 'g"
  wl_handle :: "'g \<Rightarrow> guest_request \<Rightarrow> 'g guest_prog"

definition engine_build :: "('c, 'g) wasm_lib \<Rightarrow> engine_builder \<Rightarrow> unit result" where
  "engine_build W b = map_err Wasm (wl_engine_new W (wasm_config_of b))"

definition build_linker :: "('c, 'g) wasm_lib \<Rightarrow> unit result" where
  "build_linker W = map_err Wasm (wl_linker_new W)"

definition build_default_engine :: "('c, 'g) wasm_lib \<Rightarrow> unit result" where
  "build_default_engine W =
     engine_build W (engine_builder_new
       \<lparr>cap_max_memory_bytes = 256 * 1024 * 1024, cap_max_instances = 8, cap_threads = 2\<rparr>)"

definition engine_limits :: "sandbox_limits \<Rightarrow> usize \<times> usize" where
  "engine_limits l = (lim_max_memory_bytes l, lim_max_instances l)"

text \<open>The tasks the runtime spawns: a ticker that bumps the engine's epoch at every interval, the reload
  loop with its interval, and a task that stays pending for ever, which is what an epoch interval of
  zero spawns.\<close>

datatype background_task = EpochTicker duration | ReloadLoop duration | PendingTask

definition spawn_epoch_ticker :: "engine_builder \<Rightarrow> background_task" where
  "spawn_epoch_ticker b =
     (if eb_epoch_interval b = 0 then PendingTask else EpochTicker (eb_epoch_interval b))"

section \<open>Prepared instances\<close>

record 'g prepared =
  pr_digest :: string
  pr_ctx :: host_ctx
  pr_deadline :: nat
  pr_guest :: 'g

record 'g instance_pool =
  pool_inner :: "'g prepared list"
  pool_cap :: usize

definition pool_new :: "usize \<Rightarrow> 'g instance_pool" where
  "pool_new cap = \<lparr>pool_inner = [], pool_cap = max cap 1\<rparr>"

text \<open>The scan of \<open>acquire\<close>: pop from the front, drop what has another digest.\<close>

fun pool_scan :: "string \<Rightarrow> 'g prepared list \<Rightarrow> 'g prepared option \<times> 'g prepared list" where
  "pool_scan digest [] = (None, [])"
| "pool_scan digest (p # queue) =
     (if pr_digest p = digest then (Some p, queue) else pool_scan digest queue)"

definition pool_acquire ::
  "('c, 'g) wasm_lib \<Rightarrow> nat \<Rightarrow> 'c \<Rightarrow> loaded \<Rightarrow> host_ctx \<Rightarrow> 'g instance_pool \<Rightarrow>
   'g prepared result \<times> 'g instance_pool"
where
  "pool_acquire W epoch compiled l ctx pool =
     (case pool_scan (ld_digest l) (pool_inner pool) of
        (Some p, queue) \<Rightarrow> (Inr p, pool\<lparr>pool_inner := queue\<rparr>)
      | (None, queue) \<Rightarrow>
          ((case wl_instantiate W compiled of
              Inl e \<Rightarrow> Inl (Wasm e)
            | Inr g \<Rightarrow>
                Inr \<lparr>pr_digest = ld_digest l, pr_ctx = ctx,
                     pr_deadline =
                       epoch + unat (max (lim_max_epoch_delta (sb_limits (hx_sandbox ctx))) 1),
                     pr_guest = g\<rparr>),
           pool\<lparr>pool_inner := queue\<rparr>))"

definition pool_release :: "'g prepared \<Rightarrow> 'g instance_pool \<Rightarrow> 'g instance_pool" where
  "pool_release p pool =
     (if length (pool_inner pool) < unat (pool_cap pool)
      then pool\<lparr>pool_inner := pool_inner pool @ [p]\<rparr> else pool)"

definition pool_capacity :: "sandbox_limits \<Rightarrow> engine_cap \<Rightarrow> usize" where
  "pool_capacity l cap = min (lim_max_instances l) (cap_max_instances cap)"

section \<open>Lemmas\<close>

definition pool_inv :: "'g instance_pool \<Rightarrow> bool" where
  "pool_inv pool \<longleftrightarrow> 0 < pool_cap pool \<and> length (pool_inner pool) \<le> unat (pool_cap pool)"

lemma pool_new_inv: "pool_inv (pool_new cap)"
proof -
  have "(0::usize) < max cap 1" by (rule less_le_trans [of _ 1]) simp_all
  then show ?thesis by (simp add: pool_inv_def pool_new_def)
qed

lemma pool_scan_spec:
  "pool_scan d q = (r, q') \<Longrightarrow>
     (case r of
        Some p \<Rightarrow> (\<exists>stale. q = stale @ p # q' \<and> pr_digest p = d \<and> (\<forall>x\<in>set stale. pr_digest x \<noteq> d))
      | None \<Rightarrow> q' = [] \<and> (\<forall>x\<in>set q. pr_digest x \<noteq> d))"
proof (induction d q rule: pool_scan.induct)
  case (2 d p queue)
  show ?case
  proof (cases "pr_digest p = d")
    case True
    with 2 show ?thesis by force
  next
    case False
    with 2 have "pool_scan d queue = (r, q')" by simp
    with 2 False have IH: "case r of
        Some p \<Rightarrow> (\<exists>stale. queue = stale @ p # q' \<and> pr_digest p = d \<and> (\<forall>x\<in>set stale. pr_digest x \<noteq> d))
      | None \<Rightarrow> q' = [] \<and> (\<forall>x\<in>set queue. pr_digest x \<noteq> d)" by blast
    show ?thesis
    proof (cases r)
      case None
      with IH False show ?thesis by simp
    next
      case (Some x)
      with IH obtain stale where "queue = stale @ x # q'" "pr_digest x = d"
        "\<forall>y\<in>set stale. pr_digest y \<noteq> d" by auto
      with Some False show ?thesis by (auto intro: exI [of _ "p # stale"])
    qed
  qed
qed auto

lemma pool_scan_length: "length (snd (pool_scan d q)) \<le> length q"
  by (induction d q rule: pool_scan.induct) auto

lemma pool_scan_subset: "set (snd (pool_scan d q)) \<subseteq> set q"
  by (induction d q rule: pool_scan.induct) auto

lemma pool_acquire_pool:
  "snd (pool_acquire W ep c l ctx pool) =
     pool\<lparr>pool_inner := snd (pool_scan (ld_digest l) (pool_inner pool))\<rparr>"
  by (auto simp: pool_acquire_def split: prod.splits option.splits)

lemma pool_acquire_inv: "pool_inv pool \<Longrightarrow> pool_inv (snd (pool_acquire W ep c l ctx pool))"
  using pool_scan_length le_trans by (fastforce simp: pool_inv_def pool_acquire_pool)

lemma pool_release_inv: "pool_inv pool \<Longrightarrow> pool_inv (pool_release p pool)"
  by (auto simp: pool_inv_def pool_release_def)

lemma pool_release_subset: "set (pool_inner (pool_release p pool)) \<subseteq> insert p (set (pool_inner pool))"
  by (auto simp: pool_release_def)

lemma pool_release_cap [simp]: "pool_cap (pool_release p pool) = pool_cap pool"
  by (simp add: pool_release_def)

text \<open>An acquired instance is a pooled one of the wanted digest, or a new one with the given context.\<close>

lemma pool_acquire_cases:
  assumes "pool_acquire W ep c l ctx pool = (Inr p, pool')"
  obtains (warm) stale where "pool_inner pool = stale @ p # pool_inner pool'"
      "pr_digest p = ld_digest l" "\<forall>x\<in>set stale. pr_digest x \<noteq> ld_digest l"
  | (cold) g where "wl_instantiate W c = Inr g" "pool_inner pool' = []"
      "\<forall>x\<in>set (pool_inner pool). pr_digest x \<noteq> ld_digest l"
      "p = \<lparr>pr_digest = ld_digest l, pr_ctx = ctx,
            pr_deadline = ep + unat (max (lim_max_epoch_delta (sb_limits (hx_sandbox ctx))) 1),
            pr_guest = g\<rparr>"
proof (cases "pool_scan (ld_digest l) (pool_inner pool)")
  case (Pair r queue)
  note scan = pool_scan_spec [OF Pair]
  show thesis
  proof (cases r)
    case None
    with assms Pair obtain g where "wl_instantiate W c = Inr g"
      by (auto simp: pool_acquire_def split: sum.splits)
    with assms Pair None scan show thesis by (intro cold [of g]) (auto simp: pool_acquire_def)
  next
    case (Some q)
    with assms Pair have "p = q" "pool_inner pool' = queue" by (auto simp: pool_acquire_def)
    with Some scan warm show thesis by auto
  qed
qed

section \<open>The pool interface\<close>

text \<open>
  What the runtime relies on when it keeps instances between requests: a taken instance has the
  wanted key and was in the pool, giving one back adds at most that one, and the pool never holds
  more than its capacity. Stated over an arbitrary pool, with the runs of \<open>take\<close> and \<open>give\<close>.
\<close>

datatype 'p pool_op = TakeOp string | GiveOp 'p

fun pool_step ::
  "(string \<Rightarrow> 's \<Rightarrow> 'p option \<times> 's) \<Rightarrow> ('p \<Rightarrow> 's \<Rightarrow> 's) \<Rightarrow> 'p pool_op \<Rightarrow> 's \<Rightarrow> 's" where
  "pool_step take_op give_op (TakeOp d) s = snd (take_op d s)"
| "pool_step take_op give_op (GiveOp p) s = give_op p s"

locale prepared_store =
  fixes take_op :: "string \<Rightarrow> 's \<Rightarrow> 'p option \<times> 's"
    and give_op :: "'p \<Rightarrow> 's \<Rightarrow> 's"
    and contents :: "'s \<Rightarrow> 'p list"
    and capacity :: "'s \<Rightarrow> nat"
    and key :: "'p \<Rightarrow> string"
    and inv :: "'s \<Rightarrow> bool"
  assumes take_key: "take_op d s = (Some p, s') \<Longrightarrow> key p = d \<and> p \<in> set (contents s)"
    and take_contents: "set (contents (snd (take_op d s))) \<subseteq> set (contents s)"
    and take_drops_stale: "fst (take_op d s) = None \<Longrightarrow> contents (snd (take_op d s)) = []"
    and give_contents: "set (contents (give_op p s)) \<subseteq> insert p (set (contents s))"
    and inv_take: "inv s \<Longrightarrow> inv (snd (take_op d s))"
    and inv_give: "inv s \<Longrightarrow> inv (give_op p s)"
    and inv_bound: "inv s \<Longrightarrow> length (contents s) \<le> capacity s"
    and capacity_take: "capacity (snd (take_op d s)) = capacity s"
    and capacity_give: "capacity (give_op p s) = capacity s"
begin

lemma run_inv: "inv s \<Longrightarrow> inv (fold (pool_step take_op give_op) ops s)"
proof (induction ops arbitrary: s)
  case (Cons x ops)
  then show ?case by (cases x) (auto simp: inv_take inv_give)
qed simp

lemma run_capacity: "capacity (fold (pool_step take_op give_op) ops s) = capacity s"
proof (induction ops arbitrary: s)
  case (Cons x ops)
  then show ?case by (cases x) (auto simp: capacity_take capacity_give)
qed simp

lemma run_bound: "inv s \<Longrightarrow> length (contents (fold (pool_step take_op give_op) ops s)) \<le> capacity s"
  using inv_bound [OF run_inv] by (simp add: run_capacity)

text \<open>A pool only ever holds what it was given.\<close>

lemma run_contents:
  "set (contents (fold (pool_step take_op give_op) ops s)) \<subseteq> set (contents s) \<union> {p. GiveOp p \<in> set ops}"
proof (induction ops arbitrary: s)
  case (Cons x ops)
  then show ?case
    using take_contents give_contents by (cases x) fastforce+
qed simp

end

definition pool_take :: "string \<Rightarrow> 'g instance_pool \<Rightarrow> 'g prepared option \<times> 'g instance_pool" where
  "pool_take d pool =
     (let (r, queue) = pool_scan d (pool_inner pool) in (r, pool\<lparr>pool_inner := queue\<rparr>))"

interpretation ipool: prepared_store pool_take pool_release pool_inner
  "\<lambda>pool. unat (pool_cap pool)" pr_digest pool_inv
proof (unfold_locales, goal_cases)
  case (1 d s p s')
  then show ?case
    using pool_scan_spec [of d "pool_inner s"] by (auto simp: pool_take_def split: prod.splits)
next
  case (2 d s)
  then show ?case using pool_scan_subset [of d "pool_inner s"] by (simp add: pool_take_def split_beta)
next
  case (3 d s)
  then show ?case
    using pool_scan_spec [of d "pool_inner s" None "snd (pool_scan d (pool_inner s))"]
    by (simp add: pool_take_def split_beta) (metis prod.collapse)
next
  case (5 s d)
  then show ?case
    using pool_scan_length [of d "pool_inner s"] by (simp add: pool_inv_def pool_take_def split_beta)
next
  case (6 s p)
  then show ?case by (rule pool_release_inv)
next
  case (7 s)
  then show ?case by (simp add: pool_inv_def)
qed (simp_all add: pool_release_subset pool_take_def split_beta)

section \<open>Properties\<close>


definition unit_wasm :: "(unit, nat) wasm_lib" where
  "unit_wasm =
     \<lparr>wl_engine_new = (\<lambda>_. Inr ()), wl_linker_new = Inr (), wl_compile = (\<lambda>_. Inr ()),
      wl_instantiate = (\<lambda>_. Inr 0),
      wl_handle = (\<lambda>n req. GReturn \<lparr>gs_status = 200, gs_headers = [], gs_body = []\<rparr> (Suc n))\<rparr>"

definition demo_ctx :: host_ctx where
  "demo_ctx =
     \<lparr>hx_tenant = TenantId ''echo'', hx_sandbox = demo_sandbox, hx_config = [],
      hx_wasi = \<lparr>wx_inherit_stdio = True, wx_env = [], wx_preopens = []\<rparr>,
      hx_http = demo_bridge, hx_egress = demo_bridge\<rparr>"

definition demo_instance :: "string \<Rightarrow> nat prepared" where
  "demo_instance d = \<lparr>pr_digest = d, pr_ctx = demo_ctx, pr_deadline = 9, pr_guest = 5\<rparr>"


text \<open>Pools stay within their capacity and hold only what was released. From a new pool, after any
  sequence of acquisitions and releases, at most \<open>max cap 1\<close> instances are kept, and each of
  them was released into it.\<close>

theorem pool_bounded:
  "length (pool_inner (fold (pool_step pool_take pool_release) ops (pool_new cap))) \<le> max 1 (unat cap) \<and>
   set (pool_inner (fold (pool_step pool_take pool_release) ops (pool_new cap))) \<subseteq> {p. GiveOp p \<in> set ops}"
proof -
  have "unat (pool_cap (pool_new cap)) = max 1 (unat cap)"
    by (auto simp: pool_new_def max_def word_le_nat_alt)
  then show ?thesis
    using ipool.run_bound [OF pool_new_inv, of ops cap] ipool.run_contents [of ops "pool_new cap"]
    by (simp add: pool_new_def)
qed

end
