(* ===== verification/Ember_Telemetry.thy ===== *)
theory Ember_Telemetry
  imports Ember_Error
begin

text \<open>
  Metrics and log setup of \<open>src/src/telemetry.rs\<close>. The \<open>metrics\<close> crate hands every sample to the
  installed recorder; the model keeps the samples in the order they are emitted, with the metric
  names described so far and whether the Prometheus recorder is installed (the \<open>OnceLock\<close>).
  Histogram values are whole microseconds. Building a log filter, installing a subscriber and
  installing or rendering the recorder belong to other crates and are arguments.
\<close>

type_synonym labels = "(string \<times> string) list"

datatype sample =
    Histogram string nat labels
  | Counter string nat labels
  | Gauge string nat labels

record telemetry =
  tl_installed :: bool
  tl_described :: "string list"
  tl_samples :: "sample list"

definition telemetry_empty :: telemetry where
  "telemetry_empty = \<lparr>tl_installed = False, tl_described = [], tl_samples = []\<rparr>"

definition install_recorder :: "string + unit \<Rightarrow> telemetry \<Rightarrow> unit result \<times> telemetry" where
  "install_recorder install t =
     (if tl_installed t then (Inr (), t)
      else (case install of
              Inl e \<Rightarrow> (Inl (Config (''metrics recorder: '' @ e)), t)
            | Inr _ \<Rightarrow> (Inr (), t\<lparr>tl_installed := True\<rparr>)))"

definition log_filter :: "string option \<Rightarrow> (string \<Rightarrow> string option) \<Rightarrow> string" where
  "log_filter env_filter env =
     (case env_filter of Some f \<Rightarrow> f
      | None \<Rightarrow> (case env ''EMBER_LOG'' of Some f \<Rightarrow> f
                | None \<Rightarrow> (case env ''RUST_LOG'' of Some f \<Rightarrow> f
                          | None \<Rightarrow> ''ember=info,tower_http=info'')))"

text \<open>\<open>try_new\<close> checks a filter, \<open>try_init filter json\<close> installs the subscriber.\<close>

definition telemetry_init ::
  "(string \<Rightarrow> string + 'f) \<Rightarrow> ('f \<Rightarrow> bool \<Rightarrow> string + unit) \<Rightarrow> string + unit \<Rightarrow>
   (string \<Rightarrow> string option) \<Rightarrow> string option \<Rightarrow> bool \<Rightarrow> telemetry \<Rightarrow> unit result \<times> telemetry"
where
  "telemetry_init try_new try_init install env env_filter json t =
     (let filter = log_filter env_filter env in
      case try_new filter of
        Inl e \<Rightarrow> (Inl (Config (''invalid log filter `'' @ filter @ ''`: '' @ e)), t)
      | Inr f \<Rightarrow>
          (case try_init f json of
             Inl e \<Rightarrow> (Inl (Config (''tracing: '' @ e)), t)
           | Inr _ \<Rightarrow> install_recorder install t))"

definition describe :: "telemetry \<Rightarrow> telemetry" where
  "describe t = t\<lparr>tl_described := tl_described t @
     [''ember.invoke.duration_us'', ''ember.invoke.total'', ''ember.invoke.errors'',
      ''ember.reload.parked'', ''ember.tenant.active_digests'']\<rparr>"

definition render_metrics ::
  "(telemetry \<Rightarrow> string) \<Rightarrow> string + unit \<Rightarrow> telemetry \<Rightarrow> string \<times> telemetry" where
  "render_metrics render install t =
     (case install_recorder install (describe t) of
        (Inr _, t') \<Rightarrow> (render t', t')
      | (Inl _, t') \<Rightarrow> (''# ember metrics unavailable'' @ [CHR 0x0A], t'))"

definition emit_sample :: "sample \<Rightarrow> telemetry \<Rightarrow> telemetry" where
  "emit_sample s t = t\<lparr>tl_samples := tl_samples t @ [s]\<rparr>"

definition as_micros :: "duration \<Rightarrow> nat" where
  "as_micros d = d div 1000"

definition record_invoke :: "string \<Rightarrow> duration \<Rightarrow> u16 \<Rightarrow> telemetry \<Rightarrow> telemetry" where
  "record_invoke digest d st t =
     (let t1 = emit_sample (Histogram ''ember.invoke.duration_us'' (as_micros d) [(''digest'', digest)])
                 (describe t);
          t2 = emit_sample (Counter ''ember.invoke.total'' 1
                 [(''digest'', digest), (''status'', show_word st)]) t1 in
      if st \<ge> 500 then
        emit_sample (Counter ''ember.invoke.errors'' 1 [(''digest'', digest)]) t2
      else t2)"

definition record_parked :: "string \<Rightarrow> usize \<Rightarrow> telemetry \<Rightarrow> telemetry" where
  "record_parked tenant failures t =
     emit_sample (Counter ''ember.reload.parked'' 1
       [(''tenant'', tenant), (''failures'', show_word failures)]) (describe t)"

definition record_reload :: "string \<Rightarrow> string option \<Rightarrow> string \<Rightarrow> telemetry \<Rightarrow> telemetry" where
  "record_reload tenant from to t =
     emit_sample (Gauge ''ember.tenant.active_digests'' 1 [(''tenant'', tenant), (''digest'', to)])
      (emit_sample (Counter ''ember.reload.total'' 1
         [(''tenant'', tenant), (''from'', (case from of Some f \<Rightarrow> f | None \<Rightarrow> ''none'')), (''to'', to)])
        (describe t))"

section \<open>Totals\<close>

text \<open>The value of a counter: the sum of its increments with labels the predicate accepts.\<close>

fun counter_value :: "string \<Rightarrow> (labels \<Rightarrow> bool) \<Rightarrow> sample list \<Rightarrow> nat" where
  "counter_value name P [] = 0"
| "counter_value name P (Counter n k ls # ss) =
     (if n = name \<and> P ls then k else 0) + counter_value name P ss"
| "counter_value name P (_ # ss) = counter_value name P ss"

lemma counter_value_append [simp]:
  "counter_value name P (xs @ ys) = counter_value name P xs + counter_value name P ys"
  by (induction name P xs rule: counter_value.induct) auto

definition invoke_total :: "telemetry \<Rightarrow> nat" where
  "invoke_total t = counter_value ''ember.invoke.total'' (\<lambda>_. True) (tl_samples t)"

definition reload_total :: "string \<Rightarrow> telemetry \<Rightarrow> nat" where
  "reload_total tenant t =
     counter_value ''ember.reload.total'' (\<lambda>ls. (''tenant'', tenant) \<in> set ls) (tl_samples t)"

definition parked_total :: "string \<Rightarrow> telemetry \<Rightarrow> nat" where
  "parked_total tenant t =
     counter_value ''ember.reload.parked'' (\<lambda>ls. (''tenant'', tenant) \<in> set ls) (tl_samples t)"

lemmas record_defs = record_invoke_def record_parked_def record_reload_def emit_sample_def
  describe_def Let_def

lemma invoke_total_record [simp]:
  "invoke_total (record_invoke d dur st t) = Suc (invoke_total t)"
  "invoke_total (record_parked n f t) = invoke_total t"
  "invoke_total (record_reload n from to t) = invoke_total t"
  by (simp_all add: invoke_total_def record_defs)

lemma reload_total_record [simp]:
  "reload_total n (record_invoke d dur st t) = reload_total n t"
  "reload_total n (record_parked m f t) = reload_total n t"
  "reload_total n (record_reload m from to t) = reload_total n t + (if m = n then 1 else 0)"
  by (auto simp: reload_total_def record_defs)

lemma parked_total_record [simp]:
  "parked_total n (record_invoke d dur st t) = parked_total n t"
  "parked_total n (record_parked m f t) = parked_total n t + (if m = n then 1 else 0)"
  "parked_total n (record_reload m from to t) = parked_total n t"
  by (auto simp: parked_total_def record_defs)

lemma install_recorder_stable:
  "tl_installed t \<Longrightarrow> install_recorder i t = (Inr (), t)"
  by (simp add: install_recorder_def)

end
