(* ===== verification/Ember_Runtime.thy ===== *)
theory Ember_Runtime
  imports Instance_Pool Ember_Telemetry
begin

text \<open>
  The runtime facade of \<open>src/src/runtime.rs\<close>: tenants with their active component, assembly from a
  configuration, tenant activation, and the hot-reload pass.

  The record \<open>runtime\<close> holds the fields of \<open>Runtime\<close> and, beside them, the state of the process its
  operations act on: the directory of the content store, the \<open>host_world\<close> of the guests and the
  metrics. A tenant is an \<open>Arc\<close> in the source's map and its fields are cells; here the map holds the
  tenant's current value and an operation on a tenant updates it under its id.

  The clock, the answers of the registry and the order in which a \<open>HashMap\<close> lists its values are
  arguments: \<open>poll_env\<close> gives, for each tenant of a pass, what its pull meets and the instant of its
  swap. Wasmtime is the parameter \<open>W\<close>; \<open>client\<close> is the outcome of building a reqwest client.
\<close>

section \<open>Tenants and the runtime\<close>

record 'c active_component =
  ac_loaded :: loaded
  ac_compiled :: 'c
  ac_digest :: string
  ac_activated_at :: instant

record ('c, 'g) tenant =
  tn_id :: tenant_id
  tn_sandbox :: sandbox
  tn_bridge :: bridge
  tn_source :: component_source
  tn_active :: "'c active_component"
  tn_pool :: "'g instance_pool"
  tn_failures :: usize
  tn_invocations :: u64
  tn_last_swap :: instant

record ('c, 'g) runtime =
  rt_bridge :: bridge
  rt_registry :: registry
  rt_http :: http_config
  rt_bind :: socket_addr
  rt_policy :: hot_reload_policy
  rt_tenants :: "(tenant_id, ('c, 'g) tenant) assoc"
  rt_background :: "background_task list"
  rt_dir :: dir
  rt_world :: host_world
  rt_telemetry :: telemetry

definition runtime_tenant :: "('c, 'g) runtime \<Rightarrow> tenant_id \<Rightarrow> ('c, 'g) tenant option" where
  "runtime_tenant rt tid = assoc_get (rt_tenants rt) tid"

definition snapshot_tenants :: "('c, 'g) runtime \<Rightarrow> ('c, 'g) tenant list" where
  "snapshot_tenants rt = map snd (rt_tenants rt)"

definition tenant_count :: "('c, 'g) runtime \<Rightarrow> nat" where
  "tenant_count rt = length (rt_tenants rt)"

definition put_tenant :: "('c, 'g) tenant \<Rightarrow> ('c, 'g) runtime \<Rightarrow> ('c, 'g) runtime" where
  "put_tenant t rt = rt\<lparr>rt_tenants := assoc_insert (tn_id t) t (rt_tenants rt)\<rparr>"

section \<open>Activation\<close>

text \<open>Compile an artifact and wrap it as a component generation (the common part of \<open>load_tenant\<close> and
  \<open>swap\<close>).\<close>

definition activate ::
  "('c, 'g) wasm_lib \<Rightarrow> instant \<Rightarrow> loaded \<Rightarrow> 'c active_component result" where
  "activate W now l =
     (case wl_compile W (ld_bytes l) of
        Inl e \<Rightarrow> Inl (Wasm e)
      | Inr compiled \<Rightarrow>
          Inr \<lparr>ac_loaded = l, ac_compiled = compiled, ac_digest = ld_digest l, ac_activated_at = now\<rparr>)"

definition load_source ::
  "'r fetch_env \<Rightarrow> (string \<Rightarrow> io_error + bytes) \<Rightarrow> registry \<Rightarrow> component_source \<Rightarrow> dir \<Rightarrow>
   loaded result \<times> dir"
where
  "load_source E read reg source dir =
     (case source of
        SourceOci reference pin \<Rightarrow> registry_pull E reg reference pin dir
      | SourceFile path \<Rightarrow> (from_path (fe_crypto E) (fe_wasm E) read path, dir))"

definition load_tenant ::
  "('c, 'g) wasm_lib \<Rightarrow> string + unit \<Rightarrow> 'r fetch_env \<Rightarrow> (string \<Rightarrow> io_error + bytes) \<Rightarrow> instant \<Rightarrow>
   tenant_config \<Rightarrow> ('c, 'g) runtime \<Rightarrow> unit result \<times> ('c, 'g) runtime"
where
  "load_tenant W client E read now cfg rt =
     (case tenant_new (tc_name cfg) of
        Inl e \<Rightarrow> (Inl e, rt)
      | Inr tid \<Rightarrow>
          (case sandbox_new tid (tc_limits cfg) (tc_config cfg) (hw_heap (rt_world rt)) of
             (Inl e, _) \<Rightarrow> (Inl e, rt)
           | (Inr sb, heap) \<Rightarrow>
               (let rt1 = rt\<lparr>rt_world := (rt_world rt)\<lparr>hw_heap := heap\<rparr>\<rparr> in
                case bridge_new client (sandbox_egress_policy sb) (lim_max_body_bytes (tc_limits cfg)) of
                  Inl e \<Rightarrow> (Inl e, rt1)
                | Inr br \<Rightarrow>
                    (case load_source E read (rt_registry rt) (tc_component cfg) (rt_dir rt) of
                       (Inl e, dir) \<Rightarrow> (Inl e, rt1\<lparr>rt_dir := dir\<rparr>)
                     | (Inr l, dir) \<Rightarrow>
                         (let rt2 = rt1\<lparr>rt_dir := dir\<rparr> in
                          case ensure_contract l of
                            Inl e \<Rightarrow> (Inl e, rt2)
                          | Inr _ \<Rightarrow>
                              (case activate W now l of
                                 Inl e \<Rightarrow> (Inl e, rt2)
                               | Inr active \<Rightarrow>
                                   (Inr (),
                                    (put_tenant \<lparr>tn_id = tid, tn_sandbox = sb, tn_bridge = br,
                                       tn_source = tc_component cfg, tn_active = active,
                                       tn_pool = pool_new (lim_max_instances (tc_limits cfg)),
                                       tn_failures = 0, tn_invocations = 0, tn_last_swap = now\<rparr> rt2)
                                    \<lparr>rt_telemetry := record_reload (as_str tid) None (ac_digest active)
                                       (rt_telemetry rt)\<rparr>)))))))"

section \<open>Hot reload\<close>

definition runtime_swap ::
  "('c, 'g) wasm_lib \<Rightarrow> instant \<Rightarrow> ('c, 'g) tenant \<Rightarrow> loaded \<Rightarrow> ('c, 'g) runtime \<Rightarrow>
   unit result \<times> ('c, 'g) runtime"
where
  "runtime_swap W now t l rt =
     (case activate W now l of
        Inl e \<Rightarrow> (Inl e, rt)
      | Inr new \<Rightarrow>
          (Inr (),
           (put_tenant (t\<lparr>tn_active := new, tn_last_swap := now, tn_failures := 0\<rparr>) rt)
           \<lparr>rt_telemetry := record_reload (as_str (tn_id t)) (Some (ac_digest (tn_active t)))
              (ac_digest new) (rt_telemetry rt)\<rparr>))"

text \<open>One iteration of the loop of \<open>poll_once\<close>, up to the pull: whether the tenant is due, and for what.
  \<open>now\<close> is the instant the pass began.\<close>

definition poll_wants ::
  "instant \<Rightarrow> tenant_id \<Rightarrow> ('c, 'g) runtime \<Rightarrow> (string \<times> string option) option" where
  "poll_wants now tid rt =
     (case runtime_tenant rt tid of
        None \<Rightarrow> None
      | Some t \<Rightarrow>
          (case tn_source t of
             SourceFile _ \<Rightarrow> None
           | SourceOci reference pin \<Rightarrow>
               if saturating_duration_since now (tn_last_swap t) < debounce (rt_policy rt) then None
               else Some (reference, pin)))"

text \<open>The rest of the iteration, with the pull's result; \<open>swap_at\<close> is the instant of a swap.\<close>

definition poll_apply ::
  "('c, 'g) wasm_lib \<Rightarrow> instant \<Rightarrow> tenant_id \<Rightarrow> loaded result \<Rightarrow> ('c, 'g) runtime \<Rightarrow>
   unit result \<times> ('c, 'g) runtime"
where
  "poll_apply W swap_at tid pulled rt =
     (case runtime_tenant rt tid of
        None \<Rightarrow> (Inr (), rt)
      | Some t \<Rightarrow>
          (case pulled of
             Inr l \<Rightarrow>
               (case ensure_contract l of
                  Inl e \<Rightarrow> (Inl e, rt)
                | Inr _ \<Rightarrow>
                    if should_reload (rt_policy rt) (Some (ac_digest (tn_active t))) (ld_digest l)
                    then runtime_swap W swap_at t l rt
                    else (Inr (), put_tenant (t\<lparr>tn_failures := 0\<rparr>) rt))
           | Inl e \<Rightarrow>
               (let failures = tn_failures t + 1;
                    rt1 = put_tenant (t\<lparr>tn_failures := failures\<rparr>) rt in
                (Inr (),
                 if exhausted (rt_policy rt) failures
                 then rt1\<lparr>rt_telemetry := record_parked (as_str (tn_id t)) failures (rt_telemetry rt)\<rparr>
                 else rt1))))"

definition poll_tenant ::
  "('c, 'g) wasm_lib \<Rightarrow> 'r fetch_env \<Rightarrow> instant \<Rightarrow> instant \<Rightarrow> tenant_id \<Rightarrow> ('c, 'g) runtime \<Rightarrow>
   unit result \<times> ('c, 'g) runtime"
where
  "poll_tenant W E now swap_at tid rt =
     (case poll_wants now tid rt of
        None \<Rightarrow> (Inr (), rt)
      | Some (reference, pin) \<Rightarrow>
          (let (pulled, dir) = registry_pull E (rt_registry rt) reference pin (rt_dir rt) in
           poll_apply W swap_at tid pulled (rt\<lparr>rt_dir := dir\<rparr>)))"

record 'r poll_env =
  pe_now :: instant
  pe_fetch :: "tenant_id \<Rightarrow> 'r fetch_env"
  pe_swap_at :: "tenant_id \<Rightarrow> instant"

fun poll_loop ::
  "('c, 'g) wasm_lib \<Rightarrow> 'r poll_env \<Rightarrow> tenant_id list \<Rightarrow> ('c, 'g) runtime \<Rightarrow>
   unit result \<times> ('c, 'g) runtime"
where
  "poll_loop W pe [] rt = (Inr (), rt)"
| "poll_loop W pe (tid # ids) rt =
     (case poll_tenant W (pe_fetch pe tid) (pe_now pe) (pe_swap_at pe tid) tid rt of
        (Inl e, rt') \<Rightarrow> (Inl e, rt')
      | (Inr _, rt') \<Rightarrow> poll_loop W pe ids rt')"

definition poll_once ::
  "('c, 'g) wasm_lib \<Rightarrow> 'r poll_env \<Rightarrow> ('c, 'g) runtime \<Rightarrow> unit result \<times> ('c, 'g) runtime" where
  "poll_once W pe rt = poll_loop W pe (map tn_id (snapshot_tenants rt)) rt"

text \<open>The reload loop runs a pass at every tick of its interval; a failed pass is logged and the loop goes
  on with the next tick.\<close>

definition spawn_reload_loop :: "('c, 'g) runtime \<Rightarrow> background_task" where
  "spawn_reload_loop rt = ReloadLoop (poll_interval (rt_policy rt))"

definition reload_tick :: "('c, 'g) wasm_lib \<Rightarrow> 'r poll_env \<Rightarrow> ('c, 'g) runtime \<Rightarrow> ('c, 'g) runtime" where
  "reload_tick W pe rt =
     (case poll_once W pe rt of
        (Inl e, rt') \<Rightarrow> rt'
      | (Inr _, rt') \<Rightarrow> rt')"

section \<open>Assembly\<close>

text \<open>What the assembly meets outside the process: environment credentials, the cache directory, the
  registry and file system seen by each tenant's load, and the clock.\<close>

record 'r build_env =
  be_user :: "string option"
  be_password :: "string option"
  be_mkdir :: "io_error option"
  be_existing :: dir
  be_fetch :: "nat \<Rightarrow> 'r fetch_env"
  be_read :: "string \<Rightarrow> io_error + bytes"
  be_now :: "nat \<Rightarrow> instant"
  be_client :: "string + unit"

fun load_tenants ::
  "('c, 'g) wasm_lib \<Rightarrow> 'r build_env \<Rightarrow> nat \<Rightarrow> tenant_config list \<Rightarrow> ('c, 'g) runtime \<Rightarrow>
   unit result \<times> ('c, 'g) runtime"
where
  "load_tenants W be n [] rt = (Inr (), rt)"
| "load_tenants W be n (cfg # cfgs) rt =
     (case load_tenant W (be_client be) (be_fetch be n) (be_read be) (be_now be n) cfg rt of
        (Inl e, rt') \<Rightarrow> (Inl e, rt')
      | (Inr _, rt') \<Rightarrow> load_tenants W be (Suc n) cfgs rt')"

definition reload_policy_of :: "registry_config \<Rightarrow> hot_reload_policy" where
  "reload_policy_of r = hot_reload_policy_default\<lparr>poll_interval := pull_interval r\<rparr>"

definition start_background :: "config \<Rightarrow> ('c, 'g) runtime \<Rightarrow> ('c, 'g) runtime" where
  "start_background c rt =
     (let ticker = spawn_epoch_ticker (engine_builder_from_config (cfg_engine c));
          reload = spawn_reload_loop rt in
      rt\<lparr>rt_background := rt_background rt @ [ticker] @ [reload]\<rparr>)"

text \<open>The runtime before its first tenant.\<close>

definition initial_runtime ::
  "bridge \<Rightarrow> registry \<Rightarrow> dir \<Rightarrow> telemetry \<Rightarrow> config \<Rightarrow> ('c, 'g) runtime" where
  "initial_runtime br reg dir tel c =
     \<lparr>rt_bridge = br, rt_registry = reg, rt_http = cfg_http c, rt_bind = cfg_bind c,
      rt_policy = reload_policy_of (cfg_registry c), rt_tenants = [], rt_background = [],
      rt_dir = dir, rt_world = \<lparr>hw_heap = [], hw_log = [], hw_wire = []\<rparr>, rt_telemetry = tel\<rparr>"

definition runtime_build ::
  "('c, 'g) wasm_lib \<Rightarrow> 'r build_env \<Rightarrow> telemetry \<Rightarrow> config \<Rightarrow> ('c, 'g) runtime result" where
  "runtime_build W be tel c =
     (case engine_build W (engine_builder_from_config (cfg_engine c)) of
        Inl e \<Rightarrow> Inl e
      | Inr _ \<Rightarrow>
     (case build_linker W of
        Inl e \<Rightarrow> Inl e
      | Inr _ \<Rightarrow>
     (case bridge_new (be_client be) egress_policy_default (hc_max_body_bytes (cfg_http c)) of
        Inl e \<Rightarrow> Inl e
      | Inr br \<Rightarrow>
     (case registry_new
             \<lparr>oc_endpoint = rc_endpoint (cfg_registry c), oc_insecure = rc_insecure (cfg_registry c),
              oc_cache_dir = rc_cache_dir (cfg_registry c),
              oc_manifest_cache_ttl = pull_interval (cfg_registry c)\<rparr>
             (reload_policy_of (cfg_registry c)) (be_user be) (be_password be) (be_mkdir be)
             (be_existing be) of
        Inl e \<Rightarrow> Inl e
      | Inr (reg, dir) \<Rightarrow>
     (case load_tenants W be 0 (cfg_tenants c) (initial_runtime br reg dir tel c) of
        (Inl e, _) \<Rightarrow> Inl e
      | (Inr _, rt) \<Rightarrow> Inr (start_background c rt))))))"

section \<open>The runtime invariant\<close>

text \<open>A generation: compiled from its bytes, the digest is that of the bytes, the contract holds, and a
  pinned source runs the pin.\<close>

definition active_ok ::
  "('c, 'g) wasm_lib \<Rightarrow> crypto \<Rightarrow> component_source \<Rightarrow> 'c active_component \<Rightarrow> bool" where
  "active_ok W C source a \<longleftrightarrow>
     loaded_ok C (ac_loaded a) \<and> ac_digest a = ld_digest (ac_loaded a) \<and>
     ensure_contract (ac_loaded a) = Inr () \<and>
     wl_compile W (ld_bytes (ac_loaded a)) = Inr (ac_compiled a) \<and>
     (\<forall>reference pin. source = SourceOci reference (Some pin) \<longrightarrow> ac_digest a = pin)"

text \<open>The context an instance of a tenant runs with.\<close>

definition ctx_of_tenant :: "('c, 'g) tenant \<Rightarrow> host_ctx \<Rightarrow> bool" where
  "ctx_of_tenant t ctx \<longleftrightarrow>
     hx_tenant ctx = tn_id t \<and> hx_sandbox ctx = tn_sandbox t \<and> hx_http ctx = tn_bridge t \<and>
     hx_config ctx = sb_config (tn_sandbox t)"

definition tenant_ok :: "('c, 'g) wasm_lib \<Rightarrow> crypto \<Rightarrow> ('c, 'g) tenant \<Rightarrow> bool" where
  "tenant_ok W C t \<longleftrightarrow>
     valid_tenant_name (as_str (tn_id t)) \<and> sb_tenant (tn_sandbox t) = tn_id t \<and>
     br_policy (tn_bridge t) = limits_egress_policy (sb_limits (tn_sandbox t)) \<and>
     br_max_body_bytes (tn_bridge t) = lim_max_body_bytes (sb_limits (tn_sandbox t)) \<and>
     active_ok W C (tn_source t) (tn_active t) \<and>
     pool_inv (tn_pool t) \<and>
     pool_cap (tn_pool t) = max (lim_max_instances (sb_limits (tn_sandbox t))) 1 \<and>
     (\<forall>p\<in>set (pool_inner (tn_pool t)). ctx_of_tenant t (pr_ctx p))"

definition scratch_ok :: "memfs_heap \<Rightarrow> sandbox \<Rightarrow> bool" where
  "scratch_ok heap sb \<longleftrightarrow>
     sb_scratch sb < length heap \<and> memfs_inv (heap ! sb_scratch sb) \<and>
     quota_bytes (heap ! sb_scratch sb) = lim_memfs_quota_bytes (sb_limits sb)"

definition runtime_inv :: "('c, 'g) wasm_lib \<Rightarrow> crypto \<Rightarrow> ('c, 'g) runtime \<Rightarrow> bool" where
  "runtime_inv W C rt \<longleftrightarrow>
     assoc_ok (rt_tenants rt) \<and> store_inv C (rt_dir rt) \<and>
     (\<forall>tid t. runtime_tenant rt tid = Some t \<longrightarrow>
        tn_id t = tid \<and> tenant_ok W C t \<and> scratch_ok (hw_heap (rt_world rt)) (tn_sandbox t)) \<and>
     (\<forall>tid t tid' t'. runtime_tenant rt tid = Some t \<longrightarrow> runtime_tenant rt tid' = Some t' \<longrightarrow>
        tid \<noteq> tid' \<longrightarrow> sb_scratch (tn_sandbox t) \<noteq> sb_scratch (tn_sandbox t'))"

lemma runtime_tenant_simps [simp]:
  "runtime_tenant (rt\<lparr>rt_telemetry := x\<rparr>) = runtime_tenant rt"
  "runtime_tenant (rt\<lparr>rt_dir := d\<rparr>) = runtime_tenant rt"
  "runtime_tenant (rt\<lparr>rt_world := w\<rparr>) = runtime_tenant rt"
  "runtime_tenant (rt\<lparr>rt_background := b\<rparr>) = runtime_tenant rt"
  by (simp_all add: runtime_tenant_def fun_eq_iff)

lemma put_tenant_fields [simp]:
  "rt_dir (put_tenant t rt) = rt_dir rt" "rt_world (put_tenant t rt) = rt_world rt"
  "rt_policy (put_tenant t rt) = rt_policy rt" "rt_registry (put_tenant t rt) = rt_registry rt"
  "rt_telemetry (put_tenant t rt) = rt_telemetry rt"
  by (simp_all add: put_tenant_def)

lemma put_tenant_lookup:
  "assoc_ok (rt_tenants rt) \<Longrightarrow> runtime_tenant (put_tenant t rt) = (runtime_tenant rt)(tn_id t \<mapsto> t)"
  by (simp add: runtime_tenant_def put_tenant_def amap.get_insert fun_eq_iff)

lemma runtime_invD:
  assumes "runtime_inv W C rt" "runtime_tenant rt tid = Some t"
  shows "tn_id t = tid" "tenant_ok W C t" "scratch_ok (hw_heap (rt_world rt)) (tn_sandbox t)"
  using assms unfolding runtime_inv_def by blast+

lemma runtime_inv_distinct:
  "runtime_inv W C rt \<Longrightarrow> runtime_tenant rt tid = Some t \<Longrightarrow> runtime_tenant rt tid' = Some t' \<Longrightarrow>
     tid \<noteq> tid' \<Longrightarrow> sb_scratch (tn_sandbox t) \<noteq> sb_scratch (tn_sandbox t')"
  unfolding runtime_inv_def by blast

lemma runtime_inv_telemetry [simp]:
  "runtime_inv W C (rt\<lparr>rt_telemetry := x\<rparr>) \<longleftrightarrow> runtime_inv W C rt"
  "runtime_inv W C (rt\<lparr>rt_background := b\<rparr>) \<longleftrightarrow> runtime_inv W C rt"
  by (simp_all add: runtime_inv_def)

lemma runtime_inv_dir: "runtime_inv W C rt \<Longrightarrow> store_inv C d \<Longrightarrow> runtime_inv W C (rt\<lparr>rt_dir := d\<rparr>)"
  by (simp add: runtime_inv_def)

lemma runtime_inv_assoc: "runtime_inv W C rt \<Longrightarrow> assoc_ok (rt_tenants rt)"
  and runtime_inv_store: "runtime_inv W C rt \<Longrightarrow> store_inv C (rt_dir rt)"
  by (simp_all add: runtime_inv_def)

lemma runtime_inv_put:
  assumes inv: "runtime_inv W C rt" and t: "tenant_ok W C t"
    and s: "scratch_ok (hw_heap (rt_world rt)) (tn_sandbox t)"
    and d: "\<And>tid t'. runtime_tenant rt tid = Some t' \<Longrightarrow> tid \<noteq> tn_id t \<Longrightarrow>
      sb_scratch (tn_sandbox t') \<noteq> sb_scratch (tn_sandbox t)"
  shows "runtime_inv W C (put_tenant t rt)"
proof -
  have look: "runtime_tenant (put_tenant t rt) = (runtime_tenant rt)(tn_id t \<mapsto> t)"
    using inv by (simp add: put_tenant_lookup runtime_inv_assoc)
  have "assoc_ok (rt_tenants (put_tenant t rt))"
    using inv by (simp add: put_tenant_def amap.ok_insert runtime_inv_assoc)
  moreover have "tn_id u = tid \<and> tenant_ok W C u \<and> scratch_ok (hw_heap (rt_world rt)) (tn_sandbox u)"
    if "runtime_tenant (put_tenant t rt) tid = Some u" for tid u
    using that inv t s runtime_invD [OF inv, of tid u] unfolding look by (auto split: if_splits)
  moreover have "sb_scratch (tn_sandbox u) \<noteq> sb_scratch (tn_sandbox u')"
    if "runtime_tenant (put_tenant t rt) tid = Some u" "runtime_tenant (put_tenant t rt) tid' = Some u'"
      "tid \<noteq> tid'" for tid u tid' u'
    using that d runtime_inv_distinct [OF inv] unfolding look by (metis fun_upd_apply option.inject)
  ultimately show ?thesis
    using inv unfolding runtime_inv_def by simp
qed

text \<open>Changing a tenant in place.\<close>

lemma runtime_inv_update:
  assumes inv: "runtime_inv W C rt" and "runtime_tenant rt tid = Some t"
    and "tn_id t' = tid" "tn_sandbox t' = tn_sandbox t" "tenant_ok W C t'"
  shows "runtime_inv W C (put_tenant t' rt)"
  using assms runtime_invD [OF assms(1,2)] runtime_inv_distinct [OF inv]
  by (intro runtime_inv_put) auto

lemma tenant_ok_cells:
  assumes "tenant_ok W C t"
  shows "tenant_ok W C (t\<lparr>tn_failures := n\<rparr>)" "tenant_ok W C (t\<lparr>tn_invocations := i\<rparr>)"
    and "active_ok W C (tn_source t) a \<Longrightarrow>
      tenant_ok W C (t\<lparr>tn_active := a, tn_last_swap := now, tn_failures := n\<rparr>)"
  using assms by (auto simp: tenant_ok_def ctx_of_tenant_def)

lemma activate_ok:
  assumes "activate W now l = Inr a" "loaded_ok C l" "ensure_contract l = Inr ()"
    and "\<And>reference pin. source = SourceOci reference (Some pin) \<Longrightarrow> ld_digest l = pin"
  shows "active_ok W C source a"
  using assms by (auto simp: activate_def active_ok_def split: sum.splits)

lemma activate_fields:
  "activate W now l = Inr a \<Longrightarrow>
     ac_loaded a = l \<and> ac_digest a = ld_digest l \<and> ac_activated_at a = now"
  by (auto simp: activate_def split: sum.splits)

section \<open>Loads and polls keep the invariant\<close>

lemma load_source_ok:
  assumes "crypto_ok (fe_crypto E)" "store_inv (fe_crypto E) dir"
    and "load_source E read reg source dir = (r, dir')"
  shows "store_inv (fe_crypto E) dir'"
    and "r = Inr l \<Longrightarrow> loaded_ok (fe_crypto E) l"
    and "r = Inr l \<Longrightarrow> source = SourceOci reference (Some pin) \<Longrightarrow> ld_digest l = pin"
proof -
  show "store_inv (fe_crypto E) dir'"
    using assms registry_source.pull_inv [of E dir reg]
    by (cases source) (auto simp: load_source_def, metis snd_conv)
  show "r = Inr l \<Longrightarrow> loaded_ok (fe_crypto E) l"
    using assms registry_pull_ok [OF assms(1,2)]
    by (cases source) (auto simp: load_source_def from_path_def split: sum.splits
        dest: from_bytes_loaded_ok)
  show "r = Inr l \<Longrightarrow> source = SourceOci reference (Some pin) \<Longrightarrow> ld_digest l = pin"
    using assms(3) by (auto simp: load_source_def dest: registry_pull_pin)
qed

lemma scratch_ok_append: "scratch_ok heap sb \<Longrightarrow> scratch_ok (heap @ ys) sb"
  by (simp add: scratch_ok_def nth_append)

lemma runtime_inv_grow:
  assumes "runtime_inv W C rt" "hw_heap w = hw_heap (rt_world rt) @ ys"
  shows "runtime_inv W C (rt\<lparr>rt_world := w\<rparr>)"
  using assms scratch_ok_append unfolding runtime_inv_def by fastforce

lemma load_tenant_ok:
  assumes "load_tenant W client E read now cfg rt = (Inr u, rt')"
  obtains tid sb heap br l dir a where
    "tenant_new (tc_name cfg) = Inr tid"
    "sandbox_new tid (tc_limits cfg) (tc_config cfg) (hw_heap (rt_world rt)) = (Inr sb, heap)"
    "bridge_new client (sandbox_egress_policy sb) (lim_max_body_bytes (tc_limits cfg)) = Inr br"
    "load_source E read (rt_registry rt) (tc_component cfg) (rt_dir rt) = (Inr l, dir)"
    "ensure_contract l = Inr ()" "activate W now l = Inr a"
    "rt' = (put_tenant \<lparr>tn_id = tid, tn_sandbox = sb, tn_bridge = br, tn_source = tc_component cfg,
        tn_active = a, tn_pool = pool_new (lim_max_instances (tc_limits cfg)), tn_failures = 0,
        tn_invocations = 0, tn_last_swap = now\<rparr>
        (rt\<lparr>rt_world := (rt_world rt)\<lparr>hw_heap := heap\<rparr>, rt_dir := dir\<rparr>))
      \<lparr>rt_telemetry := record_reload (as_str tid) None (ac_digest a) (rt_telemetry rt)\<rparr>"
  using assms unfolding load_tenant_def Let_def
  by (auto split: sum.splits prod.splits)

lemma load_tenant_error:
  assumes "load_tenant W client E read now cfg rt = (Inl e, rt')"
  obtains heap dir where "rt' = rt\<lparr>rt_world := (rt_world rt)\<lparr>hw_heap := heap\<rparr>, rt_dir := dir\<rparr>"
    and "heap = hw_heap (rt_world rt) \<or>
      heap = hw_heap (rt_world rt) @ [memfs_new (lim_memfs_quota_bytes (tc_limits cfg))]"
    and "dir = rt_dir rt \<or>
      dir = snd (load_source E read (rt_registry rt) (tc_component cfg) (rt_dir rt))"
proof (cases "tenant_new (tc_name cfg)")
  case (Inl e')
  with assms show thesis by (intro that [where heap = "hw_heap (rt_world rt)" and dir = "rt_dir rt"]) (auto simp: load_tenant_def)
next
  case (Inr tid)
  obtain r heap where sb: "sandbox_new tid (tc_limits cfg) (tc_config cfg) (hw_heap (rt_world rt)) = (r, heap)"
    by fastforce
  show thesis
  proof (cases r)
    case (Inl e')
    with assms Inr sb show thesis
      by (intro that [where heap = "hw_heap (rt_world rt)" and dir = "rt_dir rt"]) (auto simp: load_tenant_def)
  next
    case r: (Inr sb')
    with sb have heap: "heap = hw_heap (rt_world rt) @ [memfs_new (lim_memfs_quota_bytes (tc_limits cfg))]"
      by (simp add: sandbox_new_ok_iff)
    have "rt' = rt\<lparr>rt_world := (rt_world rt)\<lparr>hw_heap := heap\<rparr>, rt_dir := rt_dir rt\<rparr> \<or>
      rt' = rt\<lparr>rt_world := (rt_world rt)\<lparr>hw_heap := heap\<rparr>,
        rt_dir := snd (load_source E read (rt_registry rt) (tc_component cfg) (rt_dir rt))\<rparr>"
      using assms Inr sb r by (auto simp: load_tenant_def Let_def split: sum.splits prod.splits)
    with heap that show thesis by blast
  qed
qed

lemma new_tenant_ok:
  assumes "tenant_new name = Inr tid" "sandbox_new tid limits config heap = (Inr sb, heap')"
    and "bridge_new client (sandbox_egress_policy sb) (lim_max_body_bytes limits) = Inr br"
    and "active_ok W C source a"
  shows "tenant_ok W C \<lparr>tn_id = tid, tn_sandbox = sb, tn_bridge = br, tn_source = source,
    tn_active = a, tn_pool = pool_new (lim_max_instances limits), tn_failures = n,
    tn_invocations = i, tn_last_swap = now\<rparr>"
  using assms pool_new_inv
  by (auto simp: tenant_ok_def tenant_new_ok_iff sandbox_new_ok_iff bridge_new_ok_iff
      sandbox_egress_policy_def) (simp_all add: pool_new_def)

lemma load_tenant_error_inv:
  assumes inv: "runtime_inv W (fe_crypto E) rt" and C: "crypto_ok (fe_crypto E)"
    and "load_tenant W client E read now cfg rt = (Inl e, rt')"
  shows "runtime_inv W (fe_crypto E) rt'"
proof -
  let ?C = "fe_crypto E"
  note src = load_source_ok [OF C runtime_inv_store [OF inv], of read "rt_registry rt" "tc_component cfg"]
  from assms(3) obtain heap dir where rt': "rt' = rt\<lparr>rt_world := (rt_world rt)\<lparr>hw_heap := heap\<rparr>, rt_dir := dir\<rparr>"
    and "heap = hw_heap (rt_world rt) \<or>
      heap = hw_heap (rt_world rt) @ [memfs_new (lim_memfs_quota_bytes (tc_limits cfg))]"
    and dir: "dir = rt_dir rt \<or>
      dir = snd (load_source E read (rt_registry rt) (tc_component cfg) (rt_dir rt))"
    by (rule load_tenant_error)
  then have "runtime_inv W ?C (rt\<lparr>rt_world := (rt_world rt)\<lparr>hw_heap := heap\<rparr>\<rparr>)"
    using runtime_inv_grow [OF inv] by fastforce
  moreover have "store_inv ?C dir"
    using dir src(1) runtime_inv_store [OF inv] by (metis prod.collapse)
  ultimately show ?thesis using rt' by (auto dest: runtime_inv_dir)
qed

lemma load_tenant_ok_inv:
  assumes inv: "runtime_inv W (fe_crypto E) rt" and C: "crypto_ok (fe_crypto E)"
    and "load_tenant W client E read now cfg rt = (Inr u, rt')"
  shows "runtime_inv W (fe_crypto E) rt'"
proof -
  let ?C = "fe_crypto E"
  note src = load_source_ok [OF C runtime_inv_store [OF inv], of read "rt_registry rt" "tc_component cfg"]
  from assms(3) obtain tid sb heap br l dir a where
    new: "tenant_new (tc_name cfg) = Inr tid"
      "sandbox_new tid (tc_limits cfg) (tc_config cfg) (hw_heap (rt_world rt)) = (Inr sb, heap)"
      "bridge_new client (sandbox_egress_policy sb) (lim_max_body_bytes (tc_limits cfg)) = Inr br"
    and load: "load_source E read (rt_registry rt) (tc_component cfg) (rt_dir rt) = (Inr l, dir)"
    and l: "ensure_contract l = Inr ()" "activate W now l = Inr a"
    and rt': "rt' = (put_tenant \<lparr>tn_id = tid, tn_sandbox = sb, tn_bridge = br, tn_source = tc_component cfg,
        tn_active = a, tn_pool = pool_new (lim_max_instances (tc_limits cfg)), tn_failures = 0,
        tn_invocations = 0, tn_last_swap = now\<rparr>
        (rt\<lparr>rt_world := (rt_world rt)\<lparr>hw_heap := heap\<rparr>, rt_dir := dir\<rparr>))
      \<lparr>rt_telemetry := record_reload (as_str tid) None (ac_digest a) (rt_telemetry rt)\<rparr>"
    by (rule load_tenant_ok)
  have heap: "heap = hw_heap (rt_world rt) @ [memfs_new (lim_memfs_quota_bytes (tc_limits cfg))]"
    and idx: "sb_scratch sb = length (hw_heap (rt_world rt))" "sb_limits sb = tc_limits cfg"
    using new(2) by (simp_all add: sandbox_new_ok_iff)
  have "active_ok W ?C (tc_component cfg) a"
    using src(2,3) [OF load] l by (intro activate_ok) auto
  note tok = new_tenant_ok [OF new this]
  have "runtime_inv W ?C (rt\<lparr>rt_world := (rt_world rt)\<lparr>hw_heap := heap\<rparr>\<rparr>)"
    using runtime_inv_grow [OF inv] heap by fastforce
  then have grown: "runtime_inv W ?C (rt\<lparr>rt_world := (rt_world rt)\<lparr>hw_heap := heap\<rparr>, rt_dir := dir\<rparr>)"
    using src(1) [OF load] by (rule runtime_inv_dir)
  have fresh: "sb_scratch (tn_sandbox t') < length (hw_heap (rt_world rt))"
    if "runtime_tenant rt tid' = Some t'" for tid' t'
    using runtime_invD(3) [OF inv that] by (simp add: scratch_ok_def)
  have "scratch_ok heap sb"
    by (simp add: scratch_ok_def heap idx memfs_inv_new)
  then show ?thesis
    unfolding rt' runtime_inv_telemetry
    using fresh by (intro runtime_inv_put grown tok) (auto simp: idx dest: fresh)
qed

lemma load_tenant_inv:
  assumes "runtime_inv W (fe_crypto E) rt" "crypto_ok (fe_crypto E)"
  shows "runtime_inv W (fe_crypto E) (snd (load_tenant W client E read now cfg rt))"
  using load_tenant_error_inv [OF assms] load_tenant_ok_inv [OF assms] by (metis prod.collapse sum.exhaust)

lemma load_tenants_inv:
  assumes "\<And>n. fe_crypto (be_fetch be n) = C" "crypto_ok C"
  shows "runtime_inv W C rt \<Longrightarrow> runtime_inv W C (snd (load_tenants W be n cfgs rt))"
proof (induction cfgs arbitrary: n rt)
  case (Cons cfg cfgs)
  obtain r rt' where l: "load_tenant W (be_client be) (be_fetch be n) (be_read be) (be_now be n) cfg rt = (r, rt')"
    by fastforce
  have "runtime_inv W C rt'"
    using load_tenant_inv [of W "be_fetch be n" rt "be_client be" "be_read be" "be_now be n" cfg]
      Cons.prems assms l by simp
  with Cons.IH l show ?case by (auto split: sum.split)
qed simp

text \<open>What one iteration of the reload loop does, case by case: first the part after the pull.\<close>

lemma poll_apply_cases:
  assumes t: "runtime_tenant rt tid = Some t" and app: "poll_apply W swap_at tid pulled rt = (r, rt')"
  obtains (failed) e where "pulled = Inl e" "r = Inr ()"
      "rt' = (put_tenant (t\<lparr>tn_failures := tn_failures t + 1\<rparr>) rt)
        \<lparr>rt_telemetry := if exhausted (rt_policy rt) (tn_failures t + 1)
           then record_parked (as_str (tn_id t)) (tn_failures t + 1) (rt_telemetry rt) else rt_telemetry rt\<rparr>"
  | (refused) l e where "pulled = Inr l" "r = Inl e" "rt' = rt"
      "ensure_contract l = Inl e \<or> ensure_contract l = Inr () \<and> activate W swap_at l = Inl e"
  | (same) l where "pulled = Inr l" "ensure_contract l = Inr ()" "ld_digest l = ac_digest (tn_active t)"
      "r = Inr ()" "rt' = put_tenant (t\<lparr>tn_failures := 0\<rparr>) rt"
  | (swapped) l a where "pulled = Inr l" "ensure_contract l = Inr ()"
      "ld_digest l \<noteq> ac_digest (tn_active t)" "activate W swap_at l = Inr a" "r = Inr ()"
      "rt' = (put_tenant (t\<lparr>tn_active := a, tn_last_swap := swap_at, tn_failures := 0\<rparr>) rt)
        \<lparr>rt_telemetry := record_reload (as_str (tn_id t)) (Some (ac_digest (tn_active t))) (ac_digest a)
           (rt_telemetry rt)\<rparr>"
proof (cases pulled)
  case (Inl e)
  with t app show thesis
    by (intro failed [OF Inl]) (auto simp: poll_apply_def put_tenant_def Let_def split: if_splits)
next
  case (Inr l)
  note defs = poll_apply_def should_reload_def runtime_swap_def
  consider (bad) e where "ensure_contract l = Inl e" | (good) "ensure_contract l = Inr ()"
    by (cases "ensure_contract l") auto
  then show thesis
  proof cases
    case bad
    then show thesis using t app Inr by (intro refused [of l e]) (auto simp: defs)
  next
    case good
    show thesis
    proof (cases "activate W swap_at l")
      case (Inl e)
      with t app good \<open>pulled = Inr l\<close> show thesis
        by (cases "ld_digest l = ac_digest (tn_active t)")
          (intro same [of l], auto simp: defs, intro refused [of l e], auto)
    next
      case (Inr a)
      with t app good \<open>pulled = Inr l\<close> show thesis
        by (cases "ld_digest l = ac_digest (tn_active t)")
          (intro same [of l], auto simp: defs, intro swapped [of l a], auto)
    qed
  qed
qed

lemma poll_wants_Some_iff:
  "poll_wants now tid rt = Some (reference, pin) \<longleftrightarrow>
     (\<exists>t. runtime_tenant rt tid = Some t \<and> tn_source t = SourceOci reference pin \<and>
        debounce (rt_policy rt) \<le> saturating_duration_since now (tn_last_swap t))"
  by (auto simp: poll_wants_def split: option.split component_source.split)

lemma poll_tenant_cases:
  assumes t: "runtime_tenant rt tid = Some t" and poll: "poll_tenant W E now swap_at tid rt = (r, rt')"
  obtains (skip) "r = Inr ()" "rt' = rt"
      "\<forall>reference pin. tn_source t = SourceOci reference pin \<longrightarrow>
         saturating_duration_since now (tn_last_swap t) < debounce (rt_policy rt)"
  | (failed) reference pin e dir tel where "tn_source t = SourceOci reference pin"
      "registry_pull E (rt_registry rt) reference pin (rt_dir rt) = (Inl e, dir)" "r = Inr ()"
      "rt' = (put_tenant (t\<lparr>tn_failures := tn_failures t + 1\<rparr>) (rt\<lparr>rt_dir := dir\<rparr>))\<lparr>rt_telemetry := tel\<rparr>"
  | (refused) reference pin l dir e where "tn_source t = SourceOci reference pin"
      "registry_pull E (rt_registry rt) reference pin (rt_dir rt) = (Inr l, dir)"
      "r = Inl e" "rt' = rt\<lparr>rt_dir := dir\<rparr>"
      "ensure_contract l = Inl e \<or> ensure_contract l = Inr () \<and> activate W swap_at l = Inl e"
  | (same) reference pin l dir where "tn_source t = SourceOci reference pin"
      "registry_pull E (rt_registry rt) reference pin (rt_dir rt) = (Inr l, dir)"
      "ensure_contract l = Inr ()" "ld_digest l = ac_digest (tn_active t)" "r = Inr ()"
      "rt' = put_tenant (t\<lparr>tn_failures := 0\<rparr>) (rt\<lparr>rt_dir := dir\<rparr>)"
  | (swapped) reference pin l dir a where "tn_source t = SourceOci reference pin"
      "registry_pull E (rt_registry rt) reference pin (rt_dir rt) = (Inr l, dir)"
      "ensure_contract l = Inr ()" "ld_digest l \<noteq> ac_digest (tn_active t)" "activate W swap_at l = Inr a"
      "debounce (rt_policy rt) \<le> saturating_duration_since now (tn_last_swap t)" "r = Inr ()"
      "rt' = (put_tenant (t\<lparr>tn_active := a, tn_last_swap := swap_at, tn_failures := 0\<rparr>) (rt\<lparr>rt_dir := dir\<rparr>))
        \<lparr>rt_telemetry := record_reload (as_str (tn_id t)) (Some (ac_digest (tn_active t))) (ac_digest a)
           (rt_telemetry rt)\<rparr>"
proof (cases "poll_wants now tid rt")
  case None
  with t poll show thesis
    by (intro skip) (auto simp: poll_tenant_def poll_wants_def split: component_source.splits if_splits)
next
  case (Some due)
  obtain reference pin where due: "poll_wants now tid rt = Some (reference, pin)" using Some by (cases due) simp
  then have src: "tn_source t = SourceOci reference pin"
    and late: "debounce (rt_policy rt) \<le> saturating_duration_since now (tn_last_swap t)"
    using t by (auto simp: poll_wants_Some_iff)
  obtain pulled dir where pull: "registry_pull E (rt_registry rt) reference pin (rt_dir rt) = (pulled, dir)"
    by fastforce
  have "runtime_tenant (rt\<lparr>rt_dir := dir\<rparr>) tid = Some t"
    and "poll_apply W swap_at tid pulled (rt\<lparr>rt_dir := dir\<rparr>) = (r, rt')"
    using t poll due pull by (simp_all add: poll_tenant_def)
  then show thesis
  proof (cases rule: poll_apply_cases)
    case (failed e)
    with src pull show thesis by (intro that(2)) simp_all
  next
    case (refused l e)
    with src pull show thesis by (intro that(3)) simp_all
  next
    case (same l)
    with src pull show thesis by (intro that(4)) simp_all
  next
    case (swapped l a)
    with src pull late show thesis by (intro that(5)) simp_all
  qed
qed

lemma poll_tenant_unknown: "runtime_tenant rt tid = None \<Longrightarrow> poll_tenant W E now at tid rt = (Inr (), rt)"
  by (simp add: poll_tenant_def poll_wants_def)

lemma pull_keeps_store:
  assumes "runtime_inv W (fe_crypto E) rt" "crypto_ok (fe_crypto E)"
    and "registry_pull E (rt_registry rt) reference pin (rt_dir rt) = (r, dir)"
  shows "runtime_inv W (fe_crypto E) (rt\<lparr>rt_dir := dir\<rparr>)"
  using assms registry_source.pull_inv [of E "rt_dir rt" "rt_registry rt" reference pin]
  by (auto intro!: runtime_inv_dir simp: runtime_inv_store)

text \<open>What a pull for a tenant hands to the rest of the iteration.\<close>

definition pulled_ok :: "crypto \<Rightarrow> component_source \<Rightarrow> loaded result \<Rightarrow> bool" where
  "pulled_ok C source pulled \<longleftrightarrow>
     (\<forall>l. pulled = Inr l \<longrightarrow> loaded_ok C l \<and>
        (\<forall>reference pin. source = SourceOci reference (Some pin) \<longrightarrow> ld_digest l = pin))"

lemma registry_pulled_ok:
  assumes "runtime_inv W (fe_crypto E) rt" "crypto_ok (fe_crypto E)"
    and "registry_pull E (rt_registry rt) reference pin (rt_dir rt) = (pulled, dir)"
  shows "pulled_ok (fe_crypto E) (SourceOci reference pin) pulled"
  using assms(3) registry_pull_ok [OF assms(2) runtime_inv_store [OF assms(1)]]
  by (auto simp: pulled_ok_def dest: registry_pull_pin)

lemma poll_apply_inv:
  assumes inv: "runtime_inv W C rt"
    and pulled: "\<And>t. runtime_tenant rt tid = Some t \<Longrightarrow> pulled_ok C (tn_source t) pulled"
    and app: "poll_apply W swap_at tid pulled rt = (r, rt')"
  shows "runtime_inv W C rt'"
proof (cases "runtime_tenant rt tid")
  case None
  with inv app show ?thesis by (simp add: poll_apply_def)
next
  case (Some t)
  note t = runtime_invD [OF inv Some]
  note update = runtime_inv_update [OF inv]
  from Some app show ?thesis
  proof (cases rule: poll_apply_cases)
    case (swapped l a)
    have "active_ok W C (tn_source t) a"
      using pulled [OF Some] swapped by (intro activate_ok [OF swapped(4)]) (auto simp: pulled_ok_def)
    then have "tenant_ok W C (t\<lparr>tn_active := a, tn_last_swap := swap_at, tn_failures := 0\<rparr>)"
      by (rule tenant_ok_cells(3) [OF t(2)])
    with swapped t Some show ?thesis by (auto intro!: update)
  qed (use inv t Some in \<open>auto intro!: update tenant_ok_cells\<close>)
qed

lemma poll_tenant_inv:
  assumes inv: "runtime_inv W (fe_crypto E) rt" and C: "crypto_ok (fe_crypto E)"
  shows "runtime_inv W (fe_crypto E) (snd (poll_tenant W E now swap_at tid rt))"
proof (cases "poll_wants now tid rt")
  case None
  with inv show ?thesis by (simp add: poll_tenant_def)
next
  case (Some due)
  obtain reference pin where due: "poll_wants now tid rt = Some (reference, pin)" using Some by (cases due) simp
  obtain pulled dir where pull: "registry_pull E (rt_registry rt) reference pin (rt_dir rt) = (pulled, dir)"
    by fastforce
  obtain r rt' where app: "poll_apply W swap_at tid pulled (rt\<lparr>rt_dir := dir\<rparr>) = (r, rt')" by fastforce
  have "pulled_ok (fe_crypto E) (tn_source t) pulled" if "runtime_tenant (rt\<lparr>rt_dir := dir\<rparr>) tid = Some t" for t
    using registry_pulled_ok [OF inv C pull] due that by (auto simp: poll_wants_Some_iff)
  from poll_apply_inv [OF pull_keeps_store [OF inv C pull] this app] due pull app
  show ?thesis by (simp add: poll_tenant_def)
qed

lemma poll_loop_inv:
  assumes "\<And>tid. fe_crypto (pe_fetch pe tid) = C" "crypto_ok C"
  shows "runtime_inv W C rt \<Longrightarrow> runtime_inv W C (snd (poll_loop W pe ids rt))"
proof (induction ids arbitrary: rt)
  case (Cons tid ids)
  obtain r rt' where p: "poll_tenant W (pe_fetch pe tid) (pe_now pe) (pe_swap_at pe tid) tid rt = (r, rt')"
    by fastforce
  have "runtime_inv W C rt'"
    using poll_tenant_inv [of W "pe_fetch pe tid" rt "pe_now pe" "pe_swap_at pe tid" tid]
      Cons.prems assms p by simp
  with Cons.IH p show ?case by (auto split: sum.split)
qed simp

section \<open>What a reload leaves alone\<close>

text \<open>The parts of a tenant that a reload does not touch.\<close>

definition same_identity :: "('c, 'g) tenant \<Rightarrow> ('c, 'g) tenant \<Rightarrow> bool" where
  "same_identity t t' \<longleftrightarrow>
     tn_id t' = tn_id t \<and> tn_sandbox t' = tn_sandbox t \<and> tn_bridge t' = tn_bridge t \<and>
     tn_source t' = tn_source t \<and> tn_pool t' = tn_pool t \<and> tn_invocations t' = tn_invocations t"

lemma poll_apply_frame:
  assumes "assoc_ok (rt_tenants rt)" "runtime_tenant rt tid = Some t" "tn_id t = tid"
    and app: "poll_apply W swap_at tid pulled rt = (r, rt')"
  shows "rt_world rt' = rt_world rt \<and>
    (\<forall>other. other \<noteq> tid \<longrightarrow> runtime_tenant rt' other = runtime_tenant rt other) \<and>
    (\<exists>t'. runtime_tenant rt' tid = Some t' \<and> same_identity t t')"
  using assms(2) app
  by (cases rule: poll_apply_cases)
    (use assms(1-3) in \<open>auto simp: put_tenant_lookup same_identity_def\<close>)

lemma poll_tenant_frame:
  assumes "assoc_ok (rt_tenants rt)" "runtime_tenant rt tid = Some t" "tn_id t = tid"
    and poll: "poll_tenant W E now swap_at tid rt = (r, rt')"
  shows "rt_world rt' = rt_world rt \<and> rt_policy rt' = rt_policy rt \<and> rt_registry rt' = rt_registry rt \<and>
    (\<forall>other. other \<noteq> tid \<longrightarrow> runtime_tenant rt' other = runtime_tenant rt other) \<and>
    (\<exists>t'. runtime_tenant rt' tid = Some t' \<and> same_identity t t')"
  using assms(2) poll
  by (cases rule: poll_tenant_cases)
    (use assms(1-3) in \<open>auto simp: put_tenant_lookup same_identity_def\<close>)

lemma poll_tenant_assoc:
  "assoc_ok (rt_tenants rt) \<Longrightarrow> assoc_ok (rt_tenants (snd (poll_tenant W E now swap_at tid rt)))"
  by (auto simp: poll_tenant_def poll_apply_def runtime_swap_def put_tenant_def amap.ok_insert Let_def
      split: option.split component_source.split prod.split sum.split)

lemma runtime_build_ok:
  assumes "runtime_build W be tel c = Inr rt"
  obtains br reg rt0 where
    "load_tenants W be 0 (cfg_tenants c) (initial_runtime br reg (be_existing be) tel c) = (Inr (), rt0)"
    "rt = start_background c rt0"
proof -
  from assms obtain reg dir br rt0 where
      reg: "registry_new
             \<lparr>oc_endpoint = rc_endpoint (cfg_registry c), oc_insecure = rc_insecure (cfg_registry c),
              oc_cache_dir = rc_cache_dir (cfg_registry c),
              oc_manifest_cache_ttl = pull_interval (cfg_registry c)\<rparr>
             (reload_policy_of (cfg_registry c)) (be_user be) (be_password be) (be_mkdir be)
             (be_existing be) = Inr (reg, dir)"
    and load: "load_tenants W be 0 (cfg_tenants c) (initial_runtime br reg dir tel c) = (Inr (), rt0)"
    and rt: "rt = start_background c rt0"
    unfolding runtime_build_def by (fastforce split: sum.splits prod.splits)
  have "dir = be_existing be"
    using reg by (auto simp: registry_new_def oci_client_new_def store_open_def Let_def
        split: sum.splits option.splits)
  with load rt that show thesis by blast
qed

lemma initial_runtime_tenant [simp]: "runtime_tenant (initial_runtime br reg dir tel c) tid = None"
  by (simp add: runtime_tenant_def initial_runtime_def)

lemma initial_runtime_inv: "store_inv C dir \<Longrightarrow> runtime_inv W C (initial_runtime br reg dir tel c)"
  by (simp add: runtime_inv_def runtime_tenant_def initial_runtime_def)

lemma runtime_build_inv:
  assumes "runtime_build W be tel c = Inr rt" "crypto_ok C" "store_inv C (be_existing be)"
    and "\<And>n. fe_crypto (be_fetch be n) = C"
  shows "runtime_inv W C rt"
  using assms(1)
proof (cases rule: runtime_build_ok)
  case (1 br reg rt0)
  with load_tenants_inv [OF assms(4,2) initial_runtime_inv [OF assms(3)], of W 0 "cfg_tenants c" br reg tel c]
  show ?thesis by (simp add: start_background_def Let_def)
qed

lemma load_tenant_wire: "hw_wire (rt_world (snd (load_tenant W client E read now cfg rt))) = hw_wire (rt_world rt)"
  by (auto simp: load_tenant_def Let_def split: sum.split prod.split)

lemma load_tenants_wire: "hw_wire (rt_world (snd (load_tenants W be n cfgs rt))) = hw_wire (rt_world rt)"
proof (induction cfgs arbitrary: n rt)
  case (Cons cfg cfgs)
  show ?case
    using load_tenant_wire [of W "be_client be" "be_fetch be n" "be_read be" "be_now be n" cfg rt] Cons.IH
    by (auto split: sum.split prod.split)
qed simp

lemma runtime_build_wire:
  assumes "runtime_build W be tel c = Inr rt"
  shows "hw_wire (rt_world rt) = []"
  using assms
proof (cases rule: runtime_build_ok)
  case (1 br reg rt0)
  with load_tenants_wire [of W be 0 "cfg_tenants c" "initial_runtime br reg (be_existing be) tel c"]
  show ?thesis by (simp add: start_background_def initial_runtime_def Let_def)
qed

section \<open>A concrete runtime\<close>

definition demo_active :: "bytes \<Rightarrow> unit active_component" where
  "demo_active blob =
     \<lparr>ac_loaded = demo_loaded ''acme/echo:latest'' blob, ac_compiled = (),
      ac_digest = store_digest pad_crypto blob, ac_activated_at = 0\<rparr>"

definition demo_rt_tenant :: "bytes \<Rightarrow> (unit, nat) tenant" where
  "demo_rt_tenant blob =
     \<lparr>tn_id = TenantId ''echo'', tn_sandbox = demo_sandbox,
      tn_bridge = \<lparr>br_policy = limits_egress_policy sandbox_limits_default,
        br_connect_timeout = from_secs 3, br_max_body_bytes = lim_max_body_bytes sandbox_limits_default\<rparr>,
      tn_source = SourceOci ''acme/echo:latest'' None, tn_active = demo_active blob,
      tn_pool = pool_new 8, tn_failures = 0, tn_invocations = 0, tn_last_swap = 0\<rparr>"

definition demo_runtime :: "bytes \<Rightarrow> (unit, nat) runtime" where
  "demo_runtime blob =
     \<lparr>rt_bridge = demo_bridge, rt_registry = demo_registry, rt_http = http_config_default,
      rt_bind = SocketAddrV4 [127, 0, 0, 1] 8080, rt_policy = hot_reload_policy_default,
      rt_tenants = [(TenantId ''echo'', demo_rt_tenant blob)], rt_background = [], rt_dir = [],
      rt_world = \<lparr>hw_heap = [memfs_new (lim_memfs_quota_bytes sandbox_limits_default)], hw_log = [],
        hw_wire = []\<rparr>, rt_telemetry = telemetry_empty\<rparr>"

lemma demo_runtime_simps [simp]:
  "assoc_ok (rt_tenants (demo_runtime blob))"
  "runtime_tenant (demo_runtime blob) tid =
     (if tid = TenantId ''echo'' then Some (demo_rt_tenant blob) else None)"
  "tn_id (demo_rt_tenant blob) = TenantId ''echo''"
  "tn_source (demo_rt_tenant blob) = SourceOci ''acme/echo:latest'' None"
  "tn_last_swap (demo_rt_tenant blob) = 0"
  "ac_digest (tn_active (demo_rt_tenant blob)) = store_digest pad_crypto blob"
  "debounce (rt_policy (demo_runtime blob)) = 5000000000"
  by (auto simp: demo_runtime_def demo_rt_tenant_def demo_active_def runtime_tenant_def assoc_defs
      hot_reload_policy_default_def from_secs_def)

lemma demo_runtime_pull:
  "\<exists>dir. registry_pull (serve_env (store_digest pad_crypto blob) blob)
     (rt_registry (demo_runtime b)) ''acme/echo:latest'' None (rt_dir (demo_runtime b)) =
       (Inr (demo_loaded ''acme/echo:latest'' blob), dir)"
  using demo_fetch [of blob demo_client "''acme/echo:latest''"]
  by (auto simp: demo_runtime_def registry_pull_def demo_registry_def)

lemma demo_loaded_contract: "ensure_contract (demo_loaded reference blob) = Inr ()"
  by (simp add: ensure_contract_ok_iff contract_ok_iff demo_loaded_def)

section \<open>Properties\<close>



text \<open>A reload touches one tenant. Polling a tenant changes no other tenant, no guest storage and no
  traffic record, and of the polled tenant only its active component, swap time and failure count:
  sandbox, egress policy, source, pooled instances and invocation count stay. With a positive debounce,
  a swap is recorded at least the debounce after the previous one.\<close>

theorem reload_isolated_and_debounced:
  assumes "assoc_ok (rt_tenants rt)" "runtime_tenant rt tid = Some t" "tn_id t = tid"
    and "poll_tenant W E now swap_at tid rt = (r, rt')" "now \<le> swap_at"
  shows "rt_world rt' = rt_world rt \<and>
    (\<forall>other. other \<noteq> tid \<longrightarrow> runtime_tenant rt' other = runtime_tenant rt other) \<and>
    (\<exists>t'. runtime_tenant rt' tid = Some t' \<and> same_identity t t' \<and>
       (0 < debounce (rt_policy rt) \<and> tn_active t' \<noteq> tn_active t \<longrightarrow>
        tn_last_swap t + debounce (rt_policy rt) \<le> tn_last_swap t'))"
proof -
  note frame = poll_tenant_frame [OF assms(1-4)]
  then obtain t' where t': "runtime_tenant rt' tid = Some t'" "same_identity t t'" by blast
  have "0 < debounce (rt_policy rt) \<and> tn_active t' \<noteq> tn_active t \<longrightarrow>
      tn_last_swap t + debounce (rt_policy rt) \<le> tn_last_swap t'"
    using assms(2,4)
  proof (cases rule: poll_tenant_cases)
    case (swapped reference pin l dir a)
    with assms t' have "tn_last_swap t' = swap_at" by (auto simp: put_tenant_lookup)
    with swapped(6) assms(5) show ?thesis by (auto simp: saturating_duration_since_def)
  qed (use assms t' in \<open>auto simp: put_tenant_lookup\<close>)
  with frame t' show ?thesis by blast
qed

theorem reload_isolated_and_debounced_witness:
  "rt_world (snd (poll_tenant unit_wasm (serve_env (store_digest pad_crypto [2]) [2]) 6000000000
     7000000000 (TenantId ''echo'') (demo_runtime [1]))) = rt_world (demo_runtime [1])"
proof -
  obtain r rt' where poll: "poll_tenant unit_wasm (serve_env (store_digest pad_crypto [2]) [2]) 6000000000
     7000000000 (TenantId ''echo'') (demo_runtime [1]) = (r, rt')" by fastforce
  from reload_isolated_and_debounced [OF _ _ _ poll, of "demo_rt_tenant [1]"] poll show ?thesis by simp
qed

text \<open>A failed pull keeps the tenant serving. When the pull of a due tenant fails, the pass goes on,
  the tenant keeps its active component and pool, its failure count grows by one, and a parked
  sample is recorded exactly when the count has reached the policy's limit; nothing else of the
  tenant or of any other tenant changes.\<close>

theorem failed_pull_keeps_serving:
  assumes "assoc_ok (rt_tenants rt)" "runtime_tenant rt tid = Some t" "tn_id t = tid"
    and "tn_source t = SourceOci reference pin"
    and "debounce (rt_policy rt) \<le> saturating_duration_since now (tn_last_swap t)"
    and "registry_pull E (rt_registry rt) reference pin (rt_dir rt) = (Inl e, dir)"
  shows "\<exists>rt'. poll_tenant W E now swap_at tid rt = (Inr (), rt') \<and>
    runtime_tenant rt' = (runtime_tenant rt)(tid \<mapsto> t\<lparr>tn_failures := tn_failures t + 1\<rparr>) \<and>
    rt_world rt' = rt_world rt \<and>
    rt_telemetry rt' =
      (if max_failed_polls (rt_policy rt) \<le> tn_failures t + 1
       then record_parked (as_str tid) (tn_failures t + 1) (rt_telemetry rt) else rt_telemetry rt)"
  using assms by (auto simp: poll_tenant_def poll_wants_def poll_apply_def Let_def exhausted_def put_tenant_lookup)

text \<open>A parked tenant is still polled: whether a tenant is pulled in a pass does not depend on its failures.\<close>

theorem parked_tenant_still_polled:
  assumes "assoc_ok (rt_tenants rt)" "runtime_tenant rt tid = Some t" "tn_id t = tid"
  shows "poll_wants now tid (put_tenant (t\<lparr>tn_failures := n\<rparr>) rt) = poll_wants now tid rt"
  using assms by (auto simp: poll_wants_def put_tenant_lookup split: component_source.split)

definition down_env :: "string fetch_env" where
  "down_env = (serve_env [] [])\<lparr>fe_remote := (serve_blob [] [])\<lparr>remote_manifest := (\<lambda>_ _. Inl ''503'')\<rparr>\<rparr>"

theorem failed_pull_keeps_serving_witness:
  "\<exists>rt'. poll_tenant unit_wasm down_env 6000000000 0 (TenantId ''echo'') (demo_runtime [1]) = (Inr (), rt') \<and>
     runtime_tenant rt' (TenantId ''echo'') = Some ((demo_rt_tenant [1])\<lparr>tn_failures := 1\<rparr>)"
proof -
  have "\<exists>e dir. registry_pull down_env (rt_registry (demo_runtime [1])) ''acme/echo:latest'' None
      (rt_dir (demo_runtime [1])) = (Inl e, dir)"
    by (simp add: registry_pull_def fetch_component_def oci_resolve_def oci_pull_manifest_def down_env_def
        serve_env_def serve_blob_def Let_def)
  then obtain e dir where pull: "registry_pull down_env (rt_registry (demo_runtime [1]))
      ''acme/echo:latest'' None (rt_dir (demo_runtime [1])) = (Inl e, dir)" by blast
  have "tn_failures (demo_rt_tenant [1]) + 1 = 1" by (simp add: demo_rt_tenant_def)
  with failed_pull_keeps_serving [OF _ _ _ _ _ pull, of "TenantId ''echo''" "demo_rt_tenant [1]" 6000000000
      unit_wasm 0]
  show ?thesis by (auto simp: saturating_duration_since_def)
qed

text \<open>C39: One refused artifact ends the pass. When the artifact pulled for a tenant violates the contract,
  the whole pass fails there: the tenants after it are not polled, whatever the registry has for
  them, no tenant changes, and the refusal is not counted as a failure of the tenant.\<close>

theorem refused_artifact_ends_pass:
  assumes "runtime_tenant rt tid = Some t" "tn_source t = SourceOci reference pin"
    and "debounce (rt_policy rt) \<le> saturating_duration_since (pe_now pe) (tn_last_swap t)"
    and "registry_pull (pe_fetch pe tid) (rt_registry rt) reference pin (rt_dir rt) = (Inr l, dir)"
    and "contract_violations (ld_exports l) = Some reason"
  shows "poll_loop W pe (tid # later) rt = (Inl (Contract reason), rt\<lparr>rt_dir := dir\<rparr>)"
  using assms by (simp add: poll_tenant_def poll_wants_def poll_apply_def ensure_contract_def)

definition no_handler_env :: "bytes \<Rightarrow> string fetch_env" where
  "no_handler_env blob = (serve_env (store_digest pad_crypto blob) blob)
     \<lparr>fe_wasm := \<lparr>validate_all = (\<lambda>_. Inr ()), component_exports = (\<lambda>_. Inr [])\<rparr>\<rparr>"

lemma no_handler_pull:
  "\<exists>l dir. registry_pull (no_handler_env blob) (rt_registry (demo_runtime b)) ''acme/echo:latest'' None
     (rt_dir (demo_runtime b)) = (Inr l, dir) \<and> ld_exports l = []"
  using blob_path_digest [OF pad_crypto_ok, of blob]
  by (auto simp: registry_pull_def demo_runtime_def demo_registry_def no_handler_env_def
      fetch_component_def serve_env_def serve_blob_def oci_resolve_def oci_pull_manifest_def
      store_contains_def verify_digest_def oci_digest_of_eq Let_def store_put_success [OF pad_crypto_ok]
      load_cached_def store_get_def amap.get_insert amap.ok_insert amap.ok_remove from_bytes_def)

theorem refused_artifact_ends_pass_witness:
  "\<exists>reason rt'. poll_loop unit_wasm \<lparr>pe_now = 6000000000, pe_fetch = (\<lambda>_. no_handler_env [2]),
      pe_swap_at = (\<lambda>_. 6000000000)\<rparr> [TenantId ''echo'', TenantId ''other''] (demo_runtime [1]) =
     (Inl (Contract reason), rt')"
proof -
  let ?pe = "\<lparr>pe_now = 6000000000, pe_fetch = (\<lambda>_. no_handler_env [2]), pe_swap_at = (\<lambda>_. 6000000000)\<rparr>"
  obtain l dir where pull: "registry_pull (pe_fetch ?pe (TenantId ''echo'')) (rt_registry (demo_runtime [1]))
      ''acme/echo:latest'' None (rt_dir (demo_runtime [1])) = (Inr l, dir)" "ld_exports l = []"
    using no_handler_pull by fastforce
  obtain reason where "contract_violations (ld_exports l) = Some reason"
    by (simp add: pull(2) contract_violations_def Let_def)
  from refused_artifact_ends_pass [OF _ _ _ pull(1) this, of "demo_rt_tenant [1]"]
  show ?thesis by (auto simp: saturating_duration_since_def simp del: poll_loop.simps)
qed

end
