(* ===== verification/Invocation.thy ===== *)
theory Invocation
  imports Ember_Runtime
begin

text \<open>
  Delivering a request to a tenant's component: \<open>invoke\<close> of \<open>src/src/runtime/invoke.rs\<close>.

  \<open>invoke_prepare\<close> is the function up to the wait for an instance (tenant lookup, snapshot of the active
  generation, conversion, context), \<open>invoke_acquire\<close> the acquisition of the instance, and \<open>invoke_finish\<close>
  what follows the guest call for each of its results under the timeout. \<open>invoke\<close> runs the three with the
  guest's calls in between.

  The lemmas show what each part keeps of the runtime invariant, what an invocation counts, and that the
  epoch budget of a reused instance is not renewed.
\<close>

section \<open>One invocation\<close>

datatype 'g call_result = CallReturned guest_response 'g | CallTrapped string | CallElapsed

text \<open>A request that has its tenant, the active generation it saw and its context, and waits for an
  instance; and one whose guest call runs. \<open>fl_called\<close> is when the call, and with it the wall-clock
  budget, began.\<close>

record 'c ticket =
  tk_tenant :: tenant_id
  tk_active :: "'c active_component"
  tk_started :: instant
  tk_request :: guest_request
  tk_ctx :: host_ctx

record ('c, 'g) flight =
  fl_tenant :: tenant_id
  fl_active :: "'c active_component"
  fl_started :: instant
  fl_called :: instant
  fl_prepared :: "'g prepared"
  fl_prog :: "'g guest_prog"

text \<open>The guest's entry: an instance whose epoch deadline is not ahead traps at its first check.\<close>

definition epoch_trap :: string where
  "epoch_trap = ''wasm trap: interrupt''"

definition enter_guest ::
  "('c, 'g) wasm_lib \<Rightarrow> nat \<Rightarrow> 'g prepared \<Rightarrow> guest_request \<Rightarrow> 'g guest_prog" where
  "enter_guest W epoch p req =
     (if pr_deadline p \<le> epoch then GTrap epoch_trap else wl_handle W (pr_guest p) req)"

definition invoke_prepare ::
  "http_lib \<Rightarrow> wasi_os \<Rightarrow> instant \<Rightarrow> tenant_id \<Rightarrow> http_request \<Rightarrow> ('c, 'g) runtime \<Rightarrow> 'c ticket result"
where
  "invoke_prepare H os now tid request rt =
     (case runtime_tenant rt tid of
        None \<Rightarrow> Inl (TenantNotFound (as_str tid))
      | Some t \<Rightarrow>
          (case request_try_from H request of
             Inl e \<Rightarrow> Inl (Http e)
           | Inr guest_request \<Rightarrow>
               (case host_ctx_new os (tn_sandbox t) (tn_bridge t) of
                  Inl e \<Rightarrow> Inl e
                | Inr ctx \<Rightarrow>
                    Inr \<lparr>tk_tenant = tid, tk_active = tn_active t, tk_started = now,
                         tk_request = guest_request, tk_ctx = ctx\<rparr>)))"

text \<open>The tenant of a ticket stays registered: the branch without one is not reached.\<close>

definition invoke_acquire ::
  "('c, 'g) wasm_lib \<Rightarrow> nat \<Rightarrow> instant \<Rightarrow> 'c ticket \<Rightarrow> ('c, 'g) runtime \<Rightarrow>
   ('c, 'g) flight result \<times> ('c, 'g) runtime"
where
  "invoke_acquire W epoch now k rt =
     (case runtime_tenant rt (tk_tenant k) of
        None \<Rightarrow> (Inl (TenantNotFound (as_str (tk_tenant k))), rt)
      | Some t \<Rightarrow>
          (case pool_acquire W epoch (ac_compiled (tk_active k)) (ac_loaded (tk_active k)) (tk_ctx k)
                  (tn_pool t) of
             (Inl e, pool) \<Rightarrow> (Inl e, put_tenant (t\<lparr>tn_pool := pool\<rparr>) rt)
           | (Inr p, pool) \<Rightarrow>
               (Inr \<lparr>fl_tenant = tk_tenant k, fl_active = tk_active k, fl_started = tk_started k,
                     fl_called = now, fl_prepared = p, fl_prog = enter_guest W epoch p (tk_request k)\<rparr>,
                put_tenant (t\<lparr>tn_pool := pool\<rparr>) rt)))"

text \<open>The two without a wait in between.\<close>

definition invoke_begin ::
  "('c, 'g) wasm_lib \<Rightarrow> http_lib \<Rightarrow> wasi_os \<Rightarrow> nat \<Rightarrow> instant \<Rightarrow> tenant_id \<Rightarrow> http_request \<Rightarrow>
   ('c, 'g) runtime \<Rightarrow> ('c, 'g) flight result \<times> ('c, 'g) runtime"
where
  "invoke_begin W H os epoch now tid request rt =
     (case invoke_prepare H os now tid request rt of
        Inl e \<Rightarrow> (Inl e, rt)
      | Inr k \<Rightarrow> invoke_acquire W epoch now k rt)"

definition as_millis :: "duration \<Rightarrow> nat" where
  "as_millis d = d div 1000000"

text \<open>The tenant of a request in flight stays registered: the branch without one is not reached.\<close>

definition invoke_finish ::
  "http_lib \<Rightarrow> instant \<Rightarrow> ('c, 'g) flight \<Rightarrow> 'g call_result \<Rightarrow> ('c, 'g) runtime \<Rightarrow>
   http_response result outcome \<times> ('c, 'g) runtime"
where
  "invoke_finish H now f result rt =
     (case runtime_tenant rt (fl_tenant f) of
        None \<Rightarrow> (Done (Inl (TenantNotFound (as_str (fl_tenant f)))), rt)
      | Some t \<Rightarrow>
          (case result of
             CallReturned resp g \<Rightarrow>
               (let t1 = t\<lparr>tn_pool := pool_release ((fl_prepared f)\<lparr>pr_guest := g\<rparr>) (tn_pool t)\<rparr>;
                    rt1 = put_tenant t1 rt in
                case response_from H resp of
                  Panic m \<Rightarrow> (Panic m, rt1)
                | Done response \<Rightarrow>
                    (Done (Inr response),
                     (put_tenant (t1\<lparr>tn_invocations := tn_invocations t1 + 1\<rparr>) rt1)
                     \<lparr>rt_telemetry := record_invoke (ac_digest (fl_active f)) (now - fl_started f)
                        (rs_status response) (rt_telemetry rt)\<rparr>))
           | CallTrapped e \<Rightarrow> (Done (Inl (Wasm e)), rt)
           | CallElapsed \<Rightarrow>
               (Done (Inl (LimitExceeded (''tenant `'' @ as_str (fl_tenant f) @ ''` exceeded its ''
                  @ show_nat (as_millis (lim_max_wall_duration (sb_limits (tn_sandbox t))))
                  @ ''ms wall-clock budget''))), rt)))"

text \<open>The guest's calls one after the other. A guest that stalls is ended by the timeout.\<close>

primrec run_prog ::
  "http_lib \<Rightarrow> net_client \<Rightarrow> host_ctx \<Rightarrow> 'g guest_prog \<Rightarrow> host_world \<Rightarrow> 'g call_result \<times> host_world" where
  "run_prog H net ctx (GReturn resp g) = (\<lambda>w. (CallReturned resp g, w))"
| "run_prog H net ctx (GTrap e) = (\<lambda>w. (CallTrapped e, w))"
| "run_prog H net ctx GStall = (\<lambda>w. (CallElapsed, w))"
| "run_prog H net ctx (GCall c k) =
     (\<lambda>w. let (reply, w') = exec_call H net ctx c w in run_prog H net ctx (k reply) w')"

definition invoke ::
  "('c, 'g) wasm_lib \<Rightarrow> http_lib \<Rightarrow> net_client \<Rightarrow> wasi_os \<Rightarrow> nat \<Rightarrow> instant \<Rightarrow> instant \<Rightarrow> tenant_id \<Rightarrow>
   http_request \<Rightarrow> ('c, 'g) runtime \<Rightarrow> http_response result outcome \<times> ('c, 'g) runtime"
where
  "invoke W H net os epoch now finished tid request rt =
     (case invoke_begin W H os epoch now tid request rt of
        (Inl e, rt1) \<Rightarrow> (Done (Inl e), rt1)
      | (Inr f, rt1) \<Rightarrow>
          (let (result, w) = run_prog H net (pr_ctx (fl_prepared f)) (fl_prog f) (rt_world rt1) in
           invoke_finish H finished f result (rt1\<lparr>rt_world := w\<rparr>)))"

text \<open>Buffers cross the component boundary with 32-bit lengths.\<close>

fun call_abi :: "host_call \<Rightarrow> bool" where
  "call_abi (CallScratchWrite path data) \<longleftrightarrow> length data < 2 ^ 32"
| "call_abi _ \<longleftrightarrow> True"

section \<open>What invocations keep of a runtime\<close>

text \<open>The parts of the tenants that never change while the runtime serves.\<close>

definition tenant_static :: "('c, 'g) tenant \<Rightarrow> tenant_id \<times> sandbox \<times> bridge \<times> component_source" where
  "tenant_static t = (tn_id t, tn_sandbox t, tn_bridge t, tn_source t)"

definition static_view ::
  "('c, 'g) runtime \<Rightarrow> tenant_id \<Rightarrow> (tenant_id \<times> sandbox \<times> bridge \<times> component_source) option" where
  "static_view rt tid = map_option tenant_static (runtime_tenant rt tid)"

lemma static_view_fields [simp]:
  "static_view (rt\<lparr>rt_telemetry := x\<rparr>) = static_view rt"
  "static_view (rt\<lparr>rt_dir := d\<rparr>) = static_view rt"
  "static_view (rt\<lparr>rt_world := w\<rparr>) = static_view rt"
  by (simp_all add: static_view_def fun_eq_iff)

lemma static_view_put:
  assumes "assoc_ok (rt_tenants rt)" "runtime_tenant rt tid = Some t" "tenant_static t' = tenant_static t"
    and "tn_id t = tid"
  shows "static_view (put_tenant t' rt) = static_view rt"
  using assms by (auto simp: static_view_def put_tenant_lookup fun_eq_iff tenant_static_def)

lemma static_viewD:
  assumes "static_view rt' = static_view rt" "runtime_tenant rt tid = Some t"
  obtains t' where "runtime_tenant rt' tid = Some t'" "tenant_static t' = tenant_static t"
proof -
  from assms have "map_option tenant_static (runtime_tenant rt' tid) = Some (tenant_static t)"
    by (simp add: static_view_def fun_eq_iff)
  with that show thesis by auto
qed

lemma ctx_of_tenant_static:
  "tenant_static t' = tenant_static t \<Longrightarrow> ctx_of_tenant t' ctx \<longleftrightarrow> ctx_of_tenant t ctx"
  by (simp add: ctx_of_tenant_def tenant_static_def)

lemma tenant_ok_pool:
  assumes "tenant_ok W C t" "pool_inv pool" "pool_cap pool = pool_cap (tn_pool t)"
    and "\<forall>p\<in>set (pool_inner pool). ctx_of_tenant t (pr_ctx p)"
  shows "tenant_ok W C (t\<lparr>tn_pool := pool\<rparr>)"
  using assms by (auto simp: tenant_ok_def ctx_of_tenant_def)

lemma acquired_pool:
  assumes "pool_acquire W ep c l ctx pool = (r, pool')" "pool_inv pool"
  shows "pool_inv pool'" "pool_cap pool' = pool_cap pool" "set (pool_inner pool') \<subseteq> set (pool_inner pool)"
  using assms pool_acquire_inv [of pool W ep c l ctx] pool_acquire_pool [of W ep c l ctx pool]
    pool_scan_subset [of "ld_digest l" "pool_inner pool"]
  by auto

lemma new_ctx_of_tenant:
  "tenant_ok W C t \<Longrightarrow> host_ctx_new os (tn_sandbox t) (tn_bridge t) = Inr ctx \<Longrightarrow> ctx_of_tenant t ctx"
  using host_ctx_new_okD [of os "tn_sandbox t" "tn_bridge t" ctx]
  by (simp add: ctx_of_tenant_def tenant_ok_def)

text \<open>\<open>invoke_begin\<close> in one piece, and its two outcomes for a registered tenant.\<close>

lemma invoke_begin_eq:
  "invoke_begin W H os epoch now tid request rt =
     (case runtime_tenant rt tid of
        None \<Rightarrow> (Inl (TenantNotFound (as_str tid)), rt)
      | Some t \<Rightarrow>
          (case request_try_from H request of
             Inl e \<Rightarrow> (Inl (Http e), rt)
           | Inr g \<Rightarrow>
               (case host_ctx_new os (tn_sandbox t) (tn_bridge t) of
                  Inl e \<Rightarrow> (Inl e, rt)
                | Inr ctx \<Rightarrow>
                    (case pool_acquire W epoch (ac_compiled (tn_active t)) (ac_loaded (tn_active t)) ctx
                            (tn_pool t) of
                       (Inl e, pool) \<Rightarrow> (Inl e, put_tenant (t\<lparr>tn_pool := pool\<rparr>) rt)
                     | (Inr p, pool) \<Rightarrow>
                         (Inr \<lparr>fl_tenant = tid, fl_active = tn_active t, fl_started = now,
                               fl_called = now, fl_prepared = p, fl_prog = enter_guest W epoch p g\<rparr>,
                          put_tenant (t\<lparr>tn_pool := pool\<rparr>) rt)))))"
  by (simp add: invoke_begin_def invoke_prepare_def invoke_acquire_def split: option.split sum.split prod.split)


lemma invoke_begin_known:
  assumes "runtime_tenant rt tid = Some t" "invoke_begin W H os epoch now tid request rt = (r, rt')"
  obtains (early) e where "r = Inl e" "rt' = rt"
  | (acquired) ctx res pool g where "host_ctx_new os (tn_sandbox t) (tn_bridge t) = Inr ctx"
      "request_try_from H request = Inr g"
      "pool_acquire W epoch (ac_compiled (tn_active t)) (ac_loaded (tn_active t)) ctx (tn_pool t) = (res, pool)"
      "rt' = put_tenant (t\<lparr>tn_pool := pool\<rparr>) rt"
      "r = (case res of Inl e \<Rightarrow> Inl e
         | Inr p \<Rightarrow> Inr \<lparr>fl_tenant = tid, fl_active = tn_active t, fl_started = now, fl_called = now,
                        fl_prepared = p, fl_prog = enter_guest W epoch p g\<rparr>)"
proof (cases "request_try_from H request")
  case (Inl e)
  with assms early show thesis by (auto simp: invoke_begin_eq)
next
  case conv: (Inr g)
  show thesis
  proof (cases "host_ctx_new os (tn_sandbox t) (tn_bridge t)")
    case (Inl e)
    with assms conv early show thesis by (auto simp: invoke_begin_eq)
  next
    case (Inr ctx)
    obtain res pool where "pool_acquire W epoch (ac_compiled (tn_active t)) (ac_loaded (tn_active t)) ctx
        (tn_pool t) = (res, pool)" by fastforce
    with assms conv Inr show thesis
      by (intro acquired [of ctx g res pool]) (auto simp: invoke_begin_eq split: sum.splits)
  qed
qed

lemma invoke_begin_unknown:
  "runtime_tenant rt tid = None \<Longrightarrow>
     invoke_begin W H os epoch now tid request rt = (Inl (TenantNotFound (as_str tid)), rt)"
  by (simp add: invoke_begin_eq)

definition flight_ok ::
  "('c, 'g) wasm_lib \<Rightarrow> crypto \<Rightarrow> ('c, 'g) runtime \<Rightarrow> ('c, 'g) flight \<Rightarrow> bool" where
  "flight_ok W C rt f \<longleftrightarrow>
     (\<exists>t. runtime_tenant rt (fl_tenant f) = Some t \<and> ctx_of_tenant t (pr_ctx (fl_prepared f)) \<and>
        active_ok W C (tn_source t) (fl_active f) \<and>
        pr_digest (fl_prepared f) = ac_digest (fl_active f))"

lemma flight_ok_static:
  assumes "flight_ok W C rt f" "static_view rt' = static_view rt"
  shows "flight_ok W C rt' f"
proof -
  from assms(1) obtain t where t: "runtime_tenant rt (fl_tenant f) = Some t"
      "ctx_of_tenant t (pr_ctx (fl_prepared f))" "active_ok W C (tn_source t) (fl_active f)"
      "pr_digest (fl_prepared f) = ac_digest (fl_active f)"
    unfolding flight_ok_def by blast
  obtain t' where t': "runtime_tenant rt' (fl_tenant f) = Some t'" and same: "tenant_static t' = tenant_static t"
    using static_viewD [OF assms(2) t(1)] .
  have "ctx_of_tenant t' (pr_ctx (fl_prepared f))" using ctx_of_tenant_static [OF same] t(2) by simp
  moreover have "tn_source t' = tn_source t" using same by (simp add: tenant_static_def)
  ultimately show ?thesis unfolding flight_ok_def using t t' by metis
qed

definition ticket_ok ::
  "('c, 'g) wasm_lib \<Rightarrow> crypto \<Rightarrow> ('c, 'g) runtime \<Rightarrow> 'c ticket \<Rightarrow> bool" where
  "ticket_ok W C rt k \<longleftrightarrow>
     (\<exists>t. runtime_tenant rt (tk_tenant k) = Some t \<and> ctx_of_tenant t (tk_ctx k) \<and>
        active_ok W C (tn_source t) (tk_active k))"

lemma ticket_ok_static:
  assumes "ticket_ok W C rt k" "static_view rt' = static_view rt"
  shows "ticket_ok W C rt' k"
proof -
  from assms(1) obtain t where t: "runtime_tenant rt (tk_tenant k) = Some t"
      "ctx_of_tenant t (tk_ctx k)" "active_ok W C (tn_source t) (tk_active k)"
    unfolding ticket_ok_def by blast
  obtain t' where t': "runtime_tenant rt' (tk_tenant k) = Some t'" and same: "tenant_static t' = tenant_static t"
    using static_viewD [OF assms(2) t(1)] .
  have "ctx_of_tenant t' (tk_ctx k)" using ctx_of_tenant_static [OF same] t(2) by simp
  moreover have "tn_source t' = tn_source t" using same by (simp add: tenant_static_def)
  ultimately show ?thesis unfolding ticket_ok_def using t t' by metis
qed

lemma invoke_prepare_okD:
  assumes "invoke_prepare H os now tid request rt = Inr k"
  obtains t g where "runtime_tenant rt tid = Some t" "request_try_from H request = Inr g"
    "host_ctx_new os (tn_sandbox t) (tn_bridge t) = Inr (tk_ctx k)" "tk_request k = g"
    "tk_tenant k = tid" "tk_active k = tn_active t" "tk_started k = now"
  using assms that by (auto simp: invoke_prepare_def split: option.splits sum.splits)

lemma invoke_prepare_ok:
  assumes "runtime_inv W C rt" "invoke_prepare H os now tid request rt = Inr k"
  shows "ticket_ok W C rt k"
  using assms(2)
proof (rule invoke_prepare_okD)
  fix t g assume t: "runtime_tenant rt tid = Some t" "host_ctx_new os (tn_sandbox t) (tn_bridge t) = Inr (tk_ctx k)"
      "tk_tenant k = tid" "tk_active k = tn_active t"
  note ok = runtime_invD(2) [OF assms(1) t(1)]
  with t new_ctx_of_tenant [OF ok t(2)] show ?thesis by (simp add: ticket_ok_def tenant_ok_def)
qed

text \<open>Acquiring for a ticket changes the pool of its tenant, and hands out an instance of the
  ticket's generation even if the tenant was reloaded while the ticket waited.\<close>

lemma invoke_acquire_known:
  assumes "runtime_tenant rt (tk_tenant k) = Some t" "invoke_acquire W epoch now k rt = (r, rt')"
  obtains res pool where
    "pool_acquire W epoch (ac_compiled (tk_active k)) (ac_loaded (tk_active k)) (tk_ctx k) (tn_pool t) = (res, pool)"
    "rt' = put_tenant (t\<lparr>tn_pool := pool\<rparr>) rt"
    "r = (case res of Inl e \<Rightarrow> Inl e
       | Inr p \<Rightarrow> Inr \<lparr>fl_tenant = tk_tenant k, fl_active = tk_active k, fl_started = tk_started k,
           fl_called = now, fl_prepared = p, fl_prog = enter_guest W epoch p (tk_request k)\<rparr>)"
proof -
  obtain res pool where acq: "pool_acquire W epoch (ac_compiled (tk_active k)) (ac_loaded (tk_active k))
      (tk_ctx k) (tn_pool t) = (res, pool)" by fastforce
  with assms that show thesis
    by (cases res) (auto simp: invoke_acquire_def)
qed

lemma invoke_acquire_inv:
  assumes inv: "runtime_inv W C rt" and k: "ticket_ok W C rt k"
    and b: "invoke_acquire W epoch now k rt = (r, rt')"
  shows "runtime_inv W C rt' \<and> static_view rt' = static_view rt \<and> rt_world rt' = rt_world rt \<and>
    (\<forall>f. r = Inr f \<longrightarrow> flight_ok W C rt' f \<and> fl_called f = now)"
proof -
  from k obtain t where Some: "runtime_tenant rt (tk_tenant k) = Some t" and ctx: "ctx_of_tenant t (tk_ctx k)"
    and act: "active_ok W C (tn_source t) (tk_active k)" unfolding ticket_ok_def by blast
  note t = runtime_invD [OF inv Some]
  from invoke_acquire_known [OF Some b] obtain res pool where
    acquired: "pool_acquire W epoch (ac_compiled (tk_active k)) (ac_loaded (tk_active k)) (tk_ctx k) (tn_pool t) = (res, pool)"
    and rt': "rt' = put_tenant (t\<lparr>tn_pool := pool\<rparr>) rt"
    and r: "r = (case res of Inl e \<Rightarrow> Inl e
       | Inr p \<Rightarrow> Inr \<lparr>fl_tenant = tk_tenant k, fl_active = tk_active k, fl_started = tk_started k,
           fl_called = now, fl_prepared = p, fl_prog = enter_guest W epoch p (tk_request k)\<rparr>)" .
  have pool_ok: "pool_inv (tn_pool t)" and old: "\<forall>p\<in>set (pool_inner (tn_pool t)). ctx_of_tenant t (pr_ctx p)"
    using t(2) by (simp_all add: tenant_ok_def)
  note acq = acquired_pool [OF acquired pool_ok]
  have "tenant_ok W C (t\<lparr>tn_pool := pool\<rparr>)" using t(2) acq old by (intro tenant_ok_pool) auto
  then have "runtime_inv W C rt'"
    unfolding rt' using t(1) by (intro runtime_inv_update [OF inv Some]) simp_all
  moreover have "static_view rt' = static_view rt"
    unfolding rt'
    using inv Some t(1) by (intro static_view_put) (auto simp: tenant_static_def runtime_inv_assoc)
  moreover have "flight_ok W C rt' f \<and> fl_called f = now" if "r = Inr f" for f
  proof -
    from that r obtain p where p: "res = Inr p" and f: "fl_prepared f = p" "fl_tenant f = tk_tenant k"
        "fl_active f = tk_active k" "fl_called f = now" by (auto split: sum.splits)
    have "pr_digest p = ld_digest (ac_loaded (tk_active k))" "ctx_of_tenant t (pr_ctx p)"
      using acquired [unfolded p] old ctx by (auto elim!: pool_acquire_cases)
    with t(1) inv f act show ?thesis
      by (auto simp: flight_ok_def rt' put_tenant_lookup runtime_inv_assoc active_ok_def ctx_of_tenant_def)
  qed
  ultimately show ?thesis by (simp add: rt')
qed

lemma invoke_begin_inv:
  assumes inv: "runtime_inv W C rt" and b: "invoke_begin W H os epoch now tid request rt = (r, rt')"
  shows "runtime_inv W C rt'" "static_view rt' = static_view rt" "rt_world rt' = rt_world rt"
    and "r = Inr f \<Longrightarrow> flight_ok W C rt' f"
proof -
  have "runtime_inv W C rt' \<and> static_view rt' = static_view rt \<and> rt_world rt' = rt_world rt \<and>
      (\<forall>f. r = Inr f \<longrightarrow> flight_ok W C rt' f)"
  proof (cases "invoke_prepare H os now tid request rt")
    case (Inl e)
    with b inv show ?thesis by (auto simp: invoke_begin_def)
  next
    case (Inr k)
    with b invoke_acquire_inv [OF inv invoke_prepare_ok [OF inv Inr]] show ?thesis
      by (simp add: invoke_begin_def)
  qed
  then show "runtime_inv W C rt'" "static_view rt' = static_view rt" "rt_world rt' = rt_world rt"
    and "r = Inr f \<Longrightarrow> flight_ok W C rt' f" by blast+
qed

lemma released_ok:
  assumes "tenant_ok W C t" "ctx_of_tenant t (pr_ctx p)"
  shows "tenant_ok W C (t\<lparr>tn_pool := pool_release (p\<lparr>pr_guest := g\<rparr>) (tn_pool t)\<rparr>)"
proof (rule tenant_ok_pool)
  show "\<forall>q\<in>set (pool_inner (pool_release (p\<lparr>pr_guest := g\<rparr>) (tn_pool t))). ctx_of_tenant t (pr_ctx q)"
    using pool_release_subset [of "p\<lparr>pr_guest := g\<rparr>" "tn_pool t"] assms by (auto simp: tenant_ok_def)
qed (use assms in \<open>auto simp: tenant_ok_def pool_release_inv\<close>)

text \<open>\<open>invoke_finish\<close> changes at most the pool and the invocation count of its tenant.\<close>

lemma invoke_finish_cases:
  assumes "runtime_tenant rt (fl_tenant f) = Some t" "invoke_finish H now f result rt = (out, rt')"
  obtains (failed) e where "out = Done (Inl e)" "rt' = rt" "\<forall>resp g. result \<noteq> CallReturned resp g"
  | (returned) resp g r where "result = CallReturned resp g" "response_from H resp = Done r"
      "rt' = (put_tenant (t\<lparr>tn_pool := pool_release ((fl_prepared f)\<lparr>pr_guest := g\<rparr>) (tn_pool t),
          tn_invocations := tn_invocations t + 1\<rparr>)
        (put_tenant (t\<lparr>tn_pool := pool_release ((fl_prepared f)\<lparr>pr_guest := g\<rparr>) (tn_pool t)\<rparr>) rt))
        \<lparr>rt_telemetry := record_invoke (ac_digest (fl_active f)) (now - fl_started f) (rs_status r)
           (rt_telemetry rt)\<rparr>" "out = Done (Inr r)"
  | (panicked) resp g m where "result = CallReturned resp g" "out = Panic m"
      "rt' = put_tenant (t\<lparr>tn_pool := pool_release ((fl_prepared f)\<lparr>pr_guest := g\<rparr>) (tn_pool t)\<rparr>) rt"
proof (cases result)
  case (CallReturned resp g)
  show thesis
  proof (cases "response_from H resp")
    case (Done r)
    with assms CallReturned show thesis
      by (intro returned [of resp g r]) (auto simp: invoke_finish_def Let_def)
  next
    case (Panic m)
    with assms CallReturned show thesis
      by (intro panicked [of resp g]) (auto simp: invoke_finish_def Let_def)
  qed
qed (use assms failed in \<open>auto simp: invoke_finish_def\<close>)

lemma invoke_finish_inv:
  assumes inv: "runtime_inv W C rt" and f: "flight_ok W C rt f"
    and fin: "invoke_finish H now f result rt = (out, rt')"
  shows "runtime_inv W C rt' \<and> static_view rt' = static_view rt \<and> rt_world rt' = rt_world rt"
proof -
  from f obtain t where t: "runtime_tenant rt (fl_tenant f) = Some t"
    and ctx: "ctx_of_tenant t (pr_ctx (fl_prepared f))" unfolding flight_ok_def by blast
  note inv_t = runtime_invD [OF inv t]
  define t1 where "t1 g = t\<lparr>tn_pool := pool_release ((fl_prepared f)\<lparr>pr_guest := g\<rparr>) (tn_pool t)\<rparr>" for g
  have ok1: "tenant_ok W C (t1 g)" for g unfolding t1_def by (rule released_ok [OF inv_t(2) ctx])
  have id1: "tn_id (t1 g) = fl_tenant f" and sb1: "tn_sandbox (t1 g) = tn_sandbox t"
    and st1: "tenant_static (t1 g) = tenant_static t" for g
    using inv_t(1) by (simp_all add: t1_def tenant_static_def)
  have inv1: "runtime_inv W C (put_tenant (t1 g) rt)" for g
    by (rule runtime_inv_update [OF inv t id1 sb1 ok1])
  have view1: "static_view (put_tenant (t1 g) rt) = static_view rt" for g
    by (rule static_view_put [OF runtime_inv_assoc [OF inv] t st1 inv_t(1)])
  have look1: "runtime_tenant (put_tenant (t1 g) rt) (fl_tenant f) = Some (t1 g)" for g
    using inv id1 by (simp add: put_tenant_lookup runtime_inv_assoc)
  from t fin show ?thesis
  proof (cases rule: invoke_finish_cases)
    case (failed e)
    with inv show ?thesis by simp
  next
    case (panicked resp g m)
    with inv1 view1 show ?thesis by (simp add: t1_def)
  next
    case (returned resp g r)
    let ?n = "tn_invocations t + 1"
    have "tenant_ok W C ((t1 g)\<lparr>tn_invocations := ?n\<rparr>)" by (rule tenant_ok_cells(2) [OF ok1])
    then have "runtime_inv W C (put_tenant ((t1 g)\<lparr>tn_invocations := ?n\<rparr>) (put_tenant (t1 g) rt))"
      using id1 sb1 by (intro runtime_inv_update [OF inv1 look1]) simp_all
    moreover have "static_view (put_tenant ((t1 g)\<lparr>tn_invocations := ?n\<rparr>) (put_tenant (t1 g) rt)) =
        static_view (put_tenant (t1 g) rt)"
      by (rule static_view_put [OF runtime_inv_assoc [OF inv1] look1 _ id1]) (simp add: tenant_static_def)
    ultimately show ?thesis using returned(3) view1 by (simp add: t1_def)
  qed
qed

section \<open>What guest calls and reloads keep\<close>

definition quotas_small :: "('c, 'g) runtime \<Rightarrow> bool" where
  "quotas_small rt \<longleftrightarrow>
     (\<forall>tid t. runtime_tenant rt tid = Some t \<longrightarrow>
        unat (lim_memfs_quota_bytes (sb_limits (tn_sandbox t))) < 2 ^ 62)"

text \<open>Every request handed to the HTTP client was admitted by the bridge of the tenant it is attributed to.\<close>

definition wire_ok :: "('c, 'g) runtime \<Rightarrow> bool" where
  "wire_ok rt \<longleftrightarrow>
     (\<forall>r\<in>set (hw_wire (rt_world rt)). \<exists>t req. runtime_tenant rt (fst r) = Some t \<and>
        send_prepare (tn_bridge t) req = Inr (snd r))"

lemma quotas_small_static:
  assumes "quotas_small rt" "static_view rt' = static_view rt"
  shows "quotas_small rt'"
  unfolding quotas_small_def
proof (intro allI impI)
  fix tid t' assume "runtime_tenant rt' tid = Some t'"
  then obtain t where "runtime_tenant rt tid = Some t" "tenant_static t = tenant_static t'"
    using static_viewD [OF assms(2) [symmetric]] by metis
  with assms(1) show "unat (lim_memfs_quota_bytes (sb_limits (tn_sandbox t'))) < 2 ^ 62"
    unfolding quotas_small_def tenant_static_def by (metis prod.inject)
qed

lemma wire_ok_static:
  assumes "wire_ok rt" "static_view rt' = static_view rt" "rt_world rt' = rt_world rt"
  shows "wire_ok rt'"
  unfolding wire_ok_def
proof
  fix r assume "r \<in> set (hw_wire (rt_world rt'))"
  with assms obtain t req where t: "runtime_tenant rt (fst r) = Some t" "send_prepare (tn_bridge t) req = Inr (snd r)"
    unfolding wire_ok_def by auto
  from static_viewD [OF assms(2) t(1)] obtain t' where "runtime_tenant rt' (fst r) = Some t'"
      "tenant_static t' = tenant_static t" .
  with t(2) show "\<exists>t req. runtime_tenant rt' (fst r) = Some t \<and> send_prepare (tn_bridge t) req = Inr (snd r)"
    by (auto simp: tenant_static_def)
qed

lemma abi_call_fits:
  "call_abi c \<Longrightarrow> unat q < 2 ^ 62 \<Longrightarrow> call_fits (effective_quota q) c"
  by (cases c) (use effective_quota_le [of q] in \<open>auto simp: write_fits_def\<close>)

lemma host_call_inv:
  assumes inv: "runtime_inv W C rt" "quotas_small rt" "wire_ok rt" and f: "flight_ok W C rt f"
    and c: "call_abi c" and ex: "exec_call H net (pr_ctx (fl_prepared f)) c (rt_world rt) = (reply, w)"
  shows "runtime_inv W C (rt\<lparr>rt_world := w\<rparr>)" "wire_ok (rt\<lparr>rt_world := w\<rparr>)"
proof -
  let ?ctx = "pr_ctx (fl_prepared f)"
  have w: "w = snd (exec_call H net ?ctx c (rt_world rt))" using ex by simp
  have "scratch_ok (hw_heap w) (tn_sandbox t)" if "runtime_tenant rt tid = Some t" for tid t
  proof -
    have s: "scratch_ok (hw_heap (rt_world rt)) (tn_sandbox t)" by (rule runtime_invD(3) [OF inv(1) that])
    have "call_fits (effective_quota (quota_bytes (hw_heap (rt_world rt) ! sb_scratch (tn_sandbox t)))) c"
      using abi_call_fits [OF c] inv(2) that s by (simp add: quotas_small_def scratch_ok_def)
    with s show ?thesis
      by (simp add: scratch_ok_def w exec_call_quota exec_call_memfs_inv)
  qed
  with inv(1) show "runtime_inv W C (rt\<lparr>rt_world := w\<rparr>)" unfolding runtime_inv_def by simp
  from f obtain t where t: "runtime_tenant rt (fl_tenant f) = Some t" "ctx_of_tenant t ?ctx"
    unfolding flight_ok_def by blast
  with runtime_invD(1) [OF inv(1)] have own: "runtime_tenant rt (hx_tenant ?ctx) = Some t" "hx_http ?ctx = tn_bridge t"
    by (auto simp: ctx_of_tenant_def)
  obtain rs where "hw_wire w = hw_wire (rt_world rt) @ rs"
    "\<forall>r\<in>set rs. fst r = hx_tenant ?ctx \<and> (\<exists>req. c = CallSend req \<and> send_prepare (hx_http ?ctx) req = Inr (snd r))"
    using exec_call_wire [of H net ?ctx c "rt_world rt"] w by blast
  with inv(3) own show "wire_ok (rt\<lparr>rt_world := w\<rparr>)"
    unfolding wire_ok_def by (auto 0 3)
qed

lemma poll_apply_static:
  assumes inv: "runtime_inv W C rt" and app: "poll_apply W swap_at tid pulled rt = (r, rt')"
  shows "static_view rt' = static_view rt \<and> rt_world rt' = rt_world rt"
proof (cases "runtime_tenant rt tid")
  case None
  with app show ?thesis by (simp add: poll_apply_def)
next
  case (Some t)
  note frame = poll_apply_frame [OF runtime_inv_assoc [OF inv] Some runtime_invD(1) [OF inv Some] app]
  then obtain t' where "runtime_tenant rt' tid = Some t'" "same_identity t t'" by blast
  then have "static_view rt' other = static_view rt other" for other
    using frame Some by (cases "other = tid") (auto simp: static_view_def tenant_static_def same_identity_def)
  with frame show ?thesis by (auto simp: fun_eq_iff)
qed

text \<open>What only the reload pass writes, and invocations leave alone.\<close>

definition tenant_reload :: "('c, 'g) tenant \<Rightarrow> component_source \<times> 'c active_component \<times> instant \<times> usize" where
  "tenant_reload t = (tn_source t, tn_active t, tn_last_swap t, tn_failures t)"

definition reload_view ::
  "('c, 'g) runtime \<Rightarrow> (registry \<times> hot_reload_policy) \<times>
   (tenant_id \<Rightarrow> (component_source \<times> 'c active_component \<times> instant \<times> usize) option) \<times>
   (string \<Rightarrow> nat) \<times> (string \<Rightarrow> nat)" where
  "reload_view rt =
     ((rt_registry rt, rt_policy rt), \<lambda>tid. map_option tenant_reload (runtime_tenant rt tid),
      \<lambda>name. reload_total name (rt_telemetry rt), \<lambda>name. parked_total name (rt_telemetry rt))"

lemma tenant_reload_fields [simp]:
  "tenant_reload (t\<lparr>tn_pool := pool\<rparr>) = tenant_reload t"
  "tenant_reload (t\<lparr>tn_invocations := n\<rparr>) = tenant_reload t"
  by (simp_all add: tenant_reload_def)

lemma reload_view_fields [simp]:
  "(\<And>n. reload_total n tel = reload_total n (rt_telemetry rt)) \<Longrightarrow>
   (\<And>n. parked_total n tel = parked_total n (rt_telemetry rt)) \<Longrightarrow>
   reload_view (rt\<lparr>rt_telemetry := tel\<rparr>) = reload_view rt"
  "reload_view (rt\<lparr>rt_dir := d'\<rparr>) = reload_view rt"
  "reload_view (rt\<lparr>rt_world := w\<rparr>) = reload_view rt"
  by (simp_all add: reload_view_def fun_eq_iff)

lemma reload_view_put:
  assumes "assoc_ok (rt_tenants rt)" "runtime_tenant rt tid = Some t" "tn_id t' = tid"
    and "tenant_reload t' = tenant_reload t"
  shows "reload_view (put_tenant t' rt) = reload_view rt"
  using assms by (auto simp: reload_view_def put_tenant_lookup fun_eq_iff)

lemma reload_viewD:
  assumes "reload_view rt' = reload_view rt" "runtime_tenant rt tid = Some t"
  obtains t' where "runtime_tenant rt' tid = Some t'" "tn_source t' = tn_source t" "tn_active t' = tn_active t"
    "tn_last_swap t' = tn_last_swap t" "rt_policy rt' = rt_policy rt"
proof -
  from assms have "rt_policy rt' = rt_policy rt"
    and "map_option tenant_reload (runtime_tenant rt' tid) = Some (tenant_reload t)"
    by (simp_all add: reload_view_def fun_eq_iff)
  with that show thesis by (auto simp: tenant_reload_def)
qed

lemma invoke_acquire_reload_view:
  assumes "runtime_inv W C rt" "ticket_ok W C rt k" "invoke_acquire W epoch now k rt = (r, rt')"
  shows "reload_view rt' = reload_view rt"
proof -
  from assms(2) obtain t where t: "runtime_tenant rt (tk_tenant k) = Some t" unfolding ticket_ok_def by blast
  from invoke_acquire_known [OF t assms(3)] obtain pool where "rt' = put_tenant (t\<lparr>tn_pool := pool\<rparr>) rt" .
  then show ?thesis
    using t runtime_invD(1) [OF assms(1) t] by (simp add: reload_view_put [OF runtime_inv_assoc [OF assms(1)] t])
qed

lemma invoke_finish_reload_view:
  assumes inv: "runtime_inv W C rt" and f: "flight_ok W C rt f"
    and fin: "invoke_finish H now f result rt = (out, rt')"
  shows "reload_view rt' = reload_view rt"
proof -
  from f obtain t where t: "runtime_tenant rt (fl_tenant f) = Some t" unfolding flight_ok_def by blast
  note put = reload_view_put [OF runtime_inv_assoc [OF inv] t]
  have id: "tn_id t = fl_tenant f" by (rule runtime_invD(1) [OF inv t])
  from t fin show ?thesis
  proof (cases rule: invoke_finish_cases)
    case (returned resp g r)
    let ?t = "t\<lparr>tn_pool := pool_release ((fl_prepared f)\<lparr>pr_guest := g\<rparr>) (tn_pool t)\<rparr>"
    have "runtime_tenant (put_tenant ?t rt) (fl_tenant f) = Some ?t"
      using id runtime_inv_assoc [OF inv] by (simp add: put_tenant_lookup)
    moreover have "assoc_ok (rt_tenants (put_tenant ?t rt))"
      using runtime_inv_assoc [OF inv] by (simp add: put_tenant_def amap.ok_insert)
    ultimately show ?thesis
      using id put [of ?t] by (simp add: returned(3) reload_view_put [where t = ?t and tid = "fl_tenant f"])
  qed (use id put in simp_all)
qed

lemma tenant_ok_pool_bound:
  assumes "tenant_ok W C t"
  shows "length (pool_inner (tn_pool t)) \<le> max 1 (unat (lim_max_instances (sb_limits (tn_sandbox t))))"
proof -
  have "unat (max n 1) = max 1 (unat n)" for n :: usize
    by (auto simp: max_def word_le_nat_alt)
  moreover have "pool_inv (tn_pool t)"
      "pool_cap (tn_pool t) = max (lim_max_instances (sb_limits (tn_sandbox t))) 1"
    using assms by (simp_all add: tenant_ok_def)
  ultimately show ?thesis by (metis ipool.inv_bound)
qed

lemma scratch_ok_usage:
  assumes "scratch_ok heap sb"
  shows "unat (used (heap ! sb_scratch sb)) = assoc_weight length (files (heap ! sb_scratch sb))"
    and "unat (used (heap ! sb_scratch sb)) \<le> unat (lim_memfs_quota_bytes (sb_limits sb))"
  using assms effective_quota_le by (auto simp: scratch_ok_def memfs_inv_def intro: le_trans)

section \<open>Guest programs\<close>

primrec prog_abi :: "'g guest_prog \<Rightarrow> bool" where
  "prog_abi (GReturn resp g) = True"
| "prog_abi (GTrap e) = True"
| "prog_abi GStall = True"
| "prog_abi (GCall c k) = (call_abi c \<and> (\<forall>reply. prog_abi (k reply)))"

fun ended_with :: "'g guest_prog \<Rightarrow> 'g call_result \<Rightarrow> bool" where
  "ended_with p (CallReturned resp g) \<longleftrightarrow> p = GReturn resp g"
| "ended_with p (CallTrapped e) \<longleftrightarrow> p = GTrap e"
| "ended_with p CallElapsed \<longleftrightarrow> p = GStall"

lemma invoke_finish_prog [simp]:
  "invoke_finish H now (f\<lparr>fl_prog := p\<rparr>) result rt = invoke_finish H now f result rt"
  by (simp add: invoke_finish_def Let_def split: option.split call_result.split outcome.split)

lemma invoke_begin_flight:
  assumes "runtime_tenant rt tid = Some t" "tn_id t = tid" "assoc_ok (rt_tenants rt)"
    and "invoke_begin W H os epoch now tid request rt = (Inr f, rt')"
  shows "fl_tenant f = tid" "fl_called f = now"
    and "(\<And>g req. prog_abi (wl_handle W g req)) \<Longrightarrow> prog_abi (fl_prog f)"
    and "\<exists>t'. runtime_tenant rt' tid = Some t' \<and> tn_sandbox t' = tn_sandbox t"
proof -
  have "fl_tenant f = tid \<and> fl_called f = now \<and>
      (\<exists>p g. fl_prog f = enter_guest W epoch p g) \<and>
      (\<exists>t'. runtime_tenant rt' tid = Some t' \<and> tn_sandbox t' = tn_sandbox t)"
    using assms(1,4)
  proof (cases rule: invoke_begin_known)
    case (acquired ctx res pool g)
    then show ?thesis using assms(2,3) by (cases res) (auto simp: put_tenant_lookup)
  qed simp
  then show "fl_tenant f = tid" "fl_called f = now"
    and "(\<And>g req. prog_abi (wl_handle W g req)) \<Longrightarrow> prog_abi (fl_prog f)"
    and "\<exists>t'. runtime_tenant rt' tid = Some t' \<and> tn_sandbox t' = tn_sandbox t"
    by (auto simp: enter_guest_def)
qed

section \<open>A concrete runtime\<close>

lemma demo_limits: "limits_validate sandbox_limits_default = Inr ()"
  by (simp add: limits_validate_ok_iff sandbox_limits_default_def from_secs_def)

lemma demo_tenant_ok: "tenant_ok unit_wasm pad_crypto (demo_rt_tenant blob)"
proof -
  have "valid_tenant_name ''echo''" by code_simp
  moreover have "pool_inv (pool_new 8 :: nat instance_pool)" by (rule pool_new_inv)
  moreover have "active_ok unit_wasm pad_crypto (SourceOci ''acme/echo:latest'' None) (demo_active blob)"
    by (simp add: active_ok_def demo_active_def demo_loaded_contract)
      (simp add: loaded_ok_def demo_loaded_def unit_wasm_def)
  ultimately show ?thesis
    by (simp add: tenant_ok_def demo_rt_tenant_def demo_sandbox_def)
      (simp add: pool_new_def sandbox_limits_default_def max_def)
qed

lemma demo_runtime_inv: "runtime_inv unit_wasm pad_crypto (demo_runtime blob)"
proof -
  have "tn_sandbox (demo_rt_tenant blob) = demo_sandbox" by (simp add: demo_rt_tenant_def)
  moreover have "scratch_ok (hw_heap (rt_world (demo_runtime blob))) demo_sandbox"
    by (simp add: scratch_ok_def demo_runtime_def demo_sandbox_def memfs_inv_new)
  moreover have "store_inv pad_crypto (rt_dir (demo_runtime blob))"
    by (simp add: demo_runtime_def store_inv_empty)
  ultimately show ?thesis by (simp add: runtime_inv_def demo_tenant_ok)
qed

section \<open>Properties\<close>

text \<open>C26: What an invocation changes. A delivered response adds one to the tenant's invocation count and one
  to \<open>ember.invoke.total\<close>; every other outcome, a trap and a timeout included, leaves both and all
  metrics as they were. Either way the active component stays and no other tenant changes.\<close>

theorem invoke_accounting:
  assumes "runtime_inv W C rt" and "runtime_tenant rt tid = Some t"
    and "invoke W H net os epoch now finished tid request rt = (Done res, rt')"
  shows "(\<exists>t'. runtime_tenant rt' tid = Some t' \<and> tn_active t' = tn_active t \<and>
      tenant_static t' = tenant_static t \<and>
      (case res of
         Inr r \<Rightarrow> tn_invocations t' = tn_invocations t + 1 \<and>
           invoke_total (rt_telemetry rt') = Suc (invoke_total (rt_telemetry rt))
       | Inl e \<Rightarrow> tn_invocations t' = tn_invocations t \<and> rt_telemetry rt' = rt_telemetry rt)) \<and>
    (\<forall>other. other \<noteq> tid \<longrightarrow> runtime_tenant rt' other = runtime_tenant rt other)"
proof -
  obtain r1 rt1 where b: "invoke_begin W H os epoch now tid request rt = (r1, rt1)" by fastforce
  have ok: "assoc_ok (rt_tenants rt)" and tid: "tn_id t = tid"
    using runtime_inv_assoc [OF assms(1)] runtime_invD(1) [OF assms(1,2)] by blast+
  obtain pool where rt1: "rt1 = rt \<or> rt1 = put_tenant (t\<lparr>tn_pool := pool\<rparr>) rt"
    and tel1: "rt_telemetry rt1 = rt_telemetry rt"
    using assms(2) b by (cases rule: invoke_begin_known) auto
  obtain t1 where t1: "runtime_tenant rt1 tid = Some t1" and st: "tenant_static t1 = tenant_static t"
    and t1a: "tn_active t1 = tn_active t" "tn_invocations t1 = tn_invocations t" "tn_id t1 = tid"
    and rest1: "\<And>other. other \<noteq> tid \<Longrightarrow> runtime_tenant rt1 other = runtime_tenant rt other"
    using rt1 ok tid assms(2) by (auto simp: put_tenant_lookup tenant_static_def)
  have ok1: "assoc_ok (rt_tenants rt1)"
    using rt1 ok by (auto simp: put_tenant_def amap.ok_insert)
  show ?thesis
  proof (cases r1)
    case (Inl e)
    with assms(3) b have "res = Inl e" "rt' = rt1" by (auto simp: invoke_def)
    with t1 st t1a rest1 tel1 show ?thesis by auto
  next
    case (Inr f)
    obtain result w where "run_prog H net (pr_ctx (fl_prepared f)) (fl_prog f) (rt_world rt1) = (result, w)"
      by fastforce
    with assms(3) b Inr have fin: "invoke_finish H finished f result (rt1\<lparr>rt_world := w\<rparr>) = (Done res, rt')"
      by (simp add: invoke_def)
    have "fl_tenant f = tid" using assms(2) b Inr by (cases rule: invoke_begin_known) (auto split: sum.splits)
    with t1 have look: "runtime_tenant (rt1\<lparr>rt_world := w\<rparr>) (fl_tenant f) = Some t1" by simp
    have put: "assoc_ok (rt_tenants (put_tenant u (rt1\<lparr>rt_world := w\<rparr>)))" for u
      using ok1 by (simp add: put_tenant_def amap.ok_insert)
    from look fin show ?thesis
    proof (cases rule: invoke_finish_cases)
      case (failed e)
      with t1 st t1a rest1 tel1 show ?thesis by auto
    next
      case (returned resp g r)
      with st t1a rest1 tel1 ok1 put show ?thesis by (auto simp: put_tenant_lookup tenant_static_def)
    qed simp
  qed
qed

definition get_ping :: http_request where
  "get_ping = \<lparr>rq_method = ''GET'', rq_uri = demo_uri ''http'' ''80'', rq_headers = [], rq_body = []\<rparr>"

lemma demo_invoke:
  "\<exists>r rt'. invoke unit_wasm ascii_http (\<lambda>_. Inl ''down'') demo_os 0 0 finished (TenantId ''echo'') get_ping
     (demo_runtime [1]) = (Done (Inr r), rt') \<and> rs_status r = 200"
proof -
  obtain ctx where ctx: "host_ctx_new demo_os (tn_sandbox (demo_rt_tenant [1]))
      (tn_bridge (demo_rt_tenant [1])) = Inr ctx"
    by (simp add: host_ctx_new_def wasi_new_def demo_rt_tenant_def demo_sandbox_def Let_def)
  have pool: "pool_inner (tn_pool (demo_rt_tenant [1])) = []"
    by (simp add: demo_rt_tenant_def pool_new_def)
  have "0 < unat (max (lim_max_epoch_delta (sb_limits (hx_sandbox ctx))) 1)"
    by (auto simp: max_def unat_gt_0)
  then show ?thesis
    by (simp add: invoke_def invoke_begin_eq request_try_from_def get_ping_def demo_uri_def ctx
        pool_acquire_def pool unit_wasm_def enter_guest_def invoke_finish_def put_tenant_lookup
        response_from_def ascii_http_def Let_def)
qed

theorem invoke_accounting_witness:
  "\<exists>r rt' t'. invoke unit_wasm ascii_http (\<lambda>_. Inl ''down'') demo_os 0 0 5 (TenantId ''echo'') get_ping
       (demo_runtime [1]) = (Done (Inr r), rt') \<and>
     runtime_tenant rt' (TenantId ''echo'') = Some t' \<and> tn_invocations t' = 1"
proof -
  obtain r rt' where run: "invoke unit_wasm ascii_http (\<lambda>_. Inl ''down'') demo_os 0 0 5 (TenantId ''echo'')
      get_ping (demo_runtime [1]) = (Done (Inr r), rt')" using demo_invoke by blast
  have "runtime_tenant (demo_runtime [1]) (TenantId ''echo'') = Some (demo_rt_tenant [1])" by simp
  from invoke_accounting [OF demo_runtime_inv this run] run show ?thesis
    by (auto simp: demo_rt_tenant_def)
qed

text \<open>C37: The epoch budget of a warm instance is not renewed. The deadline is armed when an instance is
  created and not when it is reused, so a request that finds a pooled instance of the right digest
  whose deadline has passed fails with the interrupt trap whatever the guest would do, without a
  single import call; the instance is gone from the pool afterwards.\<close>

theorem warm_instance_expires:
  assumes "runtime_inv W C rt" and "runtime_tenant rt tid = Some t"
    and "host_ctx_new os (tn_sandbox t) (tn_bridge t) = Inr ctx"
    and "pool_inner (tn_pool t) = p # rest" and "pr_digest p = ld_digest (ac_loaded (tn_active t))"
    and "pr_deadline p \<le> epoch"
  shows "invoke W H net os epoch now finished tid request rt =
    (Done (Inl (Wasm epoch_trap)), put_tenant (t\<lparr>tn_pool := (tn_pool t)\<lparr>pool_inner := rest\<rparr>\<rparr>) rt)"
proof -
  define rt1 where "rt1 = put_tenant (t\<lparr>tn_pool := (tn_pool t)\<lparr>pool_inner := rest\<rparr>\<rparr>) rt"
  obtain g where g: "request_try_from H request = Inr g"
    by (cases "uri_query (rq_uri request)") (simp_all add: request_try_from_def)
  have start: "invoke_begin W H os epoch now tid request rt =
      (Inr \<lparr>fl_tenant = tid, fl_active = tn_active t, fl_started = now, fl_called = now,
            fl_prepared = p, fl_prog = GTrap epoch_trap\<rparr>, rt1)"
    using assms(2-6) g by (simp add: invoke_begin_eq pool_acquire_def enter_guest_def rt1_def)
  have "runtime_tenant rt1 tid = Some (t\<lparr>tn_pool := (tn_pool t)\<lparr>pool_inner := rest\<rparr>\<rparr>)"
    using runtime_invD(1) [OF assms(1,2)] runtime_inv_assoc [OF assms(1)]
    by (simp add: rt1_def put_tenant_lookup)
  moreover have "rt1\<lparr>rt_world := rt_world rt1\<rparr> = rt1" by (cases rt1) simp
  ultimately have "invoke W H net os epoch now finished tid request rt = (Done (Inl (Wasm epoch_trap)), rt1)"
    unfolding invoke_def start by (simp add: invoke_finish_def)
  then show ?thesis by (simp add: rt1_def)
qed

definition warm_runtime :: "(unit, nat) runtime" where
  "warm_runtime = put_tenant ((demo_rt_tenant [1])\<lparr>tn_pool := \<lparr>pool_inner =
     [\<lparr>pr_digest = store_digest pad_crypto [1],
       pr_ctx = \<lparr>hx_tenant = TenantId ''echo'', hx_sandbox = demo_sandbox, hx_config = [],
         hx_wasi = \<lparr>wx_inherit_stdio = True, wx_env = [], wx_preopens = []\<rparr>,
         hx_http = tn_bridge (demo_rt_tenant [1]), hx_egress = tn_bridge (demo_rt_tenant [1])\<rparr>,
       pr_deadline = 9, pr_guest = 5\<rparr>], pool_cap = 8\<rparr>\<rparr>) (demo_runtime [1])"

lemma warm_runtime_inv: "runtime_inv unit_wasm pad_crypto warm_runtime"
proof -
  have "runtime_tenant (demo_runtime [1]) (TenantId ''echo'') = Some (demo_rt_tenant [1])" by simp
  then show ?thesis
    unfolding warm_runtime_def
    by (rule runtime_inv_update [OF demo_runtime_inv])
      (use demo_tenant_ok [of "[1]"] in \<open>auto simp: tenant_ok_def ctx_of_tenant_def pool_inv_def
        demo_rt_tenant_def demo_sandbox_def pool_new_def\<close>)
qed

theorem warm_instance_expires_witness:
  "fst (invoke unit_wasm ascii_http (\<lambda>_. Inl ''down'') demo_os 9 0 0 (TenantId ''echo'') get_ping
     warm_runtime) = Done (Inl (Wasm epoch_trap))"
proof -
  let ?t = "the (runtime_tenant warm_runtime (TenantId ''echo''))"
  have t: "runtime_tenant warm_runtime (TenantId ''echo'') = Some ?t"
    by (simp add: warm_runtime_def put_tenant_lookup)
  obtain ctx where ctx: "host_ctx_new demo_os (tn_sandbox ?t) (tn_bridge ?t) = Inr ctx"
    by (simp add: warm_runtime_def put_tenant_lookup host_ctx_new_def wasi_new_def demo_rt_tenant_def
        demo_sandbox_def Let_def)
  obtain p rest where "pool_inner (tn_pool ?t) = p # rest" "pr_digest p = ld_digest (ac_loaded (tn_active ?t))"
      "pr_deadline p \<le> 9"
    by (simp add: warm_runtime_def put_tenant_lookup demo_rt_tenant_def demo_active_def demo_loaded_def)
  from warm_instance_expires [OF warm_runtime_inv t ctx this] show ?thesis by simp
qed

end
