(* ===== verification/Http_Ingress.thy ===== *)
theory Http_Ingress
  imports Invocation
begin

text \<open>
  The HTTP ingress of \<open>src/src/http/ingress.rs\<close>: the handlers behind the router, the dispatch of a
  tenant request through the \<open>Dispatcher\<close> trait, and the rendering of errors.

  The trait is the locale \<open>dispatcher\<close>: what the ingress may rely on of any dispatcher, with the
  ingress lemmas proved over it, and interpreted on \<open>invoke\<close>, the runtime's implementation. The router
  is the table of routes and layers the source builds; route matching, the behaviour of the tower
  layers and the body stream belong to axum, tower and \<open>http-body-util\<close>:
  \<open>ingress_lib\<close> has the calls the handler makes, collecting a body under a limit and building a
  request from method, address, headers and body; a handler gets the captured path segment as its argument.
\<close>

section \<open>Errors as responses\<close>

datatype ingress_error = IngressError error

datatype json = JString string | JNumber nat | JObject "(string \<times> json) list"

record json_response =
  jr_status :: u16
  jr_body :: json

definition into_response :: "http_lib \<Rightarrow> ingress_error \<Rightarrow> json_response" where
  "into_response H err =
     (case err of IngressError e \<Rightarrow>
       (let st = (if status_valid H (status e) then status e else 500) in
        \<lparr>jr_status = st,
         jr_body = JObject [(''error'', JString (error_to_string e)), (''status'', JNumber (unat st))]\<rparr>))"

section \<open>Handlers\<close>

definition healthz :: string where
  "healthz = ''ok''"

definition metrics_handler ::
  "(telemetry \<Rightarrow> string) \<Rightarrow> string + unit \<Rightarrow> telemetry \<Rightarrow> ((string \<times> string) list \<times> string) \<times> telemetry" where
  "metrics_handler render install t =
     (let (text, t') = render_metrics render install t in
      (([(''content-type'', ''text/plain; version=0.0.4; charset=utf-8'')], text), t'))"

record ingress_lib =
  il_collect :: "usize \<Rightarrow> bytes \<Rightarrow> string + bytes"
  il_method :: "string \<Rightarrow> string + string"
  il_uri :: "uri \<Rightarrow> string + uri"
  il_build :: "http_request \<Rightarrow> string + http_request"

text \<open>Documented behaviour: a body within the limit is collected, a longer one is an error, and a request
  built from valid parts is that request.\<close>

definition ingress_lib_ok :: "ingress_lib \<Rightarrow> bool" where
  "ingress_lib_ok L \<longleftrightarrow>
     (\<forall>limit b. length b \<le> unat limit \<longrightarrow> il_collect L limit b = Inr b) \<and>
     (\<forall>limit b. unat limit < length b \<longrightarrow> (\<exists>e. il_collect L limit b = Inl e)) \<and>
     (\<forall>m. il_method L m = Inr m) \<and> (\<forall>u. il_uri L u = Inr u) \<and>
     (\<forall>req. il_build L req = Inr req)"

text \<open>Copying the request headers into the new builder; a refused header panics on \<open>unwrap\<close>.\<close>

fun copy_request_headers :: "http_lib \<Rightarrow> headers \<Rightarrow> headers \<Rightarrow> headers outcome" where
  "copy_request_headers H out [] = Done out"
| "copy_request_headers H out ((name, v) # rest) =
     (case add_header H out name v of
        Some next \<Rightarrow> copy_request_headers H next rest
      | None \<Rightarrow> Panic ''called `Result::unwrap()` on an `Err` value'')"

text \<open>\<open>dispatch\<close>: the captured tenant segment, the request's parts and body, and the dispatcher's state.\<close>

definition ingress_dispatch ::
  "http_lib \<Rightarrow> ingress_lib \<Rightarrow> http_config \<Rightarrow>
   (tenant_id \<Rightarrow> http_request \<Rightarrow> 's \<Rightarrow> http_response result outcome \<times> 's) \<Rightarrow>
   string \<Rightarrow> http_request \<Rightarrow> 's \<Rightarrow> (ingress_error + http_response) outcome \<times> 's"
where
  "ingress_dispatch H L cfg disp tenant request s =
     (case il_collect L (hc_max_body_bytes cfg) (rq_body request) of
        Inl e \<Rightarrow> (Done (Inl (IngressError (Http e))), s)
      | Inr bytes \<Rightarrow>
     (case il_method L (rq_method request) of
        Inl e \<Rightarrow> (Done (Inl (IngressError (Http e))), s)
      | Inr method \<Rightarrow>
     (case il_uri L (rq_uri request) of
        Inl e \<Rightarrow> (Done (Inl (IngressError (Http e))), s)
      | Inr uri \<Rightarrow>
     (case copy_request_headers H [] (rq_headers request) of
        Panic m \<Rightarrow> (Panic m, s)
      | Done hs \<Rightarrow>
     (case il_build L \<lparr>rq_method = method, rq_uri = uri, rq_headers = hs, rq_body = bytes\<rparr> of
        Inl e \<Rightarrow> (Done (Inl (IngressError (Http e))), s)
      | Inr converted \<Rightarrow>
     (case tenant_parse tenant of
        Inl e \<Rightarrow> (Done (Inl (IngressError e)), s)
      | Inr tid \<Rightarrow>
     (case disp tid converted s of
        (Panic m, s') \<Rightarrow> (Panic m, s')
      | (Done (Inl e), s') \<Rightarrow> (Done (Inl (IngressError e)), s')
      | (Done (Inr response), s') \<Rightarrow> (Done (Inr response), s'))))))))"

section \<open>Router and listener\<close>

record 's runtime_state =
  st_dispatcher :: "tenant_id \<Rightarrow> http_request \<Rightarrow> 's \<Rightarrow> http_response result outcome \<times> 's"
  st_bridge :: bridge
  st_config :: http_config

datatype method_filter = FilterGet | FilterAny

datatype handler = HandleHealthz | HandleMetrics | HandleDispatch

datatype tower_layer =
    SetRequestId string
  | PropagateRequestId string
  | TraceHttp
  | CatchPanic
  | TimeoutAfter duration
  | ConcurrencyLimit usize

text \<open>The table the source hands to axum. \<open>Router::route\<close> panics on a path pattern it does not accept;
  \<open>route_check\<close> is that panic's message, if any.\<close>

record router_table =
  ro_routes :: "(string \<times> method_filter \<times> handler) list"
  ro_layers :: "tower_layer list"

fun add_routes ::
  "(string \<Rightarrow> string option) \<Rightarrow> (string \<times> method_filter \<times> handler) list \<Rightarrow>
   (string \<times> method_filter \<times> handler) list \<Rightarrow> (string \<times> method_filter \<times> handler) list outcome"
where
  "add_routes route_check acc [] = Done acc"
| "add_routes route_check acc ((path, route) # rest) =
     (case route_check path of
        Some m \<Rightarrow> Panic m
      | None \<Rightarrow> add_routes route_check (acc @ [(path, route)]) rest)"

definition router :: "(string \<Rightarrow> string option) \<Rightarrow> 's runtime_state \<Rightarrow> router_table outcome" where
  "router route_check st =
     (case add_routes route_check []
             [(''/healthz'', FilterGet, HandleHealthz), (''/metrics'', FilterGet, HandleMetrics),
              (''/{tenant}/*rest'', FilterAny, HandleDispatch)] of
        Panic m \<Rightarrow> Panic m
      | Done routes \<Rightarrow>
          Done \<lparr>ro_routes = routes,
            ro_layers = [SetRequestId ''x-request-id'', PropagateRequestId ''x-request-id'', TraceHttp,
              CatchPanic, TimeoutAfter (http_timeout (st_config st)),
              ConcurrencyLimit (hc_concurrency (st_config st))]\<rparr>)"

text \<open>\<open>shutdown_signal\<close>. Waiting for a signal either fails to install its handler, or has the instant the
  signal arrives at, if it ever does. \<open>select!\<close> polls the two branches beginning with either, and is over
  when the first of them is. Outside Unix the second branch waits for ever.\<close>

record signal_os =
  sg_ctrl_c :: "string + instant option"
  sg_unix :: bool
  sg_terminate :: "string + instant option"
  sg_ctrl_c_first :: bool

definition wait_ctrl_c :: "signal_os \<Rightarrow> instant option outcome" where
  "wait_ctrl_c sg =
     (case sg_ctrl_c sg of
        Inl e \<Rightarrow> Panic (''failed to install Ctrl-C handler: '' @ e)
      | Inr arrives \<Rightarrow> Done arrives)"

definition wait_terminate :: "signal_os \<Rightarrow> instant option outcome" where
  "wait_terminate sg =
     (if \<not> sg_unix sg then Done None
      else case sg_terminate sg of
        Inl e \<Rightarrow> Panic (''failed to install SIGTERM handler: '' @ e)
      | Inr arrives \<Rightarrow> Done arrives)"

fun first_of :: "instant option \<Rightarrow> instant option \<Rightarrow> instant option" where
  "first_of None b = b"
| "first_of a None = a"
| "first_of (Some x) (Some y) = Some (min x y)"

fun select_first :: "instant option outcome \<Rightarrow> instant option outcome \<Rightarrow> instant option outcome" where
  "select_first (Panic m) other = Panic m"
| "select_first (Done a) (Panic m) = Panic m"
| "select_first (Done a) (Done b) = Done (first_of a b)"

definition shutdown_signal :: "signal_os \<Rightarrow> instant option outcome" where
  "shutdown_signal sg =
     (if sg_ctrl_c_first sg then select_first (wait_ctrl_c sg) (wait_terminate sg)
      else select_first (wait_terminate sg) (wait_ctrl_c sg))"

text \<open>Binding, the bound address, and serving a router until shutdown.\<close>

record 'l listener_os =
  ls_bind :: "socket_addr \<Rightarrow> io_error + 'l"
  ls_local_addr :: "'l \<Rightarrow> io_error + socket_addr"
  ls_route_check :: "string \<Rightarrow> string option"
  ls_serve :: "'l \<Rightarrow> router_table \<Rightarrow> instant option outcome \<Rightarrow> string + unit"
  ls_signals :: signal_os

definition ingress_serve ::
  "'l listener_os \<Rightarrow> 's runtime_state \<Rightarrow> socket_addr \<Rightarrow> unit result outcome" where
  "ingress_serve ls st bind =
     (case ls_bind ls bind of
        Inl e \<Rightarrow> Done (Inl (Io e))
      | Inr listener \<Rightarrow>
          (case ls_local_addr ls listener of
             Inl e \<Rightarrow> Done (Inl (Io e))
           | Inr _ \<Rightarrow>
               (case router (ls_route_check ls) st of
                  Panic m \<Rightarrow> Panic m
                | Done table \<Rightarrow>
                    Done (map_err (\<lambda>e. Io (IoError OtherKind e))
                      (ls_serve ls listener table (shutdown_signal (ls_signals ls)))))))"

text \<open>\<open>Runtime::serve\<close>: the state shared with the router has the runtime as its dispatcher.\<close>

definition runtime_serve ::
  "'l listener_os \<Rightarrow> ('c, 'g) wasm_lib \<Rightarrow> http_lib \<Rightarrow> net_client \<Rightarrow> wasi_os \<Rightarrow> nat \<Rightarrow> instant \<Rightarrow> instant \<Rightarrow>
   ('c, 'g) runtime \<Rightarrow> socket_addr \<Rightarrow> unit result outcome"
where
  "runtime_serve ls W H net os epoch now finished rt bind =
     ingress_serve ls
       \<lparr>st_dispatcher = invoke W H net os epoch now finished, st_bridge = rt_bridge rt,
        st_config = rt_http rt\<rparr> bind"

text \<open>axum 0.8 refuses a path segment that starts with an asterisk (a wildcard is written in braces), so
  with that rule the tenant route is refused and the server panics before it answers a request.\<close>

theorem tenant_route_refused:
  assumes "\<And>path. (\<exists>seg\<in>set (split_on (CHR ''/'') path). seg \<noteq> [] \<and> hd seg = CHR ''*'') \<Longrightarrow>
      ls_route_check ls path \<noteq> None"
    and "ls_bind ls bind = Inr l" and "ls_local_addr ls l = Inr a"
  shows "\<exists>m. ingress_serve ls st bind = Panic m"
proof -
  have "\<exists>seg\<in>set (split_on (CHR ''/'') ''/{tenant}/*rest''). seg \<noteq> [] \<and> hd seg = CHR ''*''" by code_simp
  then have "ls_route_check ls ''/{tenant}/*rest'' \<noteq> None" by (rule assms(1))
  then have "\<exists>m. router (ls_route_check ls) st = Panic m"
    by (auto simp: router_def split: option.splits)
  with assms(2,3) show ?thesis by (auto simp: ingress_serve_def)
qed

text \<open>With both handlers installed, the shutdown begins at the first signal, whichever it is and
  whichever branch was polled first, and never without one.\<close>

lemma first_of_commute: "first_of a b = first_of b a"
  by (cases a; cases b) (simp_all add: min.commute)

lemma first_of_Some_iff:
  "first_of a b = Some t \<longleftrightarrow> (a = Some t \<or> b = Some t) \<and> (\<forall>x. a = Some x \<or> b = Some x \<longrightarrow> t \<le> x)"
  by (cases a; cases b) (auto simp: min_def)

lemma shutdown_at_first_signal:
  assumes "sg_ctrl_c sg = Inr a" "sg_unix sg" "sg_terminate sg = Inr b"
  shows "shutdown_signal sg = Done (first_of a b)"
  using assms by (simp add: shutdown_signal_def wait_ctrl_c_def wait_terminate_def first_of_commute)

section \<open>The dispatcher interface\<close>

lemma copy_request_headers_ok:
  assumes "http_lib_ok H" "copy_request_headers H out hs = Done r"
  shows "r = out @ hs"
  using assms(2)
proof (induction hs arbitrary: out)
  case (Cons h rest)
  obtain n v where h: "h = (n, v)" by fastforce
  with Cons.prems obtain next_hs where a: "add_header H out n v = Some next_hs"
    and r: "copy_request_headers H next_hs rest = Done r" by (auto split: option.splits)
  have "next_hs = out @ [h]" using http_lib_okD(2) [OF assms(1) a] h by simp
  with Cons.IH [OF r] show ?case by simp
qed simp

locale dispatcher =
  fixes disp :: "tenant_id \<Rightarrow> http_request \<Rightarrow> 's \<Rightarrow> http_response result outcome \<times> 's"
    and known :: "'s \<Rightarrow> tenant_id \<Rightarrow> bool"
    and inv :: "'s \<Rightarrow> bool"
  assumes disp_unknown: "\<not> known s tid \<Longrightarrow> disp tid req s = (Done (Inl (TenantNotFound (as_str tid))), s)"
    and disp_inv: "inv s \<Longrightarrow> inv (snd (disp tid req s))"
    and disp_known: "inv s \<Longrightarrow> known (snd (disp tid req s)) = known s"
begin

text \<open>The state changes only through the dispatcher, and only for a valid tenant id and a body
  within the limit.\<close>

lemma ingress_state:
  "snd (ingress_dispatch H L cfg disp tenant request s) = s \<or>
   (\<exists>tid req. tenant_new tenant = Inr tid \<and> known s tid \<and>
      (\<exists>bytes. il_collect L (hc_max_body_bytes cfg) (rq_body request) = Inr bytes) \<and>
      snd (ingress_dispatch H L cfg disp tenant request s) = snd (disp tid req s))"
proof (cases "tenant_new tenant")
  case (Inl e)
  then show ?thesis
    by (auto simp: ingress_dispatch_def tenant_parse_def split: sum.split outcome.split)
next
  case (Inr tid)
  show ?thesis
  proof (cases "known s tid")
    case True
    with Inr show ?thesis
      by (auto simp: ingress_dispatch_def tenant_parse_def split: sum.split outcome.split prod.split)
        (metis snd_conv)+
  next
    case False
    with Inr disp_unknown show ?thesis
      by (auto simp: ingress_dispatch_def tenant_parse_def split: sum.split outcome.split)
  qed
qed

lemma ingress_inv: "inv s \<Longrightarrow> inv (snd (ingress_dispatch H L cfg disp tenant request s))"
  using ingress_state [of H L cfg tenant request s] disp_inv by metis

lemma ingress_known:
  "inv s \<Longrightarrow> known (snd (ingress_dispatch H L cfg disp tenant request s)) = known s"
  using ingress_state [of H L cfg tenant request s] disp_known by metis

text \<open>Any number of requests through the ingress keep the dispatcher's invariant.\<close>

lemma ingress_run_inv:
  "inv s \<Longrightarrow> inv (fold (\<lambda>(tenant, request) s. snd (ingress_dispatch H L cfg disp tenant request s)) reqs s)"
  by (induction reqs arbitrary: s) (auto simp: ingress_inv)

end

section \<open>The runtime behind the ingress\<close>

text \<open>What a serving runtime keeps from request to request.\<close>

definition serving_ok :: "('c, 'g) wasm_lib \<Rightarrow> crypto \<Rightarrow> ('c, 'g) runtime \<Rightarrow> bool" where
  "serving_ok W C rt \<longleftrightarrow> runtime_inv W C rt \<and> quotas_small rt \<and> wire_ok rt \<and>
     (\<forall>g req. prog_abi (wl_handle W g req))"

lemma serving_ok_static:
  assumes "serving_ok W C rt" "runtime_inv W C rt'" "static_view rt' = static_view rt"
    and "rt_world rt' = rt_world rt"
  shows "serving_ok W C rt'"
  using assms quotas_small_static wire_ok_static unfolding serving_ok_def by blast

lemma world_unchanged: "rt\<lparr>rt_world := rt_world rt\<rparr> = (rt :: ('c, 'g) runtime)"
  by (cases rt) simp

lemma run_prog_serving:
  assumes "serving_ok W C rt" "flight_ok W C rt f" "prog_abi prog"
    and "run_prog H net (pr_ctx (fl_prepared f)) prog (rt_world rt) = (result, w)"
  shows "serving_ok W C (rt\<lparr>rt_world := w\<rparr>)"
  using assms
proof (induction prog arbitrary: rt)
  case (GCall c k)
  obtain reply w1 where ex: "exec_call H net (pr_ctx (fl_prepared f)) c (rt_world rt) = (reply, w1)"
    by fastforce
  have abi: "call_abi c" "prog_abi (k reply)" using GCall.prems(3) by auto
  have inv: "runtime_inv W C rt" "quotas_small rt" "wire_ok rt"
    using GCall.prems(1) by (simp_all add: serving_ok_def)
  note h = host_call_inv [OF inv GCall.prems(2) abi(1) ex]
  have view: "static_view (rt\<lparr>rt_world := w1\<rparr>) = static_view rt" by simp
  have "serving_ok W C (rt\<lparr>rt_world := w1\<rparr>)"
    using h quotas_small_static [OF inv(2) view] GCall.prems(1) by (simp add: serving_ok_def)
  moreover have "flight_ok W C (rt\<lparr>rt_world := w1\<rparr>) f" by (rule flight_ok_static [OF GCall.prems(2) view])
  moreover have "run_prog H net (pr_ctx (fl_prepared f)) (k reply) (rt_world (rt\<lparr>rt_world := w1\<rparr>)) = (result, w)"
    using GCall.prems(4) ex by simp
  ultimately have "serving_ok W C ((rt\<lparr>rt_world := w1\<rparr>)\<lparr>rt_world := w\<rparr>)"
    using GCall.IH [OF rangeI] abi(2) by blast
  then show ?case by simp
qed (auto simp: world_unchanged)

lemma invoke_serving:
  assumes ok: "serving_ok W C rt"
    and inv: "invoke W H net os epoch now finished tid request rt = (out, rt')"
  shows "serving_ok W C rt' \<and> static_view rt' = static_view rt"
proof -
  have rt: "runtime_inv W C rt" using ok by (simp add: serving_ok_def)
  obtain r1 rt1 where b: "invoke_begin W H os epoch now tid request rt = (r1, rt1)" by fastforce
  note begun = invoke_begin_inv [OF rt b]
  have ok1: "serving_ok W C rt1" by (rule serving_ok_static [OF ok begun(1-3)])
  show ?thesis
  proof (cases r1)
    case (Inl e)
    with inv b ok1 begun(2) show ?thesis by (auto simp: invoke_def)
  next
    case (Inr f)
    obtain result w where run: "run_prog H net (pr_ctx (fl_prepared f)) (fl_prog f) (rt_world rt1) = (result, w)"
      by fastforce
    have f: "flight_ok W C rt1 f" by (rule begun(4) [OF Inr])
    have "prog_abi (fl_prog f)"
    proof (cases "runtime_tenant rt tid")
      case None
      with b Inr show ?thesis by (simp add: invoke_begin_unknown)
    next
      case (Some t)
      show ?thesis
        using invoke_begin_flight(3) [OF Some runtime_invD(1) [OF rt Some] runtime_inv_assoc [OF rt] b [unfolded Inr]]
          ok by (simp add: serving_ok_def)
    qed
    from run_prog_serving [OF ok1 f this run] have ok2: "serving_ok W C (rt1\<lparr>rt_world := w\<rparr>)" .
    have f2: "flight_ok W C (rt1\<lparr>rt_world := w\<rparr>) f" by (rule flight_ok_static [OF f]) simp
    have fin: "invoke_finish H finished f result (rt1\<lparr>rt_world := w\<rparr>) = (out, rt')"
      using inv b Inr run by (simp add: invoke_def)
    have rt2: "runtime_inv W C (rt1\<lparr>rt_world := w\<rparr>)" using ok2 by (simp add: serving_ok_def)
    from invoke_finish_inv [OF rt2 f2 fin] serving_ok_static [OF ok2] begun(2)
    show ?thesis by simp
  qed
qed

lemma static_known:
  "static_view rt' = static_view rt \<Longrightarrow> (runtime_tenant rt' tid \<noteq> None) = (runtime_tenant rt tid \<noteq> None)"
  by (metis None_eq_map_option_iff static_view_def)

interpretation runtime_dispatcher: dispatcher "invoke W H net os epoch now finished"
    "\<lambda>rt tid. runtime_tenant rt tid \<noteq> None" "serving_ok W C"
  for W :: "('c, 'g) wasm_lib" and H net os epoch now finished C
proof (unfold_locales, goal_cases)
  case (1 rt tid req)
  then show ?case by (simp add: invoke_def invoke_begin_unknown)
next
  case (2 rt tid req)
  then show ?case using invoke_serving [OF 2] by (metis prod.collapse)
next
  case (3 rt tid req)
  then show ?case using invoke_serving [OF 3] static_known by (metis prod.collapse)
qed

lemma ingress_lib_okD:
  assumes "ingress_lib_ok L"
  shows "length b \<le> unat limit \<Longrightarrow> il_collect L limit b = Inr b"
    and "unat limit < length b \<Longrightarrow> \<exists>e. il_collect L limit b = Inl e"
    and "il_method L m = Inr m" "il_uri L u = Inr u" "il_build L req = Inr req"
  using assms unfolding ingress_lib_ok_def by blast+

lemma ingress_dispatch_prepared:
  assumes "http_lib_ok H" "ingress_lib_ok L" "length (rq_body request) \<le> unat (hc_max_body_bytes cfg)"
    and "copy_request_headers H [] (rq_headers request) = Done hs"
  shows "ingress_dispatch H L cfg disp tenant request s =
    (case tenant_new tenant of
       Inl e \<Rightarrow> (Done (Inl (IngressError e)), s)
     | Inr tid \<Rightarrow>
         (case disp tid request s of
            (Panic m, s') \<Rightarrow> (Panic m, s')
          | (Done (Inl e), s') \<Rightarrow> (Done (Inl (IngressError e)), s')
          | (Done (Inr response), s') \<Rightarrow> (Done (Inr response), s')))"
proof -
  have "\<lparr>rq_method = rq_method request, rq_uri = rq_uri request, rq_headers = hs,
      rq_body = rq_body request\<rparr> = request"
    using copy_request_headers_ok [OF assms(1,4)] by (cases request) simp
  then show ?thesis
    using assms(3,4) ingress_lib_okD [OF assms(2)] by (simp add: ingress_dispatch_def tenant_parse_def)
qed

section \<open>A concrete ingress\<close>

definition demo_lib :: ingress_lib where
  "demo_lib = \<lparr>il_collect = (\<lambda>limit b. if length b \<le> unat limit then Inr b else Inl ''length limit exceeded''),
     il_method = Inr, il_uri = Inr, il_build = Inr\<rparr>"

lemma demo_lib_ok: "ingress_lib_ok demo_lib"
  by (auto simp: ingress_lib_ok_def demo_lib_def)

lemma demo_serving_ok: "serving_ok unit_wasm pad_crypto (demo_runtime [1])"
proof -
  have "quotas_small (demo_runtime [1])"
    by (simp add: quotas_small_def demo_rt_tenant_def demo_sandbox_def sandbox_limits_default_def)
  moreover have "wire_ok (demo_runtime [1])" by (simp add: wire_ok_def demo_runtime_def)
  moreover have "prog_abi (wl_handle unit_wasm g req)" for g req by (simp add: unit_wasm_def)
  ultimately show ?thesis using demo_runtime_inv by (auto simp: serving_ok_def)
qed

section \<open>Properties\<close>



text \<open>C31: Which error a client sees. Over the runtime: a body over the limit is answered 400 before anything
  else happens, a malformed tenant segment is answered 500 (a configuration error), a well-formed
  but unregistered tenant is answered 404, and in all three cases the runtime is untouched.\<close>

theorem ingress_errors:
  assumes "http_lib_ok H" and "ingress_lib_ok L"
    and "copy_request_headers H [] (rq_headers request) = Done hs"
  shows "let ing = ingress_dispatch H L cfg (invoke W H net os epoch now finished) tenant request rt in
    (unat (hc_max_body_bytes cfg) < length (rq_body request) \<longrightarrow>
      (\<exists>e. ing = (Done (Inl e), rt) \<and> jr_status (into_response H e) = 400)) \<and>
    (length (rq_body request) \<le> unat (hc_max_body_bytes cfg) \<and> \<not> valid_tenant_name tenant \<longrightarrow>
      (\<exists>e. ing = (Done (Inl e), rt) \<and> jr_status (into_response H e) = 500)) \<and>
    (length (rq_body request) \<le> unat (hc_max_body_bytes cfg) \<and> valid_tenant_name tenant \<and>
      runtime_tenant rt (TenantId tenant) = None \<longrightarrow>
      ing = (Done (Inl (IngressError (TenantNotFound tenant))), rt) \<and>
      jr_status (into_response H (IngressError (TenantNotFound tenant))) = 404)"
  unfolding Let_def
proof (intro conjI impI)
  let ?ing = "ingress_dispatch H L cfg (invoke W H net os epoch now finished) tenant request rt"
  have st: "jr_status (into_response H (IngressError e)) = status e" for e
    using http_lib_okD(1) [OF assms(1), of "status e"] status_range [of e]
    by (simp add: into_response_def Let_def)
  note prepared = ingress_dispatch_prepared [OF assms(1,2) _ assms(3), of cfg "invoke W H net os epoch now finished" tenant rt]
  {
    assume "unat (hc_max_body_bytes cfg) < length (rq_body request)"
    then obtain e where "il_collect L (hc_max_body_bytes cfg) (rq_body request) = Inl e"
      using ingress_lib_okD(2) [OF assms(2)] by blast
    then have "?ing = (Done (Inl (IngressError (Http e))), rt)" by (simp add: ingress_dispatch_def)
    then show "\<exists>e. ?ing = (Done (Inl e), rt) \<and> jr_status (into_response H e) = 400" by (simp add: st)
  next
    assume "length (rq_body request) \<le> unat (hc_max_body_bytes cfg) \<and> \<not> valid_tenant_name tenant"
    moreover from this obtain m where "tenant_new tenant = Inl (Config m)"
      using tenant_new_error_iff tenant_new_error by metis
    ultimately have "?ing = (Done (Inl (IngressError (Config m))), rt)" using prepared by simp
    then show "\<exists>e. ?ing = (Done (Inl e), rt) \<and> jr_status (into_response H e) = 500" by (simp add: st)
  next
    assume a: "length (rq_body request) \<le> unat (hc_max_body_bytes cfg) \<and> valid_tenant_name tenant \<and>
      runtime_tenant rt (TenantId tenant) = None"
    then have "tenant_new tenant = Inr (TenantId tenant)" by (simp add: tenant_new_ok_iff)
    moreover have "invoke W H net os epoch now finished (TenantId tenant) request rt =
        (Done (Inl (TenantNotFound tenant)), rt)"
      using a by (simp add: invoke_def invoke_begin_unknown)
    ultimately show "?ing = (Done (Inl (IngressError (TenantNotFound tenant))), rt)"
      using prepared a by simp
    show "jr_status (into_response H (IngressError (TenantNotFound tenant))) = 404" by (simp add: st)
  }
qed

theorem ingress_errors_witness:
  "ingress_dispatch ascii_http demo_lib http_config_default
     (invoke unit_wasm ascii_http (\<lambda>_. Inl ''down'') demo_os 0 0 5) ''ghost'' get_ping (demo_runtime [1]) =
     (Done (Inl (IngressError (TenantNotFound ''ghost''))), demo_runtime [1])"
proof -
  have "valid_tenant_name ''ghost''" by code_simp
  moreover have "copy_request_headers ascii_http [] (rq_headers get_ping) = Done []" by (simp add: get_ping_def)
  moreover have "length (rq_body get_ping) = 0" by (simp add: get_ping_def)
  ultimately show ?thesis
    using ingress_errors [OF ascii_http_ok demo_lib_ok, of get_ping "[]" http_config_default unit_wasm
        "\<lambda>_. Inl ''down''" demo_os 0 0 5 "''ghost''" "demo_runtime [1]"]
    by simp
qed

text \<open>Errors are rendered faithfully. The response to an error carries the status of the error, a code
  between 400 and 503, and a JSON object with the error's text and that same code.\<close>

theorem error_rendering:
  assumes "http_lib_ok H"
  shows "jr_status (into_response H (IngressError e)) = status e \<and>
    400 \<le> unat (jr_status (into_response H (IngressError e))) \<and>
    unat (jr_status (into_response H (IngressError e))) \<le> 503 \<and>
    jr_body (into_response H (IngressError e)) =
      JObject [(''error'', JString (error_to_string e)), (''status'', JNumber (unat (status e)))]"
  using http_lib_okD(1) [OF assms, of "status e"] status_range [of e]
  by (simp add: into_response_def Let_def)

theorem error_rendering_witness:
  "jr_status (into_response ascii_http (IngressError (LimitExceeded ''x''))) = 429"
  using error_rendering [OF ascii_http_ok, of "LimitExceeded ''x''"] by simp

text \<open>Traffic cannot damage the runtime. After any sequence of requests through the ingress, to any
  tenant segment and with any content, the runtime still satisfies its invariant and serves the same
  tenants.\<close>

theorem ingress_preserves_runtime:
  assumes "serving_ok W C rt"
  shows "let rt' = fold (\<lambda>(tenant, request) s. snd (ingress_dispatch H L cfg
      (invoke W H net os epoch now finished) tenant request s)) reqs rt in
    runtime_inv W C rt' \<and> (\<forall>tid. runtime_tenant rt' tid \<noteq> None \<longleftrightarrow> runtime_tenant rt tid \<noteq> None)"
proof -
  let ?rt' = "fold (\<lambda>(tenant, request) s. snd (ingress_dispatch H L cfg
      (invoke W H net os epoch now finished) tenant request s)) reqs rt"
  have "serving_ok W C ?rt'"
    by (rule runtime_dispatcher.ingress_run_inv [OF assms(1)])
  moreover have "(\<lambda>tid. runtime_tenant ?rt' tid \<noteq> None) = (\<lambda>tid. runtime_tenant rt tid \<noteq> None)"
    using assms(1)
  proof (induction reqs arbitrary: rt)
    case (Cons q reqs)
    obtain tenant request where q: "q = (tenant, request)" by fastforce
    let ?rt1 = "snd (ingress_dispatch H L cfg (invoke W H net os epoch now finished) tenant request rt)"
    have "serving_ok W C ?rt1" by (rule runtime_dispatcher.ingress_inv [OF Cons.prems])
    moreover have "(\<lambda>tid. runtime_tenant ?rt1 tid \<noteq> None) = (\<lambda>tid. runtime_tenant rt tid \<noteq> None)"
      by (rule runtime_dispatcher.ingress_known [OF Cons.prems])
    ultimately show ?case using Cons.IH [of ?rt1] q by simp
  qed simp
  ultimately show ?thesis by (simp add: serving_ok_def fun_eq_iff Let_def)
qed

theorem ingress_preserves_runtime_witness:
  "runtime_tenant (fold (\<lambda>(tenant, request) s. snd (ingress_dispatch ascii_http demo_lib http_config_default
     (invoke unit_wasm ascii_http (\<lambda>_. Inl ''down'') demo_os 0 0 5) tenant request s))
     [(''echo'', get_ping), (''../x'', get_ping)] (demo_runtime [1])) (TenantId ''echo'') \<noteq> None"
  using ingress_preserves_runtime [OF demo_serving_ok, of ascii_http demo_lib http_config_default
      "\<lambda>_. Inl ''down''" demo_os 0 0 5 "[(''echo'', get_ping), (''../x'', get_ping)]"]
  by (simp add: Let_def del: fold.simps)

end
