(* ===== verification/Serving_System.thy ===== *)
theory Serving_System
  imports Invocation
begin

text \<open>
  The runtime under concurrent load: \<open>invoke\<close> of \<open>src/src/runtime/invoke.rs\<close> and \<open>poll_once\<close> of
  \<open>src/src/runtime.rs\<close> as tasks that overlap.

  \<open>system\<close> adds to the runtime the requests that wait for an instance, the requests whose guest runs,
  the reload pass in progress, the clock and the engine epoch. \<open>sys_step\<close> is the relation of its
  steps: a request is admitted, gets its instance or fails to, a guest makes one import call, a
  request completes (it returned, trapped, hit its epoch deadline, or its wall-clock budget elapsed),
  time and epoch advance, and the reload pass goes on: it skips its next tenant, or pulls the tenant's
  artifact and, in a later step, acts on what the pull returned. A panic aborts the process, as the release profile says. \<open>cancel_step\<close> is a request dropped from outside, at one of
  its waiting points: the client went away, or the ingress timeout elapsed. \<open>serve_step\<close> is either.

  The lemmas show an invariant of every reachable state, that the sequential \<open>invoke\<close> is one
  schedule, and that from every reachable state all requests come to an end without being cancelled.
\<close>

section \<open>The runtime under load\<close>

record ('c, 'g) system =
  sy_rt :: "('c, 'g) runtime"
  sy_now :: instant
  sy_epoch :: nat
  sy_tickets :: "'c ticket list"
  sy_flights :: "('c, 'g) flight list"
  sy_pass :: "(instant \<times> tenant_id list) option"
  sy_pull :: "loaded result option"
  sy_crashed :: bool

text \<open>How the guest call of a request can end, and when.\<close>

fun flight_result :: "nat \<Rightarrow> instant \<Rightarrow> duration \<Rightarrow> ('c, 'g) flight \<Rightarrow> 'g call_result \<Rightarrow> bool" where
  "flight_result epoch now wall f (CallReturned resp g) \<longleftrightarrow> fl_prog f = GReturn resp g"
| "flight_result epoch now wall f (CallTrapped e) \<longleftrightarrow>
     fl_prog f = GTrap e \<or> pr_deadline (fl_prepared f) \<le> epoch \<and> e = epoch_trap"
| "flight_result epoch now wall f CallElapsed \<longleftrightarrow> fl_called f + wall \<le> now"

definition drop_nth :: "nat \<Rightarrow> 'a list \<Rightarrow> 'a list" where
  "drop_nth i xs = take i xs @ drop (Suc i) xs"

inductive sys_step ::
  "('c, 'g) wasm_lib \<Rightarrow> http_lib \<Rightarrow> net_client \<Rightarrow> wasi_os \<Rightarrow> 'r fetch_env set \<Rightarrow>
   ('c, 'g) system \<Rightarrow> ('c, 'g) system \<Rightarrow> bool"
  for W :: "('c, 'g) wasm_lib" and H :: http_lib and net :: net_client and os :: wasi_os
    and Es :: "'r fetch_env set"
where
  admit:
    "\<not> sy_crashed s \<Longrightarrow> invoke_prepare H os (sy_now s) tid request (sy_rt s) = Inr k \<Longrightarrow>
     sys_step W H net os Es s (s\<lparr>sy_tickets := sy_tickets s @ [k]\<rparr>)"
| acquire:
    "\<not> sy_crashed s \<Longrightarrow> i < length (sy_tickets s) \<Longrightarrow>
     invoke_acquire W (sy_epoch s) (sy_now s) (sy_tickets s ! i) (sy_rt s) = (Inr f, rt) \<Longrightarrow>
     sys_step W H net os Es s
       (s\<lparr>sy_rt := rt, sy_tickets := drop_nth i (sy_tickets s), sy_flights := sy_flights s @ [f]\<rparr>)"
| acquire_failed:
    "\<not> sy_crashed s \<Longrightarrow> i < length (sy_tickets s) \<Longrightarrow>
     invoke_acquire W (sy_epoch s) (sy_now s) (sy_tickets s ! i) (sy_rt s) = (Inl e, rt) \<Longrightarrow>
     sys_step W H net os Es s (s\<lparr>sy_rt := rt, sy_tickets := drop_nth i (sy_tickets s)\<rparr>)"
| call:
    "\<not> sy_crashed s \<Longrightarrow> i < length (sy_flights s) \<Longrightarrow> f = sy_flights s ! i \<Longrightarrow>
     fl_prog f = GCall c k \<Longrightarrow> call_abi c \<Longrightarrow>
     exec_call H net (pr_ctx (fl_prepared f)) c (rt_world (sy_rt s)) = (reply, w) \<Longrightarrow>
     sys_step W H net os Es s
       (s\<lparr>sy_rt := (sy_rt s)\<lparr>rt_world := w\<rparr>, sy_flights := (sy_flights s)[i := f\<lparr>fl_prog := k reply\<rparr>]\<rparr>)"
| complete:
    "\<not> sy_crashed s \<Longrightarrow> i < length (sy_flights s) \<Longrightarrow> f = sy_flights s ! i \<Longrightarrow>
     runtime_tenant (sy_rt s) (fl_tenant f) = Some t \<Longrightarrow>
     flight_result (sy_epoch s) (sy_now s) (lim_max_wall_duration (sb_limits (tn_sandbox t))) f result \<Longrightarrow>
     invoke_finish H (sy_now s) f result (sy_rt s) = (Done response, rt) \<Longrightarrow>
     sys_step W H net os Es s (s\<lparr>sy_rt := rt, sy_flights := drop_nth i (sy_flights s)\<rparr>)"
| panic:
    "\<not> sy_crashed s \<Longrightarrow> i < length (sy_flights s) \<Longrightarrow> f = sy_flights s ! i \<Longrightarrow>
     runtime_tenant (sy_rt s) (fl_tenant f) = Some t \<Longrightarrow>
     flight_result (sy_epoch s) (sy_now s) (lim_max_wall_duration (sb_limits (tn_sandbox t))) f result \<Longrightarrow>
     invoke_finish H (sy_now s) f result (sy_rt s) = (Panic m, rt) \<Longrightarrow>
     sys_step W H net os Es s
       (s\<lparr>sy_rt := rt, sy_tickets := [], sy_flights := [], sy_pass := None, sy_pull := None, sy_crashed := True\<rparr>)"
| time:
    "\<not> sy_crashed s \<Longrightarrow> sy_now s \<le> later \<Longrightarrow> sys_step W H net os Es s (s\<lparr>sy_now := later\<rparr>)"
| tick:
    "\<not> sy_crashed s \<Longrightarrow> EpochTicker interval \<in> set (rt_background (sy_rt s)) \<Longrightarrow>
     sys_step W H net os Es s (s\<lparr>sy_epoch := Suc (sy_epoch s)\<rparr>)"
| pass_begin:
    "\<not> sy_crashed s \<Longrightarrow> sy_pass s = None \<Longrightarrow> distinct ids \<Longrightarrow>
     set ids = tn_id ` set (snapshot_tenants (sy_rt s)) \<Longrightarrow>
     sys_step W H net os Es s (s\<lparr>sy_pass := Some (sy_now s, ids)\<rparr>)"
| pass_skip:
    "\<not> sy_crashed s \<Longrightarrow> sy_pass s = Some (began, tid # ids) \<Longrightarrow> sy_pull s = None \<Longrightarrow>
     poll_wants began tid (sy_rt s) = None \<Longrightarrow>
     sys_step W H net os Es s (s\<lparr>sy_pass := Some (began, ids)\<rparr>)"
| pass_pull:
    "\<not> sy_crashed s \<Longrightarrow> sy_pass s = Some (began, tid # ids) \<Longrightarrow> sy_pull s = None \<Longrightarrow>
     poll_wants began tid (sy_rt s) = Some (reference, pin) \<Longrightarrow> E \<in> Es \<Longrightarrow>
     registry_pull E (rt_registry (sy_rt s)) reference pin (rt_dir (sy_rt s)) = (pulled, dir) \<Longrightarrow>
     sys_step W H net os Es s (s\<lparr>sy_rt := (sy_rt s)\<lparr>rt_dir := dir\<rparr>, sy_pull := Some pulled\<rparr>)"
| pass_next:
    "\<not> sy_crashed s \<Longrightarrow> sy_pass s = Some (began, tid # ids) \<Longrightarrow> sy_pull s = Some pulled \<Longrightarrow>
     poll_apply W (sy_now s) tid pulled (sy_rt s) = (Inr u, rt) \<Longrightarrow>
     sys_step W H net os Es s (s\<lparr>sy_rt := rt, sy_pass := Some (began, ids), sy_pull := None\<rparr>)"
| pass_abort:
    "\<not> sy_crashed s \<Longrightarrow> sy_pass s = Some (began, tid # ids) \<Longrightarrow> sy_pull s = Some pulled \<Longrightarrow>
     poll_apply W (sy_now s) tid pulled (sy_rt s) = (Inl e, rt) \<Longrightarrow>
     sys_step W H net os Es s (s\<lparr>sy_rt := rt, sy_pass := None, sy_pull := None\<rparr>)"
| pass_end:
    "\<not> sy_crashed s \<Longrightarrow> sy_pass s = Some (began, []) \<Longrightarrow>
     sys_step W H net os Es s (s\<lparr>sy_pass := None\<rparr>)"

inductive_cases sys_stepE: "sys_step W H net os Es s s'"

text \<open>A dropped request takes its instance with it: nothing is returned to the pool or counted.\<close>

inductive cancel_step :: "('c, 'g) system \<Rightarrow> ('c, 'g) system \<Rightarrow> bool" where
  cancel_waiting: "i < length (sy_tickets s) \<Longrightarrow> cancel_step s (s\<lparr>sy_tickets := drop_nth i (sy_tickets s)\<rparr>)"
| cancel_running: "i < length (sy_flights s) \<Longrightarrow> cancel_step s (s\<lparr>sy_flights := drop_nth i (sy_flights s)\<rparr>)"

definition serve_step ::
  "('c, 'g) wasm_lib \<Rightarrow> http_lib \<Rightarrow> net_client \<Rightarrow> wasi_os \<Rightarrow> 'r fetch_env set \<Rightarrow>
   ('c, 'g) system \<Rightarrow> ('c, 'g) system \<Rightarrow> bool"
where
  "serve_step W H net os Es s s' \<longleftrightarrow> sys_step W H net os Es s s' \<or> cancel_step s s'"

lemma sys_serve_step: "sys_step W H net os Es s s' \<Longrightarrow> serve_step W H net os Es s s'"
  by (simp add: serve_step_def)

lemma drop_nth_subset: "set (drop_nth i xs) \<subseteq> set xs"
  by (auto simp: drop_nth_def dest: in_set_takeD in_set_dropD)

section \<open>The invariant of the system\<close>

text \<open>A finished pull waits for the first tenant of the pass: what it brought fits that tenant's source,
  and the tenant's debounce had elapsed when the pass began.\<close>

definition pending_ok ::
  "crypto \<Rightarrow> ('c, 'g) runtime \<Rightarrow> (instant \<times> tenant_id list) option \<Rightarrow> loaded result option \<Rightarrow> bool" where
  "pending_ok C rt pass pull \<longleftrightarrow>
     (\<forall>pulled. pull = Some pulled \<longrightarrow>
        (\<exists>began tid ids t. pass = Some (began, tid # ids) \<and> runtime_tenant rt tid = Some t \<and>
           (\<exists>reference pin. tn_source t = SourceOci reference pin) \<and> pulled_ok C (tn_source t) pulled \<and>
           debounce (rt_policy rt) \<le> saturating_duration_since began (tn_last_swap t)))"

lemma pending_ok_None [simp]: "pending_ok C rt pass None"
  by (simp add: pending_ok_def)

lemma pending_ok_fields [simp]:
  "pending_ok C (rt\<lparr>rt_world := w\<rparr>) pass pull \<longleftrightarrow> pending_ok C rt pass pull"
  "pending_ok C (rt\<lparr>rt_dir := dir\<rparr>) pass pull \<longleftrightarrow> pending_ok C rt pass pull"
  by (simp_all add: pending_ok_def)

lemma pending_ok_view:
  assumes "pending_ok C rt pass pull" "reload_view rt' = reload_view rt"
  shows "pending_ok C rt' pass pull"
proof (unfold pending_ok_def, intro allI impI)
  fix pulled assume "pull = Some pulled"
  with assms(1) obtain began tid ids t where "pass = Some (began, tid # ids)" "runtime_tenant rt tid = Some t"
      "\<exists>reference pin. tn_source t = SourceOci reference pin" "pulled_ok C (tn_source t) pulled"
      "debounce (rt_policy rt) \<le> saturating_duration_since began (tn_last_swap t)"
    unfolding pending_ok_def by blast
  moreover from assms(2) this(2) obtain t' where "runtime_tenant rt' tid = Some t'" "tn_source t' = tn_source t"
      "tn_last_swap t' = tn_last_swap t" "rt_policy rt' = rt_policy rt" by (rule reload_viewD)
  ultimately show "\<exists>began tid ids t. pass = Some (began, tid # ids) \<and> runtime_tenant rt' tid = Some t \<and>
      (\<exists>reference pin. tn_source t = SourceOci reference pin) \<and> pulled_ok C (tn_source t) pulled \<and> debounce (rt_policy rt') \<le> saturating_duration_since began (tn_last_swap t)"
    by simp
qed

lemma pending_okE:
  assumes "pending_ok C rt (Some (began, tid # ids)) (Some pulled)"
  obtains t reference pin where "runtime_tenant rt tid = Some t" "pulled_ok C (tn_source t) pulled"
    "tn_source t = SourceOci reference pin"
    "debounce (rt_policy rt) \<le> saturating_duration_since began (tn_last_swap t)"
  using assms by (auto simp: pending_ok_def)

definition sys_inv :: "('c, 'g) wasm_lib \<Rightarrow> crypto \<Rightarrow> ('c, 'g) system \<Rightarrow> bool" where
  "sys_inv W C s \<longleftrightarrow>
     runtime_inv W C (sy_rt s) \<and> quotas_small (sy_rt s) \<and> wire_ok (sy_rt s) \<and>
     (\<forall>k\<in>set (sy_tickets s). ticket_ok W C (sy_rt s) k) \<and>
     (\<forall>f\<in>set (sy_flights s). flight_ok W C (sy_rt s) f \<and> fl_called f \<le> sy_now s) \<and>
     (\<forall>began ids. sy_pass s = Some (began, ids) \<longrightarrow> began \<le> sy_now s) \<and>
     pending_ok C (sy_rt s) (sy_pass s) (sy_pull s)"

text \<open>A step that only changes static parts trivially keeps the invariant.\<close>

lemma sys_inv_rt:
  assumes "sys_inv W C s" "runtime_inv W C rt" "static_view rt = static_view (sy_rt s)"
    and "rt_world rt = rt_world (sy_rt s)" "pending_ok C rt (sy_pass s) (sy_pull s)"
  shows "sys_inv W C (s\<lparr>sy_rt := rt\<rparr>)"
  using assms flight_ok_static ticket_ok_static quotas_small_static wire_ok_static
  unfolding sys_inv_def by fastforce

text \<open>Requests may leave, and a request that fits may come in.\<close>

lemma sys_inv_fewer:
  assumes "sys_inv W C s" "set ks \<subseteq> set (sy_tickets s)" "set fs \<subseteq> set (sy_flights s)"
  shows "sys_inv W C (s\<lparr>sy_tickets := ks, sy_flights := fs\<rparr>)"
  using assms by (auto simp: sys_inv_def)

lemma sys_inv_flight:
  "sys_inv W C s \<Longrightarrow> flight_ok W C (sy_rt s) f \<Longrightarrow> fl_called f \<le> sy_now s \<Longrightarrow>
   sys_inv W C (s\<lparr>sy_flights := sy_flights s @ [f]\<rparr>)"
  by (auto simp: sys_inv_def)

lemma sys_inv_cancel: "sys_inv W C s \<Longrightarrow> cancel_step s s' \<Longrightarrow> sys_inv W C s'"
  by (erule cancel_step.cases) (use drop_nth_subset in \<open>fastforce simp: sys_inv_def\<close>)+

definition sys_init :: "('c, 'g) wasm_lib \<Rightarrow> crypto \<Rightarrow> ('c, 'g) system \<Rightarrow> bool" where
  "sys_init W C s \<longleftrightarrow>
     runtime_inv W C (sy_rt s) \<and> quotas_small (sy_rt s) \<and> hw_wire (rt_world (sy_rt s)) = [] \<and>
     sy_tickets s = [] \<and> sy_flights s = [] \<and> sy_pass s = None \<and> sy_pull s = None \<and> \<not> sy_crashed s"

lemma sys_inv_call:
  assumes inv: "sys_inv W C s" and i: "i < length (sy_flights s)" and f: "f = sy_flights s ! i"
    and "call_abi c" "exec_call H net (pr_ctx (fl_prepared f)) c (rt_world (sy_rt s)) = (reply, w)"
  shows "sys_inv W C (s\<lparr>sy_rt := (sy_rt s)\<lparr>rt_world := w\<rparr>, sy_flights := (sy_flights s)[i := f\<lparr>fl_prog := p\<rparr>]\<rparr>)"
proof -
  let ?rt = "sy_rt s" and ?rt' = "(sy_rt s)\<lparr>rt_world := w\<rparr>"
  have rt: "runtime_inv W C ?rt" "quotas_small ?rt" "wire_ok ?rt"
    and fl: "\<And>g. g \<in> set (sy_flights s) \<Longrightarrow> flight_ok W C ?rt g \<and> fl_called g \<le> sy_now s"
    using inv by (auto simp: sys_inv_def)
  have fok: "flight_ok W C ?rt f \<and> fl_called f \<le> sy_now s" using fl i f by (metis nth_mem)
  note h = host_call_inv [OF rt conjunct1 [OF fok] assms(4,5)]
  have stat: "static_view ?rt' = static_view ?rt" by simp
  have "flight_ok W C ?rt' g \<and> fl_called g \<le> sy_now s" if "g \<in> set ((sy_flights s)[i := f\<lparr>fl_prog := p\<rparr>])" for g
  proof -
    have "g = f\<lparr>fl_prog := p\<rparr> \<or> g \<in> set (sy_flights s)"
      using that set_update_subset_insert by fastforce
    then have "flight_ok W C ?rt g \<and> fl_called g \<le> sy_now s" using fok fl by (auto simp: flight_ok_def)
    then show ?thesis using flight_ok_static [OF _ stat] by blast
  qed
  moreover have "ticket_ok W C ?rt' k" if "k \<in> set (sy_tickets s)" for k
    using inv that ticket_ok_static [OF _ stat] by (simp add: sys_inv_def)
  ultimately show ?thesis using inv h quotas_small_static [OF rt(2) stat] by (simp add: sys_inv_def)
qed

lemma sys_inv_acquire:
  assumes inv: "sys_inv W C s" and k: "k \<in> set (sy_tickets s)"
    and acq: "invoke_acquire W (sy_epoch s) (sy_now s) k (sy_rt s) = (r, rt)"
  shows "sys_inv W C (s\<lparr>sy_rt := rt, sy_tickets := drop_nth i (sy_tickets s)\<rparr>)"
    and "r = Inr f \<Longrightarrow> flight_ok W C rt f \<and> fl_called f \<le> sy_now s"
proof -
  have ok: "runtime_inv W C (sy_rt s)" "ticket_ok W C (sy_rt s) k" using inv k by (simp_all add: sys_inv_def)
  note a = invoke_acquire_inv [OF ok acq]
  have "pending_ok C (sy_rt s) (sy_pass s) (sy_pull s)" using inv by (simp add: sys_inv_def)
  then have "pending_ok C rt (sy_pass s) (sy_pull s)"
    by (rule pending_ok_view [OF _ invoke_acquire_reload_view [OF ok acq]])
  with a sys_inv_rt [OF inv] have "sys_inv W C (s\<lparr>sy_rt := rt\<rparr>)" by simp
  from sys_inv_fewer [OF this, of "drop_nth i (sy_tickets s)" "sy_flights s"] drop_nth_subset [of i "sy_tickets s"]
  show "sys_inv W C (s\<lparr>sy_rt := rt, sy_tickets := drop_nth i (sy_tickets s)\<rparr>)" by simp
  show "r = Inr f \<Longrightarrow> flight_ok W C rt f \<and> fl_called f \<le> sy_now s" using a by simp
qed

lemma sys_inv_finish:
  assumes inv: "sys_inv W C s" and f: "f \<in> set (sy_flights s)"
    and fin: "invoke_finish H now f result (sy_rt s) = (out, rt)"
  shows "sys_inv W C (s\<lparr>sy_rt := rt, sy_flights := drop_nth i (sy_flights s)\<rparr>)"
proof -
  have ok: "runtime_inv W C (sy_rt s)" "flight_ok W C (sy_rt s) f" using inv f by (simp_all add: sys_inv_def)
  have "pending_ok C (sy_rt s) (sy_pass s) (sy_pull s)" using inv by (simp add: sys_inv_def)
  then have "pending_ok C rt (sy_pass s) (sy_pull s)"
    by (rule pending_ok_view [OF _ invoke_finish_reload_view [OF ok fin]])
  with invoke_finish_inv [OF ok fin] sys_inv_rt [OF inv] have "sys_inv W C (s\<lparr>sy_rt := rt\<rparr>)" by simp
  from sys_inv_fewer [OF this, of "sy_tickets s" "drop_nth i (sy_flights s)"] drop_nth_subset [of i "sy_flights s"]
  show ?thesis by simp
qed

lemma sys_inv_pull:
  assumes inv: "sys_inv W C s" and C: "crypto_ok C" "fe_crypto E = C"
    and pass: "sy_pass s = Some (began, tid # ids)"
    and wants: "poll_wants began tid (sy_rt s) = Some (reference, pin)"
    and pull: "registry_pull E (rt_registry (sy_rt s)) reference pin (rt_dir (sy_rt s)) = (pulled, dir)"
  shows "sys_inv W C (s\<lparr>sy_rt := (sy_rt s)\<lparr>rt_dir := dir\<rparr>, sy_pull := Some pulled\<rparr>)"
proof -
  let ?s = "s\<lparr>sy_pull := Some pulled\<rparr>" and ?rt = "(sy_rt s)\<lparr>rt_dir := dir\<rparr>"
  have rt: "runtime_inv W (fe_crypto E) (sy_rt s)" using inv C by (simp add: sys_inv_def)
  have "pulled_ok C (SourceOci reference pin) pulled" using registry_pulled_ok [OF rt _ pull] C by simp
  with wants pass have "pending_ok C (sy_rt s) (sy_pass ?s) (sy_pull ?s)"
    by (auto simp: pending_ok_def poll_wants_Some_iff)
  moreover from this have "sys_inv W C ?s" using inv by (simp add: sys_inv_def)
  moreover have "runtime_inv W C ?rt" using pull_keeps_store [OF rt _ pull] C by simp
  ultimately show ?thesis using sys_inv_rt [of W C ?s ?rt] by (simp add: sys_inv_def)
qed

lemma sys_inv_apply:
  assumes inv: "sys_inv W C s" and pass: "sy_pass s = Some (began, tid # ids)" "sy_pull s = Some pulled"
    and app: "poll_apply W at tid pulled (sy_rt s) = (r, rt)"
  shows "sys_inv W C (s\<lparr>sy_rt := rt, sy_pull := None\<rparr>)"
proof -
  let ?s = "s\<lparr>sy_pull := None\<rparr>"
  have rt: "runtime_inv W C (sy_rt s)" and "pending_ok C (sy_rt s) (Some (began, tid # ids)) (Some pulled)"
    using inv pass by (simp_all add: sys_inv_def)
  then have "pulled_ok C (tn_source t) pulled" if "runtime_tenant (sy_rt s) tid = Some t" for t
    using that by (auto elim: pending_okE)
  then have "runtime_inv W C rt" using poll_apply_inv [OF rt _ app] by blast
  moreover have "sys_inv W C ?s" using inv by (simp add: sys_inv_def)
  ultimately show ?thesis using sys_inv_rt [of W C ?s rt] poll_apply_static [OF rt app] by (simp add: sys_inv_def)
qed

lemma sys_inv_pass:
  "sys_inv W C s \<Longrightarrow> sy_pull s = None \<Longrightarrow> (\<And>began ids. pass = Some (began, ids) \<Longrightarrow> began \<le> sy_now s) \<Longrightarrow>
   sys_inv W C (s\<lparr>sy_pass := pass\<rparr>)"
  by (simp add: sys_inv_def)

lemma sys_inv_no_pull: "sys_inv W C s \<Longrightarrow> sy_pass s = None \<Longrightarrow> sy_pull s = None"
  by (cases "sy_pull s") (auto simp: sys_inv_def pending_ok_def)

lemma sys_inv_step:
  assumes inv: "sys_inv W C s" and C: "crypto_ok C" and Es: "\<And>E. E \<in> Es \<Longrightarrow> fe_crypto E = C"
    and step: "sys_step W H net os Es s s'"
  shows "sys_inv W C s'"
  using step
proof cases
  case (admit tid request k)
  have "runtime_inv W C (sy_rt s)" using inv by (simp add: sys_inv_def)
  from invoke_prepare_ok [OF this admit(3)] inv show ?thesis by (auto simp: admit sys_inv_def)
next
  case (acquire i f rt)
  have k: "sy_tickets s ! i \<in> set (sy_tickets s)" using acquire(3) by simp
  from sys_inv_flight [OF sys_inv_acquire(1) [OF inv k acquire(4)], where f = f] sys_inv_acquire(2) [OF inv k acquire(4)]
  show ?thesis by (simp add: acquire)
next
  case (acquire_failed i e rt)
  then have "sy_tickets s ! i \<in> set (sy_tickets s)" by simp
  from sys_inv_acquire(1) [OF inv this acquire_failed(4)] show ?thesis by (simp add: acquire_failed)
next
  case (call i f c k reply w)
  with sys_inv_call [OF inv] show ?thesis by simp
next
  case (complete i f t result response rt)
  then have "f \<in> set (sy_flights s)" by simp
  from sys_inv_finish [OF inv this complete(7)] show ?thesis by (simp add: complete)
next
  case (panic i f t result m rt)
  then have "f \<in> set (sy_flights s)" by simp
  from sys_inv_finish [OF inv this panic(7)] show ?thesis by (simp add: panic sys_inv_def)
next
  case (pass_begin ids)
  from sys_inv_pass [OF inv sys_inv_no_pull [OF inv pass_begin(3)], of "Some (sy_now s, ids)"]
  show ?thesis by (simp add: pass_begin)
next
  case (pass_skip began tid ids)
  with sys_inv_pass [OF inv] inv show ?thesis by (simp add: sys_inv_def)
next
  case (pass_pull began tid ids reference pin E pulled dir)
  from sys_inv_pull [OF inv C Es [OF pass_pull(6)] pass_pull(3,5,7)] show ?thesis by (simp add: pass_pull)
next
  case (pass_next began tid ids pulled u rt)
  from sys_inv_pass [OF sys_inv_apply [OF inv pass_next(3-5)], of "Some (began, ids)"] inv pass_next
  show ?thesis by (simp add: sys_inv_def)
next
  case (pass_abort began tid ids pulled e rt)
  from sys_inv_pass [OF sys_inv_apply [OF inv pass_abort(3-5)], of None] pass_abort
  show ?thesis by (simp add: sys_inv_def)
next
  case (pass_end began)
  have "sy_pull s = None" using inv pass_end by (cases "sy_pull s") (auto simp: sys_inv_def pending_ok_def)
  from sys_inv_pass [OF inv this, of None] pass_end show ?thesis by simp
qed (use inv in \<open>auto simp: sys_inv_def\<close>)

lemma sys_init_inv: "sys_init W C s \<Longrightarrow> sys_inv W C s"
  by (simp add: sys_init_def sys_inv_def wire_ok_def)

text \<open>The reachable states of the system satisfy the invariant, by the transition-system interface.\<close>

definition serving_init ::
  "('c, 'g) wasm_lib \<Rightarrow> crypto \<Rightarrow> 'r fetch_env set \<Rightarrow> ('c, 'g) system \<Rightarrow> bool" where
  "serving_init W C Es s \<longleftrightarrow> sys_init W C s \<and> crypto_ok C \<and> (\<forall>E\<in>Es. fe_crypto E = C)"

interpretation serving: transition_invariant "serving_init W C Es" "serve_step W H net os Es"
    "\<lambda>s. sys_inv W C s \<and> crypto_ok C \<and> (\<forall>E\<in>Es. fe_crypto E = C)"
  for W :: "('c, 'g) wasm_lib" and H net os C and Es :: "'r fetch_env set"
proof (unfold_locales, goal_cases)
  case (1 s)
  then show ?case by (simp add: serving_init_def sys_init_inv)
next
  case (2 s t)
  then show ?case using sys_inv_step [of W C s Es H net os t] sys_inv_cancel unfolding serve_step_def by blast
qed

lemma serving_inv:
  "reachable (serving_init W C Es) (serve_step W H net os Es) s \<Longrightarrow> sys_inv W C s"
  using serving.reachable_inv by blast

section \<open>What stays fixed while serving\<close>

lemma sys_step_static:
  assumes inv: "sys_inv W C s" and step: "sys_step W H net os Es s s'"
  shows "static_view (sy_rt s') = static_view (sy_rt s)"
  using step
proof cases
  case (acquire i f rt)
  then have "ticket_ok W C (sy_rt s) (sy_tickets s ! i)" using inv by (simp add: sys_inv_def)
  from invoke_acquire_inv [OF _ this acquire(4)] inv acquire(1) show ?thesis by (simp add: sys_inv_def)
next
  case (acquire_failed i e rt)
  then have "ticket_ok W C (sy_rt s) (sy_tickets s ! i)" using inv by (simp add: sys_inv_def)
  from invoke_acquire_inv [OF _ this acquire_failed(4)] inv acquire_failed(1) show ?thesis
    by (simp add: sys_inv_def)
next
  case (complete i f t result response rt)
  then have "flight_ok W C (sy_rt s) f" using inv by (simp add: sys_inv_def)
  with complete inv show ?thesis using invoke_finish_inv [of W C "sy_rt s" f] by (simp add: sys_inv_def)
next
  case (panic i f t result m rt)
  then have "flight_ok W C (sy_rt s) f" using inv by (simp add: sys_inv_def)
  with panic inv show ?thesis using invoke_finish_inv [of W C "sy_rt s" f] by (simp add: sys_inv_def)
next
  case (pass_next began tid ids pulled u rt)
  then show ?thesis using inv poll_apply_static [of W C "sy_rt s" "sy_now s" tid] by (simp add: sys_inv_def)
next
  case (pass_abort began tid ids pulled e rt)
  then show ?thesis using inv poll_apply_static [of W C "sy_rt s" "sy_now s" tid] by (simp add: sys_inv_def)
qed simp_all

lemma serve_step_static:
  assumes "sys_inv W C s" "serve_step W H net os Es s s'"
  shows "static_view (sy_rt s') = static_view (sy_rt s)"
  using assms sys_step_static unfolding serve_step_def by (auto elim: cancel_step.cases)

lemma serving_static:
  assumes "serving_init W C Es s0" "reachable (\<lambda>s. s = s0) (serve_step W H net os Es) s"
  shows "reachable (serving_init W C Es) (serve_step W H net os Es) s \<and>
    static_view (sy_rt s) = static_view (sy_rt s0)"
  using assms(2)
proof (induction rule: reachable.induct)
  case (reach_init s)
  then show ?case using assms(1) by (auto intro: reachable.reach_init)
next
  case (reach_step s t)
  then have "sys_inv W C s" using serving_inv by blast
  with reach_step show ?case using serve_step_static by (metis reachable.reach_step)
qed

section \<open>Only the reload pass moves a generation\<close>

lemma sys_step_reload:
  assumes inv: "sys_inv W C s" and step: "sys_step W H net os Es s s'"
  obtains (kept) "reload_view (sy_rt s') = reload_view (sy_rt s)"
  | (applied) began tid ids pulled r where "sy_pass s = Some (began, tid # ids)" "sy_pull s = Some pulled"
      "poll_apply W (sy_now s) tid pulled (sy_rt s) = (r, sy_rt s')"
      "s' = s\<lparr>sy_rt := sy_rt s', sy_pass := sy_pass s', sy_pull := None\<rparr>" "\<not> sy_crashed s"
  using step
proof cases
  case (acquire i f rt)
  then have "ticket_ok W C (sy_rt s) (sy_tickets s ! i)" using inv by (simp add: sys_inv_def)
  from invoke_acquire_reload_view [OF _ this acquire(4)] inv show thesis by (intro kept) (simp add: acquire sys_inv_def)
next
  case (acquire_failed i e rt)
  then have "ticket_ok W C (sy_rt s) (sy_tickets s ! i)" using inv by (simp add: sys_inv_def)
  from invoke_acquire_reload_view [OF _ this acquire_failed(4)] inv show thesis
    by (intro kept) (simp add: acquire_failed sys_inv_def)
next
  case (complete i f t result response rt)
  then have "flight_ok W C (sy_rt s) f" using inv by (simp add: sys_inv_def)
  from invoke_finish_reload_view [OF _ this complete(7)] inv show thesis by (intro kept) (simp add: complete sys_inv_def)
next
  case (panic i f t result m rt)
  then have "flight_ok W C (sy_rt s) f" using inv by (simp add: sys_inv_def)
  from invoke_finish_reload_view [OF _ this panic(7)] inv show thesis by (intro kept) (simp add: panic sys_inv_def)
next
  case (pass_next began tid ids pulled u rt)
  then show thesis by (intro applied) simp_all
next
  case (pass_abort began tid ids pulled e rt)
  then show thesis by (intro applied) simp_all
qed (use kept in simp_all)

section \<open>Sequential invocations are runs of the system\<close>

lemma flight_unchanged:
  assumes "sy_flights s ! i = f"
  shows "s\<lparr>sy_rt := (sy_rt s)\<lparr>rt_world := rt_world (sy_rt s)\<rparr>,
    sy_flights := (sy_flights s)[i := f\<lparr>fl_prog := fl_prog f\<rparr>]\<rparr> = s"
proof -
  have "f\<lparr>fl_prog := fl_prog f\<rparr> = f" by (cases f) simp
  moreover have "(sy_rt s)\<lparr>rt_world := rt_world (sy_rt s)\<rparr> = sy_rt s" by (cases "sy_rt s") simp
  ultimately show ?thesis using assms by (cases s) (auto simp: list_update_id)
qed

lemma run_prog_stays:
  assumes "sy_flights s ! i = f" "w = rt_world (sy_rt s)" "ended_with (fl_prog f) result"
  shows "\<exists>p. (sys_step W H net os Es)\<^sup>*\<^sup>* s
      (s\<lparr>sy_rt := (sy_rt s)\<lparr>rt_world := w\<rparr>, sy_flights := (sy_flights s)[i := f\<lparr>fl_prog := p\<rparr>]\<rparr>) \<and>
    ended_with p result"
  using flight_unchanged [OF assms(1)] assms(2,3) by (metis rtranclp.rtrancl_refl)

lemma run_prog_steps:
  assumes "\<not> sy_crashed s" "i < length (sy_flights s)" "sy_flights s ! i = f" "prog_abi (fl_prog f)"
    and "run_prog H net (pr_ctx (fl_prepared f)) (fl_prog f) (rt_world (sy_rt s)) = (result, w)"
  shows "\<exists>p. (sys_step W H net os Es)\<^sup>*\<^sup>* s
      (s\<lparr>sy_rt := (sy_rt s)\<lparr>rt_world := w\<rparr>, sy_flights := (sy_flights s)[i := f\<lparr>fl_prog := p\<rparr>]\<rparr>) \<and>
    ended_with p result"
  using assms
proof (induction "fl_prog f" arbitrary: s f)
  case (GCall c k)
  from GCall(2) have prog: "fl_prog f = GCall c k" by simp
  obtain reply w1 where ex: "exec_call H net (pr_ctx (fl_prepared f)) c (rt_world (sy_rt s)) = (reply, w1)"
    by fastforce
  define f1 where "f1 = f\<lparr>fl_prog := k reply\<rparr>"
  define s1 where "s1 = s\<lparr>sy_rt := (sy_rt s)\<lparr>rt_world := w1\<rparr>, sy_flights := (sy_flights s)[i := f1]\<rparr>"
  have abi: "call_abi c" "prog_abi (k reply)" using GCall.prems(4) prog by auto
  have step: "sys_step W H net os Es s s1"
    unfolding s1_def f1_def
    using GCall.prems(1-3) prog abi(1) ex by (intro sys_step.call) auto
  have "run_prog H net (pr_ctx (fl_prepared f1)) (fl_prog f1) (rt_world (sy_rt s1)) = (result, w)"
    using GCall.prems(5) prog ex by (simp add: f1_def s1_def)
  moreover have "\<not> sy_crashed s1" "i < length (sy_flights s1)" "sy_flights s1 ! i = f1"
    using GCall.prems(1,2) by (simp_all add: s1_def)
  ultimately obtain p where run: "(sys_step W H net os Es)\<^sup>*\<^sup>* s1
      (s1\<lparr>sy_rt := (sy_rt s1)\<lparr>rt_world := w\<rparr>, sy_flights := (sy_flights s1)[i := f1\<lparr>fl_prog := p\<rparr>]\<rparr>)"
      and p: "ended_with p result"
    using GCall.hyps(1) [of f1 s1] abi(2) by (auto simp: f1_def)
  have "s1\<lparr>sy_rt := (sy_rt s1)\<lparr>rt_world := w\<rparr>, sy_flights := (sy_flights s1)[i := f1\<lparr>fl_prog := p\<rparr>]\<rparr> =
      s\<lparr>sy_rt := (sy_rt s)\<lparr>rt_world := w\<rparr>, sy_flights := (sy_flights s)[i := f\<lparr>fl_prog := p\<rparr>]\<rparr>"
    by (simp add: s1_def f1_def)
  with converse_rtranclp_into_rtranclp [OF step run] p show ?case by metis
next
  case (GReturn resp g)
  from GReturn(1) [symmetric] GReturn.prems(5) show ?case
    by (intro run_prog_stays [OF GReturn.prems(3)]) auto
next
  case (GTrap e)
  from GTrap(1) [symmetric] GTrap.prems(5) show ?case
    by (intro run_prog_stays [OF GTrap.prems(3)]) auto
next
  case GStall
  from GStall(1) [symmetric] GStall.prems(5) show ?case
    by (intro run_prog_stays [OF GStall.prems(3)]) auto
qed

text \<open>The newest request in flight makes its calls, time passes, and it completes.\<close>

lemma last_flight_completes:
  assumes "\<not> sy_crashed s" "sy_now s \<le> finished" "prog_abi (fl_prog f)"
    and "runtime_tenant rt1 (fl_tenant f) = Some t"
    and "run_prog H net (pr_ctx (fl_prepared f)) (fl_prog f) (rt_world rt1) = (result, w)"
    and "invoke_finish H finished f result (rt1\<lparr>rt_world := w\<rparr>) = (Done res, rt')"
    and "result = CallElapsed \<Longrightarrow> fl_called f + lim_max_wall_duration (sb_limits (tn_sandbox t)) \<le> finished"
  shows "(sys_step W H net os Es)\<^sup>*\<^sup>* (s\<lparr>sy_rt := rt1, sy_flights := sy_flights s @ [f]\<rparr>)
    (s\<lparr>sy_rt := rt', sy_now := finished\<rparr>)"
proof -
  let ?i = "length (sy_flights s)"
  let ?s1 = "s\<lparr>sy_rt := rt1, sy_flights := sy_flights s @ [f]\<rparr>"
  have "\<exists>p. (sys_step W H net os Es)\<^sup>*\<^sup>* ?s1 (?s1\<lparr>sy_rt := (sy_rt ?s1)\<lparr>rt_world := w\<rparr>,
      sy_flights := (sy_flights ?s1)[?i := f\<lparr>fl_prog := p\<rparr>]\<rparr>) \<and> ended_with p result"
    by (rule run_prog_steps) (use assms(1,3,5) in simp_all)
  then obtain p where p: "ended_with p result" and calls: "(sys_step W H net os Es)\<^sup>*\<^sup>* ?s1
      (s\<lparr>sy_rt := rt1\<lparr>rt_world := w\<rparr>, sy_flights := sy_flights s @ [f\<lparr>fl_prog := p\<rparr>]\<rparr>)" by auto
  let ?s2 = "s\<lparr>sy_rt := rt1\<lparr>rt_world := w\<rparr>, sy_flights := sy_flights s @ [f\<lparr>fl_prog := p\<rparr>]\<rparr>"
  let ?s3 = "?s2\<lparr>sy_now := finished\<rparr>"
  have wait: "sys_step W H net os Es ?s2 ?s3" by (rule sys_step.time) (use assms(1,2) in simp_all)
  have result: "flight_result (sy_epoch ?s3) (sy_now ?s3) (lim_max_wall_duration (sb_limits (tn_sandbox t)))
      (f\<lparr>fl_prog := p\<rparr>) result"
    using p assms(7) by (cases result) simp_all
  have fin: "invoke_finish H (sy_now ?s3) (f\<lparr>fl_prog := p\<rparr>) result (sy_rt ?s3) = (Done res, rt')"
    using assms(6) by simp
  have "sys_step W H net os Es ?s3 (?s3\<lparr>sy_rt := rt', sy_flights := drop_nth ?i (sy_flights ?s3)\<rparr>)"
    by (rule sys_step.complete [where f = "f\<lparr>fl_prog := p\<rparr>", OF _ _ _ _ result fin])
      (use assms(1,4) in simp_all)
  moreover have "?s3\<lparr>sy_rt := rt', sy_flights := drop_nth ?i (sy_flights ?s3)\<rparr> =
      s\<lparr>sy_rt := rt', sy_now := finished\<rparr>"
    by (simp add: drop_nth_def)
  ultimately show ?thesis using calls wait by (metis (no_types, lifting) rtranclp.rtrancl_into_rtrancl)
qed

text \<open>\<open>invoke_begin\<close> is the admission of a request and the acquisition of its instance.\<close>

lemma begin_steps:
  assumes "\<not> sy_crashed s"
    and "invoke_begin W H os (sy_epoch s) (sy_now s) tid request (sy_rt s) = (r, rt)"
  shows "(sys_step W H net os Es)\<^sup>*\<^sup>* s
    (s\<lparr>sy_rt := rt, sy_flights := sy_flights s @ (case r of Inl _ \<Rightarrow> [] | Inr f \<Rightarrow> [f])\<rparr>)"
proof (cases "invoke_prepare H os (sy_now s) tid request (sy_rt s)")
  case (Inl e)
  with assms(2) have "r = Inl e" "rt = sy_rt s" by (auto simp: invoke_begin_def)
  then have "s\<lparr>sy_rt := rt, sy_flights := sy_flights s @ (case r of Inl _ \<Rightarrow> [] | Inr f \<Rightarrow> [f])\<rparr> = s"
    by (cases s) simp
  then show ?thesis by simp
next
  case (Inr k)
  let ?s1 = "s\<lparr>sy_tickets := sy_tickets s @ [k]\<rparr>" and ?i = "length (sy_tickets s)"
  have admitted: "sys_step W H net os Es s ?s1" by (rule sys_step.admit [OF assms(1) Inr])
  have acq: "invoke_acquire W (sy_epoch ?s1) (sy_now ?s1) (sy_tickets ?s1 ! ?i) (sy_rt ?s1) = (r, rt)"
    using assms(2) Inr by (simp add: invoke_begin_def)
  have dropped: "drop_nth ?i (sy_tickets ?s1) = sy_tickets s" by (simp add: drop_nth_def)
  have "sys_step W H net os Es ?s1
      (s\<lparr>sy_rt := rt, sy_flights := sy_flights s @ (case r of Inl _ \<Rightarrow> [] | Inr f \<Rightarrow> [f])\<rparr>)"
  proof (cases r)
    case (Inl e)
    from sys_step.acquire_failed [OF _ _ acq [unfolded Inl]] assms(1) Inl dropped show ?thesis
      by (cases s) simp
  next
    case (Inr f)
    from sys_step.acquire [OF _ _ acq [unfolded Inr]] assms(1) Inr dropped show ?thesis
      by (cases s) simp
  qed
  with admitted show ?thesis by (simp add: converse_rtranclp_into_rtranclp)
qed

lemma reachable_sys_steps:
  assumes "(sys_step W H net os Es)\<^sup>*\<^sup>* s s'" "reachable init (serve_step W H net os Es) s"
  shows "reachable init (serve_step W H net os Es) s'"
  using assms by (induction rule: rtranclp_induct) (auto intro: reach_step sys_serve_step)

section \<open>Draining and whole reload passes\<close>

text \<open>Two runtimes that differ in nothing but what the tenants' pools hold.\<close>

definition pools_only :: "('c, 'g) runtime \<Rightarrow> ('c, 'g) runtime \<Rightarrow> bool" where
  "pools_only rt rt' \<longleftrightarrow> rt'\<lparr>rt_tenants := []\<rparr> = rt\<lparr>rt_tenants := []\<rparr> \<and>
     (\<forall>tid. map_option (tn_pool_update (\<lambda>_. pool_new 1)) (runtime_tenant rt' tid) =
        map_option (tn_pool_update (\<lambda>_. pool_new 1)) (runtime_tenant rt tid))"

lemma pools_only_refl: "pools_only rt rt"
  by (simp add: pools_only_def)

lemma pools_only_trans: "pools_only rt rt1 \<Longrightarrow> pools_only rt1 rt2 \<Longrightarrow> pools_only rt rt2"
  by (simp add: pools_only_def)

lemma pools_only_sandbox:
  "pools_only rt rt' \<Longrightarrow> runtime_tenant rt' tid = Some t' \<Longrightarrow>
   \<exists>t. runtime_tenant rt tid = Some t \<and> tn_sandbox t = tn_sandbox t'"
proof -
  assume "pools_only rt rt'" "runtime_tenant rt' tid = Some t'"
  then have "map_option (tn_pool_update (\<lambda>_. pool_new 1)) (runtime_tenant rt tid) =
      Some (t'\<lparr>tn_pool := pool_new 1\<rparr>)" by (metis option.map(2) pools_only_def)
  then obtain t where t: "runtime_tenant rt tid = Some t" and "t\<lparr>tn_pool := pool_new 1\<rparr> = t'\<lparr>tn_pool := pool_new 1\<rparr>"
    by auto
  then have "tn_sandbox (t\<lparr>tn_pool := pool_new 1\<rparr>) = tn_sandbox (t'\<lparr>tn_pool := pool_new 1\<rparr>)" by simp
  with t show "\<exists>t. runtime_tenant rt tid = Some t \<and> tn_sandbox t = tn_sandbox t'" by simp
qed

lemma acquire_pools_only:
  assumes "runtime_inv W C rt" "ticket_ok W C rt k" "invoke_acquire W epoch now k rt = (r, rt')"
  shows "pools_only rt rt'"
proof -
  from assms(2) obtain t where t: "runtime_tenant rt (tk_tenant k) = Some t" unfolding ticket_ok_def by blast
  from invoke_acquire_known [OF t assms(3)] obtain pool where "rt' = put_tenant (t\<lparr>tn_pool := pool\<rparr>) rt" .
  then show ?thesis
    using t runtime_invD(1) [OF assms(1) t] runtime_inv_assoc [OF assms(1)]
    by (auto simp: pools_only_def put_tenant_lookup) (simp add: put_tenant_def)
qed

lemma waiting_acquire:
  assumes "sys_inv W C s" "\<not> sy_crashed s" "crypto_ok C" "\<And>E. E \<in> Es \<Longrightarrow> fe_crypto E = C"
  shows "\<exists>rt fs. (sys_step W H net os Es)\<^sup>*\<^sup>* s (s\<lparr>sy_rt := rt, sy_tickets := [], sy_flights := fs\<rparr>) \<and>
    sys_inv W C (s\<lparr>sy_rt := rt, sy_tickets := [], sy_flights := fs\<rparr>) \<and> pools_only (sy_rt s) rt"
  using assms(1,2)
proof (induction "sy_tickets s" arbitrary: s)
  case Nil
  then have "s\<lparr>sy_rt := sy_rt s, sy_tickets := [], sy_flights := sy_flights s\<rparr> = s" by (cases s) simp
  with Nil.prems(1) pools_only_refl show ?case by (metis rtranclp.rtrancl_refl)
next
  case (Cons k ks)
  note tickets = Cons.hyps(2) [symmetric]
  obtain r rt where a: "invoke_acquire W (sy_epoch s) (sy_now s) k (sy_rt s) = (r, rt)" by fastforce
  define fs where "fs = sy_flights s @ (case r of Inl _ \<Rightarrow> [] | Inr f \<Rightarrow> [f])"
  define s1 where "s1 = s\<lparr>sy_rt := rt, sy_tickets := ks, sy_flights := fs\<rparr>"
  have a0: "invoke_acquire W (sy_epoch s) (sy_now s) (sy_tickets s ! 0) (sy_rt s) = (r, rt)"
    using a tickets by simp
  have step: "sys_step W H net os Es s s1"
  proof (cases r)
    case (Inl e)
    from sys_step.acquire_failed [OF Cons.prems(2) _ a0 [unfolded Inl], where H = H and net = net and os = os and Es = Es] tickets Inl
    show ?thesis by (cases s) (simp add: s1_def fs_def drop_nth_def)
  next
    case (Inr f)
    from sys_step.acquire [OF Cons.prems(2) _ a0 [unfolded Inr], where H = H and net = net and os = os and Es = Es] tickets Inr
    show ?thesis by (cases s) (simp add: s1_def fs_def drop_nth_def)
  qed
  have "runtime_inv W C (sy_rt s)" "ticket_ok W C (sy_rt s) k"
    using Cons.prems(1) tickets by (simp_all add: sys_inv_def)
  then have pools: "pools_only (sy_rt s) rt" by (rule acquire_pools_only [OF _ _ a])
  have "sys_inv W C s1" by (rule sys_inv_step [OF Cons.prems(1) assms(3,4) step])
  then obtain rt' fs' where "(sys_step W H net os Es)\<^sup>*\<^sup>* s1 (s1\<lparr>sy_rt := rt', sy_tickets := [], sy_flights := fs'\<rparr>)"
      "sys_inv W C (s1\<lparr>sy_rt := rt', sy_tickets := [], sy_flights := fs'\<rparr>)" "pools_only rt rt'"
    using Cons.hyps(1) [of s1] Cons.prems(2) by (auto simp: s1_def)
  moreover have "s1\<lparr>sy_rt := rt', sy_tickets := [], sy_flights := fs'\<rparr> =
      s\<lparr>sy_rt := rt', sy_tickets := [], sy_flights := fs'\<rparr>" by (simp add: s1_def)
  ultimately show ?case
    using step pools pools_only_trans by (metis converse_rtranclp_into_rtranclp)
qed

text \<open>Once its budget has elapsed, a request can be completed, and the runtime does not change.\<close>

lemma overdue_completes:
  assumes "\<not> sy_crashed s" "sy_flights s = f # fs" "runtime_tenant (sy_rt s) (fl_tenant f) = Some t"
    and "fl_called f + lim_max_wall_duration (sb_limits (tn_sandbox t)) \<le> sy_now s"
  shows "sys_step W H net os Es s (s\<lparr>sy_flights := fs\<rparr>)"
proof -
  obtain e where fin: "invoke_finish H (sy_now s) f CallElapsed (sy_rt s) = (Done (Inl e), sy_rt s)"
    using assms(3) by (simp add: invoke_finish_def)
  have "sys_step W H net os Es s (s\<lparr>sy_rt := sy_rt s, sy_flights := drop_nth 0 (sy_flights s)\<rparr>)"
    by (rule sys_step.complete [OF assms(1) _ _ assms(3) _ fin]) (use assms(2,4) in simp_all)
  moreover have "s\<lparr>sy_rt := sy_rt s, sy_flights := drop_nth 0 (sy_flights s)\<rparr> = s\<lparr>sy_flights := fs\<rparr>"
    using assms(2) by (simp add: drop_nth_def)
  ultimately show ?thesis by simp
qed

lemma overdue_drain:
  assumes "\<not> sy_crashed s"
    and "\<And>f. f \<in> set (sy_flights s) \<Longrightarrow> \<exists>t. runtime_tenant (sy_rt s) (fl_tenant f) = Some t \<and>
      fl_called f + lim_max_wall_duration (sb_limits (tn_sandbox t)) \<le> sy_now s"
  shows "(sys_step W H net os Es)\<^sup>*\<^sup>* s (s\<lparr>sy_flights := []\<rparr>)"
  using assms
proof (induction "sy_flights s" arbitrary: s)
  case Nil
  then have "s\<lparr>sy_flights := []\<rparr> = s" by (cases s) simp
  then show ?case by simp
next
  case (Cons f fs)
  then obtain t where "runtime_tenant (sy_rt s) (fl_tenant f) = Some t"
      "fl_called f + lim_max_wall_duration (sb_limits (tn_sandbox t)) \<le> sy_now s"
    by (metis list.set_intros(1))
  then have step: "sys_step W H net os Es s (s\<lparr>sy_flights := fs\<rparr>)"
    using overdue_completes Cons.prems(1) Cons.hyps(2) [symmetric] by blast
  have "f' \<in> set (sy_flights s)" if "f' \<in> set fs" for f' using that Cons.hyps(2) by (metis list.set_intros(2))
  then have "(sys_step W H net os Es)\<^sup>*\<^sup>* (s\<lparr>sy_flights := fs\<rparr>) (s\<lparr>sy_flights := fs\<rparr>\<lparr>sy_flights := []\<rparr>)"
    by (intro Cons.hyps(1)) (use Cons.prems in simp_all)
  with step show ?case by (simp add: converse_rtranclp_into_rtranclp)
qed

text \<open>One tenant of the pass: it is skipped, or its pull and then its swap are two steps in a row.\<close>

lemma poll_tenant_steps:
  assumes "\<not> sy_crashed s" "sy_pass s = Some (began, tid # ids)" "sy_pull s = None" "E \<in> Es"
    and poll: "poll_tenant W E began (sy_now s) tid (sy_rt s) = (r, rt)"
  shows "(sys_step W H net os Es)\<^sup>*\<^sup>* s
    (s\<lparr>sy_rt := rt, sy_pass := (case r of Inl _ \<Rightarrow> None | Inr _ \<Rightarrow> Some (began, ids))\<rparr>)"
proof (cases "poll_wants began tid (sy_rt s)")
  case None
  with poll have "r = Inr ()" "rt = sy_rt s" by (simp_all add: poll_tenant_def)
  moreover have "sys_step W H net os Es s (s\<lparr>sy_pass := Some (began, ids)\<rparr>)"
    by (rule sys_step.pass_skip [OF assms(1-3) None])
  ultimately show ?thesis by simp
next
  case (Some due)
  obtain reference pin where due: "poll_wants began tid (sy_rt s) = Some (reference, pin)" using Some by (cases due) simp
  obtain pulled dir where pull: "registry_pull E (rt_registry (sy_rt s)) reference pin (rt_dir (sy_rt s)) = (pulled, dir)"
    by fastforce
  let ?s = "s\<lparr>sy_rt := (sy_rt s)\<lparr>rt_dir := dir\<rparr>, sy_pull := Some pulled\<rparr>"
  have app: "poll_apply W (sy_now ?s) tid pulled (sy_rt ?s) = (r, rt)"
    using poll due pull by (simp add: poll_tenant_def)
  have pulls: "sys_step W H net os Es s ?s" by (rule sys_step.pass_pull [OF assms(1-3) due assms(4) pull])
  have "sys_step W H net os Es ?s
      (s\<lparr>sy_rt := rt, sy_pass := (case r of Inl _ \<Rightarrow> None | Inr _ \<Rightarrow> Some (began, ids))\<rparr>)"
  proof (cases r)
    case (Inl e)
    from sys_step.pass_abort [OF _ _ _ app [unfolded Inl], where began = began and ids = ids] assms(1-3) Inl show ?thesis by (cases s) simp
  next
    case (Inr u)
    from sys_step.pass_next [OF _ _ _ app [unfolded Inr], where began = began and ids = ids] assms(1-3) Inr show ?thesis by (cases s) simp
  qed
  with pulls show ?thesis by (simp add: converse_rtranclp_into_rtranclp)
qed

lemma poll_loop_steps:
  assumes "\<not> sy_crashed s" "sy_pass s = Some (pe_now pe, ids)" "sy_pull s = None"
    and "\<And>tid. pe_fetch pe tid \<in> Es" "\<And>tid. pe_swap_at pe tid = sy_now s"
  shows "(sys_step W H net os Es)\<^sup>*\<^sup>* s (s\<lparr>sy_rt := snd (poll_loop W pe ids (sy_rt s)), sy_pass := None\<rparr>)"
  using assms
proof (induction ids arbitrary: s)
  case Nil
  then have "sys_step W H net os Es s (s\<lparr>sy_pass := None\<rparr>)" by (auto intro: sys_step.pass_end)
  then show ?case by simp
next
  case (Cons tid ids)
  obtain r rt where p: "poll_tenant W (pe_fetch pe tid) (pe_now pe) (sy_now s) tid (sy_rt s) = (r, rt)" by fastforce
  note steps = poll_tenant_steps [OF Cons.prems(1-4) p, of H net os]
  show ?case
  proof (cases r)
    case (Inl e)
    with steps p Cons.prems(5) show ?thesis by simp
  next
    case (Inr u)
    let ?s = "s\<lparr>sy_rt := rt, sy_pass := Some (pe_now pe, ids)\<rparr>"
    from steps Inr have "(sys_step W H net os Es)\<^sup>*\<^sup>* s ?s" by simp
    moreover have "(sys_step W H net os Es)\<^sup>*\<^sup>* ?s (?s\<lparr>sy_rt := snd (poll_loop W pe ids (sy_rt ?s)), sy_pass := None\<rparr>)"
      by (rule Cons.IH) (use Cons.prems in simp_all)
    ultimately show ?thesis using p Inr Cons.prems(5) by (simp add: rtranclp_trans)
  qed
qed

lemma snapshot_ids_distinct:
  assumes "runtime_inv W C rt"
  shows "distinct (map tn_id (snapshot_tenants rt))"
proof -
  have ok: "assoc_ok (rt_tenants rt)" by (rule runtime_inv_assoc [OF assms])
  have "tn_id t = tid" if "(tid, t) \<in> set (rt_tenants rt)" for tid t
    using that ok runtime_invD(1) [OF assms] by (auto simp: runtime_tenant_def assoc_get_def assoc_ok_def)
  then have ids: "map tn_id (snapshot_tenants rt) = map fst (rt_tenants rt)" by (auto simp: snapshot_tenants_def)
  show ?thesis unfolding ids using ok by (simp add: assoc_ok_def)
qed

section \<open>A concrete system\<close>

definition demo_system :: "(unit, nat) system" where
  "demo_system =
     \<lparr>sy_rt = demo_runtime [1], sy_now = 6000000000, sy_epoch = 0, sy_tickets = [], sy_flights = [], sy_pass = None,
      sy_pull = None, sy_crashed = False\<rparr>"

lemma demo_serving_init:
  "serving_init unit_wasm pad_crypto {serve_env (store_digest pad_crypto [2]) [2]} demo_system"
  using demo_runtime_inv [of "[1]"] pad_crypto_ok
  by (simp add: serving_init_def sys_init_def demo_system_def quotas_small_def serve_env_def)
    (simp add: demo_rt_tenant_def demo_sandbox_def sandbox_limits_default_def demo_runtime_def)

lemmas demo_reachable = reach_init [of "serving_init unit_wasm pad_crypto
    {serve_env (store_digest pad_crypto [2]) [2]}", OF demo_serving_init,
    where step = "serve_step unit_wasm ascii_http (\<lambda>_. Inl ''down'') demo_os
      {serve_env (store_digest pad_crypto [2]) [2]}"]

section \<open>Properties\<close>



text \<open>C3: Tenants stay apart. In every reachable state, two tenants never share a scratch filesystem,
  every tenant's scratch usage is exact and within its quota, its pool holds at most
  \<open>max_instances\<close> instances (one if that is zero), and every pooled instance and every request,
  waiting or in flight, has the sandbox, configuration and egress bridge of its own tenant.\<close>

theorem tenants_stay_apart:
  assumes "reachable (serving_init W C Es) (serve_step W H net os Es) s"
    and "runtime_tenant (sy_rt s) tid = Some t"
  shows "(\<forall>tid' t'. runtime_tenant (sy_rt s) tid' = Some t' \<and> tid' \<noteq> tid \<longrightarrow>
      sb_scratch (tn_sandbox t') \<noteq> sb_scratch (tn_sandbox t)) \<and>
    (let fs = hw_heap (rt_world (sy_rt s)) ! sb_scratch (tn_sandbox t) in
      unat (used fs) = assoc_weight length (files fs) \<and>
      unat (used fs) \<le> unat (lim_memfs_quota_bytes (sb_limits (tn_sandbox t)))) \<and>
    length (pool_inner (tn_pool t)) \<le> max 1 (unat (lim_max_instances (sb_limits (tn_sandbox t)))) \<and>
    (\<forall>ctx. ctx \<in> pr_ctx ` set (pool_inner (tn_pool t)) \<or>
        (\<exists>k\<in>set (sy_tickets s). tk_tenant k = tid \<and> ctx = tk_ctx k) \<or>
        (\<exists>f\<in>set (sy_flights s). fl_tenant f = tid \<and> ctx = pr_ctx (fl_prepared f)) \<longrightarrow>
      hx_tenant ctx = tid \<and> hx_sandbox ctx = tn_sandbox t \<and> hx_http ctx = tn_bridge t \<and>
      hx_config ctx = sb_config (tn_sandbox t))"
proof -
  have inv: "sys_inv W C s" by (rule serving_inv [OF assms(1)])
  then have rt: "runtime_inv W C (sy_rt s)" by (simp add: sys_inv_def)
  note t = runtime_invD [OF rt assms(2)]
  have fs: "let fs = hw_heap (rt_world (sy_rt s)) ! sb_scratch (tn_sandbox t) in
      unat (used fs) = assoc_weight length (files fs) \<and>
      unat (used fs) \<le> unat (lim_memfs_quota_bytes (sb_limits (tn_sandbox t)))"
    using scratch_ok_usage [OF t(3)] by (simp add: Let_def)
  note pool = tenant_ok_pool_bound [OF t(2)]
  have "ctx_of_tenant t ctx" if "ctx \<in> pr_ctx ` set (pool_inner (tn_pool t))" for ctx
    using t(2) that by (auto simp: tenant_ok_def)
  moreover have "ctx_of_tenant t (pr_ctx (fl_prepared f))" if "f \<in> set (sy_flights s)" "fl_tenant f = tid" for f
  proof -
    have "flight_ok W C (sy_rt s) f" using inv that(1) by (simp add: sys_inv_def)
    then show ?thesis using that(2) assms(2) by (simp add: flight_ok_def)
  qed
  moreover have "ctx_of_tenant t (tk_ctx k)" if "k \<in> set (sy_tickets s)" "tk_tenant k = tid" for k
  proof -
    have "ticket_ok W C (sy_rt s) k" using inv that(1) by (simp add: sys_inv_def)
    then show ?thesis using that(2) assms(2) by (simp add: ticket_ok_def)
  qed
  ultimately have ctx: "\<forall>ctx. ctx \<in> pr_ctx ` set (pool_inner (tn_pool t)) \<or>
        (\<exists>k\<in>set (sy_tickets s). tk_tenant k = tid \<and> ctx = tk_ctx k) \<or>
        (\<exists>f\<in>set (sy_flights s). fl_tenant f = tid \<and> ctx = pr_ctx (fl_prepared f)) \<longrightarrow>
      hx_tenant ctx = tid \<and> hx_sandbox ctx = tn_sandbox t \<and> hx_http ctx = tn_bridge t \<and>
      hx_config ctx = sb_config (tn_sandbox t)"
    unfolding ctx_of_tenant_def t(1) by blast
  have "\<forall>tid' t'. runtime_tenant (sy_rt s) tid' = Some t' \<and> tid' \<noteq> tid \<longrightarrow>
      sb_scratch (tn_sandbox t') \<noteq> sb_scratch (tn_sandbox t)"
    using runtime_inv_distinct [OF rt _ assms(2)] by blast
  with fs pool ctx show ?thesis by blast
qed

theorem tenants_stay_apart_witness:
  "length (pool_inner (tn_pool (demo_rt_tenant [1]))) \<le>
     max 1 (unat (lim_max_instances (sb_limits (tn_sandbox (demo_rt_tenant [1])))))"
proof -
  have "runtime_tenant (sy_rt demo_system) (TenantId ''echo'') = Some (demo_rt_tenant [1])"
    by (simp add: demo_system_def)
  from tenants_stay_apart [OF demo_reachable this] show ?thesis by blast
qed


text \<open>A guest that sends one request to the host it is allowed to reach.\<close>

definition caller_limits :: sandbox_limits where
  "caller_limits = sandbox_limits_default\<lparr>lim_egress_allow := [''api.example.com'']\<rparr>"

definition caller_request :: out_request where
  "caller_request = \<lparr>or_method = ''GET'', or_uri = demo_uri ''https'' ''443'', or_body = Some []\<rparr>"

definition caller_tenant :: "(unit, nat) tenant" where
  "caller_tenant = (demo_rt_tenant [1])
     \<lparr>tn_sandbox := demo_sandbox\<lparr>sb_limits := caller_limits\<rparr>,
      tn_bridge := \<lparr>br_policy = limits_egress_policy caller_limits, br_connect_timeout = from_secs 3,
        br_max_body_bytes = lim_max_body_bytes caller_limits\<rparr>\<rparr>"

definition caller_wasm :: "(unit, nat) wasm_lib" where
  "caller_wasm = unit_wasm\<lparr>wl_handle := (\<lambda>n req. GCall (CallSend caller_request)
     (\<lambda>_. GReturn \<lparr>gs_status = 200, gs_headers = [], gs_body = []\<rparr> n))\<rparr>"

definition caller_system :: "(unit, nat) system" where
  "caller_system = demo_system\<lparr>sy_rt := (demo_runtime [1])
     \<lparr>rt_tenants := [(TenantId ''echo'', caller_tenant)]\<rparr>\<rparr>"

lemma caller_lookup: "runtime_tenant (sy_rt caller_system) tid =
    (if tid = TenantId ''echo'' then Some caller_tenant else None)"
  by (simp add: caller_system_def runtime_tenant_def assoc_get_def)

lemma caller_tenant_ok: "tenant_ok caller_wasm pad_crypto caller_tenant"
proof -
  have "tenant_ok unit_wasm pad_crypto (demo_rt_tenant [1])" by (rule demo_tenant_ok)
  moreover have "active_ok caller_wasm = active_ok unit_wasm"
    by (simp add: fun_eq_iff active_ok_def caller_wasm_def)
  moreover have "lim_max_instances caller_limits = lim_max_instances sandbox_limits_default"
    by (simp add: caller_limits_def)
  ultimately show ?thesis
    by (auto simp: tenant_ok_def caller_tenant_def ctx_of_tenant_def demo_rt_tenant_def demo_sandbox_def
        pool_new_def)
qed

lemma caller_init: "serving_init caller_wasm pad_crypto ({} :: string fetch_env set) caller_system"
proof -
  have "scratch_ok (hw_heap (rt_world (sy_rt caller_system))) (tn_sandbox caller_tenant)"
    by (simp add: scratch_ok_def caller_system_def caller_tenant_def demo_sandbox_def caller_limits_def
        memfs_inv_new demo_runtime_def)
  moreover have "tn_id caller_tenant = TenantId ''echo''" by (simp add: caller_tenant_def)
  moreover have "assoc_ok (rt_tenants (sy_rt caller_system))" "store_inv pad_crypto (rt_dir (sy_rt caller_system))"
    by (simp_all add: caller_system_def assoc_ok_def store_inv_empty demo_runtime_def)
  ultimately have "runtime_inv caller_wasm pad_crypto (sy_rt caller_system)"
    by (simp add: runtime_inv_def caller_lookup caller_tenant_ok)
  then show ?thesis
    using pad_crypto_ok
    by (simp add: serving_init_def sys_init_def quotas_small_def caller_lookup)
      (simp add: caller_system_def demo_system_def demo_runtime_def caller_tenant_def demo_sandbox_def
        caller_limits_def sandbox_limits_default_def)
qed

abbreviation caller_steps :: "(unit, nat) system \<Rightarrow> (unit, nat) system \<Rightarrow> bool" where
  "caller_steps \<equiv> sys_step caller_wasm ascii_http (\<lambda>_. Inl ''down'') demo_os ({} :: string fetch_env set)"

abbreviation caller_reachable :: "(unit, nat) system \<Rightarrow> bool" where
  "caller_reachable \<equiv> reachable (serving_init caller_wasm pad_crypto ({} :: string fetch_env set))
     (serve_step caller_wasm ascii_http (\<lambda>_. Inl ''down'') demo_os ({} :: string fetch_env set))"

lemma caller_system_reachable: "caller_reachable caller_system"
  using reachable.reach_init [of "serving_init caller_wasm pad_crypto ({} :: string fetch_env set)"]
    caller_init by blast

lemma caller_begins:
  "\<exists>f rt k. invoke_begin caller_wasm ascii_http demo_os 0 6000000000 (TenantId ''echo'')
       \<lparr>rq_method = ''GET'', rq_uri = demo_uri ''http'' ''80'', rq_headers = [], rq_body = []\<rparr>
       (sy_rt caller_system) = (Inr f, rt) \<and>
     fl_prog f = GCall (CallSend caller_request) k \<and> hx_http (pr_ctx (fl_prepared f)) = tn_bridge caller_tenant \<and>
     hx_tenant (pr_ctx (fl_prepared f)) = TenantId ''echo''"
proof -
  have pool: "pool_inner (tn_pool caller_tenant) = []"
    by (simp add: caller_tenant_def demo_rt_tenant_def pool_new_def)
  obtain ctx where ctx: "host_ctx_new demo_os (tn_sandbox caller_tenant) (tn_bridge caller_tenant) = Inr ctx"
    by (simp add: host_ctx_new_def wasi_new_def caller_tenant_def demo_sandbox_def Let_def)
  note c = host_ctx_new_okD [OF ctx]
  have "hx_tenant ctx = TenantId ''echo''" using c(1) by (simp add: caller_tenant_def demo_sandbox_def)
  moreover have "0 < unat (max (lim_max_epoch_delta (sb_limits (hx_sandbox ctx))) 1)"
    by (simp add: c(2) caller_tenant_def caller_limits_def sandbox_limits_default_def max_def)
  ultimately show ?thesis
    using c(4)
    by (simp add: invoke_begin_eq caller_lookup request_try_from_def demo_uri_def ctx pool_acquire_def pool
        caller_wasm_def unit_wasm_def enter_guest_def)
qed

text \<open>The request in flight, and the state after its guest's call.\<close>

lemma caller_in_flight:
  "\<exists>s f k. caller_steps\<^sup>*\<^sup>* caller_system s \<and> caller_reachable s \<and> \<not> sy_crashed s \<and> sy_flights s = [f] \<and>
     static_view (sy_rt s) = static_view (sy_rt caller_system) \<and>
     fl_prog f = GCall (CallSend caller_request) k \<and> hx_http (pr_ctx (fl_prepared f)) = tn_bridge caller_tenant \<and>
     hx_tenant (pr_ctx (fl_prepared f)) = TenantId ''echo''"
proof -
  from caller_begins obtain f rt k where b: "invoke_begin caller_wasm ascii_http demo_os 0 6000000000
       (TenantId ''echo'') \<lparr>rq_method = ''GET'', rq_uri = demo_uri ''http'' ''80'', rq_headers = [], rq_body = []\<rparr>
       (sy_rt caller_system) = (Inr f, rt)"
    and f: "fl_prog f = GCall (CallSend caller_request) k" "hx_http (pr_ctx (fl_prepared f)) = tn_bridge caller_tenant"
      "hx_tenant (pr_ctx (fl_prepared f)) = TenantId ''echo''" by blast
  let ?s = "caller_system\<lparr>sy_rt := rt, sy_flights := [f]\<rparr>"
  have fresh: "\<not> sy_crashed caller_system" "sy_epoch caller_system = 0" "sy_now caller_system = 6000000000"
      "sy_flights caller_system = []"
    by (simp_all add: caller_system_def demo_system_def)
  have steps: "caller_steps\<^sup>*\<^sup>* caller_system ?s"
    using begin_steps [OF fresh(1), of caller_wasm ascii_http demo_os "TenantId ''echo''" _ "Inr f" rt] b fresh
    by fastforce
  then have "caller_reachable ?s" by (rule reachable_sys_steps [OF _ caller_system_reachable])
  moreover have "runtime_inv caller_wasm pad_crypto (sy_rt caller_system)"
    using caller_init by (simp add: serving_init_def sys_init_def)
  from invoke_begin_inv(2) [OF this b] have "static_view (sy_rt ?s) = static_view (sy_rt caller_system)" by simp
  moreover have "sy_flights ?s = [f]" "\<not> sy_crashed ?s" using fresh by simp_all
  ultimately show ?thesis using f steps by blast
qed

lemma caller_sends:
  "\<exists>wire s. caller_reachable s \<and> (TenantId ''echo'', wire) \<in> set (hw_wire (rt_world (sy_rt s)))"
proof -
  from caller_in_flight obtain s f k where s: "caller_reachable s" "\<not> sy_crashed s" "sy_flights s = [f]"
    and prog: "fl_prog f = GCall (CallSend caller_request) k"
    and ctx: "hx_http (pr_ctx (fl_prepared f)) = tn_bridge caller_tenant"
      "hx_tenant (pr_ctx (fl_prepared f)) = TenantId ''echo''" by blast
  have "allows \<lparr>allow = [''api.example.com''], default_deny = True\<rparr> ''api.example.com''" by code_simp
  then obtain wire where wire: "send_prepare (tn_bridge caller_tenant) caller_request = Inr wire"
    by (auto simp: send_prepare_ok_iff caller_tenant_def caller_request_def demo_uri_def
        limits_egress_policy_def caller_limits_def sandbox_limits_default_def)
  obtain reply w where ex: "exec_call ascii_http (\<lambda>_. Inl ''down'') (pr_ctx (fl_prepared f))
      (CallSend caller_request) (rt_world (sy_rt s)) = (reply, w)" and "(TenantId ''echo'', wire) \<in> set (hw_wire w)"
    by (simp add: ctx wire)
  let ?s = "s\<lparr>sy_rt := (sy_rt s)\<lparr>rt_world := w\<rparr>, sy_flights := (sy_flights s)[0 := f\<lparr>fl_prog := k reply\<rparr>]\<rparr>"
  have "caller_steps s ?s" using s prog ex by (intro sys_step.call) auto
  then have "caller_reachable ?s" using s(1) by (blast intro: reach_step sys_serve_step)
  moreover have "(TenantId ''echo'', wire) \<in> set (hw_wire (rt_world (sy_rt ?s)))"
    using \<open>_ \<in> set (hw_wire w)\<close> by simp
  ultimately show ?thesis by blast
qed


text \<open>C38: One guest can abort the process. When a guest returns a status outside 100 to 999, completing its
  request panics, and with the release profile's \<open>panic = abort\<close> the process is gone with the
  requests of all tenants that were in flight.\<close>

theorem guest_status_aborts_process:
  assumes "http_lib_ok H" and "\<not> sy_crashed s" and "i < length (sy_flights s)"
    and "fl_prog (sy_flights s ! i) = GReturn resp g"
    and "runtime_tenant (sy_rt s) (fl_tenant (sy_flights s ! i)) = Some t"
    and "unat (gs_status resp) < 100 \<or> 999 < unat (gs_status resp)"
  shows "\<exists>s'. sys_step W H net os Es s s' \<and> sy_crashed s' \<and> sy_flights s' = []"
proof -
  have "\<not> status_valid H (gs_status resp)" using http_lib_okD(1) [OF assms(1)] assms(6) by auto
  then obtain m where "response_from H resp = Panic m" by (simp add: response_from_def)
  then obtain rt m' where fin: "invoke_finish H (sy_now s) (sy_flights s ! i) (CallReturned resp g) (sy_rt s) = (Panic m', rt)"
    using assms(5) by (simp add: invoke_finish_def Let_def)
  let ?s = "s\<lparr>sy_rt := rt, sy_tickets := [], sy_flights := [], sy_pass := None, sy_pull := None, sy_crashed := True\<rparr>"
  have "sys_step W H net os Es s ?s"
    using assms(4) by (intro sys_step.panic [OF assms(2,3) refl assms(5) _ fin]) simp
  moreover have "sy_crashed ?s" "sy_flights ?s = []" by simp_all
  ultimately show ?thesis by blast
qed

definition status_zero_flight :: "(unit, nat) flight" where
  "status_zero_flight =
     \<lparr>fl_tenant = TenantId ''echo'', fl_active = demo_active [1], fl_started = 0,
      fl_called = 0, fl_prepared = demo_instance ''a'', fl_prog = GReturn \<lparr>gs_status = 0, gs_headers = [], gs_body = []\<rparr> 0\<rparr>"

theorem guest_status_aborts_process_witness:
  "\<exists>s'. sys_step unit_wasm ascii_http (\<lambda>_. Inl ''down'') demo_os ({} :: string fetch_env set)
     (demo_system\<lparr>sy_flights := [status_zero_flight]\<rparr>) s' \<and> sy_crashed s' \<and> sy_flights s' = []"
  by (rule guest_status_aborts_process [OF ascii_http_ok, where i = 0 and g = 0
        and resp = "\<lparr>gs_status = 0, gs_headers = [], gs_body = []\<rparr>" and t = "demo_rt_tenant [1]"])
    (simp_all add: demo_system_def status_zero_flight_def)

text \<open>C15: No request is stuck. From every state the running system can reach, all requests, those that
  wait for an instance and those in flight, can come to their end within the longest wall-clock budget
  of a tenant, whatever their guests do and without any of them being cancelled; and doing so changes
  nothing but what the pools hold: the process is not crashed, no active component, count, metric,
  stored file or outgoing request changes.\<close>

theorem requests_drain:
  assumes "reachable (serving_init W C Es) (serve_step W H net os Es) s" and "\<not> sy_crashed s"
    and "\<And>tid t. runtime_tenant (sy_rt s) tid = Some t \<Longrightarrow>
      lim_max_wall_duration (sb_limits (tn_sandbox t)) \<le> budget"
  shows "\<exists>rt. (sys_step W H net os Es)\<^sup>*\<^sup>* s
      (s\<lparr>sy_rt := rt, sy_now := sy_now s + budget, sy_tickets := [], sy_flights := []\<rparr>) \<and>
    pools_only (sy_rt s) rt"
proof -
  have "sys_inv W C s \<and> crypto_ok C \<and> (\<forall>E\<in>Es. fe_crypto E = C)"
    using serving.reachable_inv [OF assms(1)] .
  then obtain rt fs where acquired: "(sys_step W H net os Es)\<^sup>*\<^sup>* s (s\<lparr>sy_rt := rt, sy_tickets := [], sy_flights := fs\<rparr>)"
      "pools_only (sy_rt s) rt" and inv: "sys_inv W C (s\<lparr>sy_rt := rt, sy_tickets := [], sy_flights := fs\<rparr>)"
    using waiting_acquire [of W C s Es H net os] assms(2) by blast
  let ?s = "s\<lparr>sy_rt := rt, sy_tickets := [], sy_flights := fs\<rparr>"
  let ?late = "?s\<lparr>sy_now := sy_now s + budget\<rparr>"
  have wait: "sys_step W H net os Es ?s ?late" by (rule sys_step.time) (use assms(2) in simp_all)
  have drain: "(sys_step W H net os Es)\<^sup>*\<^sup>* ?late (?late\<lparr>sy_flights := []\<rparr>)"
  proof (rule overdue_drain)
    fix f assume "f \<in> set (sy_flights ?late)"
    then have f: "flight_ok W C rt f" "fl_called f \<le> sy_now s" using inv by (auto simp: sys_inv_def)
    from f(1) obtain t where t: "runtime_tenant rt (fl_tenant f) = Some t" unfolding flight_ok_def by blast
    have "lim_max_wall_duration (sb_limits (tn_sandbox t)) \<le> budget"
      using pools_only_sandbox [OF acquired(2) t] assms(3) by metis
    with t f(2) show "\<exists>t. runtime_tenant (sy_rt ?late) (fl_tenant f) = Some t \<and>
        fl_called f + lim_max_wall_duration (sb_limits (tn_sandbox t)) \<le> sy_now ?late"
      by (auto intro: add_mono)
  qed (use assms(2) in simp)
  have "?late\<lparr>sy_flights := []\<rparr> = s\<lparr>sy_rt := rt, sy_now := sy_now s + budget, sy_tickets := [], sy_flights := []\<rparr>"
    by simp
  with rtranclp_trans [OF acquired(1) converse_rtranclp_into_rtranclp [OF wait drain]] acquired(2)
  show ?thesis by metis
qed

theorem requests_drain_witness:
  "\<exists>s s'. sy_flights s \<noteq> [] \<and> sy_flights s' = [] \<and> caller_steps\<^sup>*\<^sup>* s s'"
proof -
  from caller_in_flight obtain s f where s: "caller_reachable s" "\<not> sy_crashed s" and fl: "sy_flights s = [f]"
    and view: "static_view (sy_rt s) = static_view (sy_rt caller_system)" by blast
  have "lim_max_wall_duration (sb_limits (tn_sandbox t)) \<le> from_secs 10"
    if "runtime_tenant (sy_rt s) tid = Some t" for tid t
  proof -
    from static_viewD [OF view [symmetric] that] obtain t' where
      "runtime_tenant (sy_rt caller_system) tid = Some t'" "tenant_static t' = tenant_static t" .
    then have "tn_sandbox t = tn_sandbox caller_tenant" by (auto simp: caller_lookup tenant_static_def split: if_splits)
    then show ?thesis by (simp add: caller_tenant_def caller_limits_def sandbox_limits_default_def)
  qed
  then have "\<And>tid t. runtime_tenant (sy_rt s) tid = Some t \<Longrightarrow>
      lim_max_wall_duration (sb_limits (tn_sandbox t)) \<le> from_secs 10" .
  from requests_drain [OF s, of "from_secs 10"] this obtain rt where "caller_steps\<^sup>*\<^sup>* s
      (s\<lparr>sy_rt := rt, sy_now := sy_now s + from_secs 10, sy_tickets := [], sy_flights := []\<rparr>)" by blast
  with fl show ?thesis by (intro exI [of _ s] exI conjI) simp_all
qed



text \<open>C27: Reloads under load. Whatever runs beside the reload pass, a step of the system that changes the
  generation of a tenant is the pass acting on a finished pull: the tenant's last swap lies at least the
  debounce back, the swap is stamped with the current time, the new generation has another digest, and
  the step changes nothing else: not the tenant's sandbox, egress policy, source, pooled instances or
  invocation count, not another tenant, no guest storage, and no request that waits or is in flight.\<close>

theorem swaps_are_debounced:
  assumes "reachable (serving_init W C Es) (serve_step W H net os Es) s" and "serve_step W H net os Es s s'"
    and "runtime_tenant (sy_rt s) tid = Some t" and "runtime_tenant (sy_rt s') tid = Some t'"
    and "tn_active t' \<noteq> tn_active t"
  shows "(0 < debounce (rt_policy (sy_rt s)) \<longrightarrow> tn_last_swap t + debounce (rt_policy (sy_rt s)) \<le> sy_now s) \<and>
    tn_last_swap t' = sy_now s \<and> ac_activated_at (tn_active t') = sy_now s \<and>
    ac_digest (tn_active t') \<noteq> ac_digest (tn_active t) \<and> same_identity t t' \<and>
    (\<forall>other. other \<noteq> tid \<longrightarrow> runtime_tenant (sy_rt s') other = runtime_tenant (sy_rt s) other) \<and>
    rt_world (sy_rt s') = rt_world (sy_rt s) \<and> sy_tickets s' = sy_tickets s \<and> sy_flights s' = sy_flights s"
proof -
  have inv: "sys_inv W C s" by (rule serving_inv [OF assms(1)])
  then have rt: "runtime_inv W C (sy_rt s)" by (simp add: sys_inv_def)
  have moved: "reload_view (sy_rt s') \<noteq> reload_view (sy_rt s)"
    using assms(3-5) by (metis option.inject reload_viewD)
  then have "sys_step W H net os Es s s'"
    using assms(2) unfolding serve_step_def by (auto elim: cancel_step.cases)
  with inv show ?thesis
  proof (cases rule: sys_step_reload)
    case (applied began id ids pulled r)
    have pend: "pending_ok C (sy_rt s) (Some (began, id # ids)) (Some pulled)" and "began \<le> sy_now s"
      using inv applied by (simp_all add: sys_inv_def)
    from pend obtain u reference pin where u: "runtime_tenant (sy_rt s) id = Some u"
      "debounce (rt_policy (sy_rt s)) \<le> saturating_duration_since began (tn_last_swap u)" by (rule pending_okE)
    note frame = poll_apply_frame [OF runtime_inv_assoc [OF rt] u(1) runtime_invD(1) [OF rt u(1)] applied(3)]
    with assms(3-5) have [simp]: "id = tid" by (metis option.inject)
    with u(1) assms(3) have [simp]: "u = t" by simp
    from u(1) applied(3) have swap: "tn_last_swap t' = sy_now s \<and> ac_activated_at (tn_active t') = sy_now s \<and>
        ac_digest (tn_active t') \<noteq> ac_digest (tn_active t)"
    proof (cases rule: poll_apply_cases)
      case (swapped l a)
      with assms(4) runtime_invD(1) [OF rt assms(3)] runtime_inv_assoc [OF rt]
      have "tn_active t' = a" "tn_last_swap t' = sy_now s" by (auto simp: put_tenant_lookup)
      with swapped activate_fields [OF swapped(4)] show ?thesis by simp
    qed (use assms(3-5) runtime_invD(1) [OF rt assms(3)] runtime_inv_assoc [OF rt] in
        \<open>auto simp: put_tenant_lookup\<close>)
    have "same_identity t t'" using frame assms(4) by simp
    moreover have "0 < debounce (rt_policy (sy_rt s)) \<longrightarrow>
        tn_last_swap t + debounce (rt_policy (sy_rt s)) \<le> sy_now s"
      using u(2) \<open>began \<le> sy_now s\<close> by (auto simp: saturating_duration_since_def)
    moreover have "sy_tickets s' = sy_tickets s" "sy_flights s' = sy_flights s" by (subst applied(4), simp)+
    ultimately show ?thesis using frame swap by simp
  qed (use moved in simp)
qed

abbreviation demo_steps :: "(unit, nat) system \<Rightarrow> (unit, nat) system \<Rightarrow> bool" where
  "demo_steps \<equiv> sys_step unit_wasm ascii_http (\<lambda>_. Inl ''down'') demo_os
     {serve_env (store_digest pad_crypto [2]) [2]}"

abbreviation demo_pulled :: "dir \<Rightarrow> (unit, nat) system" where
  "demo_pulled dir \<equiv> demo_system\<lparr>sy_rt := (demo_runtime [1])\<lparr>rt_dir := dir\<rparr>,
     sy_pass := Some (6000000000, [TenantId ''echo'']),
     sy_pull := Some (Inr (demo_loaded ''acme/echo:latest'' [2]))\<rparr>"

lemma demo_pass_begins:
  "sys_step W H net os Es demo_system (demo_system\<lparr>sy_pass := Some (6000000000, [TenantId ''echo''])\<rparr>)"
proof -
  have "snapshot_tenants (demo_runtime [1]) = [demo_rt_tenant [1]]"
    by (simp add: snapshot_tenants_def demo_runtime_def)
  then have "sys_step W H net os Es demo_system
      (demo_system\<lparr>sy_pass := Some (sy_now demo_system, [TenantId ''echo''])\<rparr>)"
    by (intro sys_step.pass_begin) (simp_all add: demo_system_def)
  then show ?thesis by (simp add: demo_system_def)
qed

lemma demo_pull_steps: "\<exists>dir. demo_steps\<^sup>*\<^sup>* demo_system (demo_pulled dir)"
proof -
  obtain dir where pull: "registry_pull (serve_env (store_digest pad_crypto [2]) [2]) (rt_registry (demo_runtime [1]))
      ''acme/echo:latest'' None (rt_dir (demo_runtime [1])) = (Inr (demo_loaded ''acme/echo:latest'' [2]), dir)"
    using demo_runtime_pull by blast
  let ?s = "demo_system\<lparr>sy_pass := Some (6000000000, [TenantId ''echo''])\<rparr>"
  have begun: "demo_steps demo_system ?s" by (rule demo_pass_begins)
  have "poll_wants 6000000000 (TenantId ''echo'') (demo_runtime [1]) = Some (''acme/echo:latest'', None)"
    by (simp add: poll_wants_Some_iff saturating_duration_since_def)
  then have "demo_steps ?s (?s\<lparr>sy_rt := (sy_rt ?s)\<lparr>rt_dir := dir\<rparr>,
      sy_pull := Some (Inr (demo_loaded ''acme/echo:latest'' [2]))\<rparr>)"
    using pull by (intro sys_step.pass_pull [where ids = "[]"]) (simp_all add: demo_system_def)
  then have "demo_steps ?s (demo_pulled dir)" by (simp add: demo_system_def)
  with begun show ?thesis by (meson converse_rtranclp_into_rtranclp r_into_rtranclp)
qed

lemma demo_apply_swaps:
  "\<exists>rt t'. poll_apply unit_wasm 6000000000 (TenantId ''echo'') (Inr (demo_loaded ''acme/echo:latest'' [2]))
      ((demo_runtime [1])\<lparr>rt_dir := dir\<rparr>) = (Inr (), rt) \<and>
     runtime_tenant rt (TenantId ''echo'') = Some t' \<and> tn_active t' \<noteq> tn_active (demo_rt_tenant [1])"
proof -
  have new: "ld_digest (demo_loaded ''acme/echo:latest'' [2]) \<noteq> store_digest pad_crypto [1]" by code_simp
  obtain a where a: "activate unit_wasm 6000000000 (demo_loaded ''acme/echo:latest'' [2]) = Inr a"
    by (simp add: activate_def unit_wasm_def)
  have "tn_active (demo_rt_tenant [1]) \<noteq> a"
    using new activate_fields [OF a] demo_runtime_simps(6) by metis
  then show ?thesis
    using new a demo_loaded_contract
    by (simp add: poll_apply_def should_reload_def runtime_swap_def put_tenant_lookup)
qed

theorem swaps_are_debounced_witness:
  "\<exists>s s' t t'. demo_steps s s' \<and> runtime_tenant (sy_rt s) (TenantId ''echo'') = Some t \<and>
     runtime_tenant (sy_rt s') (TenantId ''echo'') = Some t' \<and> tn_active t' \<noteq> tn_active t \<and>
     tn_last_swap t + 5000000000 \<le> sy_now s \<and> tn_last_swap t' = sy_now s"
proof -
  obtain dir where "demo_steps\<^sup>*\<^sup>* demo_system (demo_pulled dir)" using demo_pull_steps by blast
  note reach = reachable_sys_steps [OF this demo_reachable]
  from demo_apply_swaps [of dir] obtain rt t' where
    app: "poll_apply unit_wasm 6000000000 (TenantId ''echo'') (Inr (demo_loaded ''acme/echo:latest'' [2]))
      ((demo_runtime [1])\<lparr>rt_dir := dir\<rparr>) = (Inr (), rt)"
    and t': "runtime_tenant rt (TenantId ''echo'') = Some t'" "tn_active t' \<noteq> tn_active (demo_rt_tenant [1])" by blast
  let ?s = "(demo_pulled dir)\<lparr>sy_rt := rt, sy_pass := Some (6000000000, []), sy_pull := None\<rparr>"
  have step: "demo_steps (demo_pulled dir) ?s"
    by (rule sys_step.pass_next) (use app in \<open>simp_all add: demo_system_def\<close>)
  have t: "runtime_tenant (sy_rt (demo_pulled dir)) (TenantId ''echo'') = Some (demo_rt_tenant [1])" by simp
  have after: "runtime_tenant (sy_rt ?s) (TenantId ''echo'') = Some t'" using t'(1) by simp
  from swaps_are_debounced [OF reach sys_serve_step [OF step] t after t'(2)]
  have "tn_last_swap (demo_rt_tenant [1]) + 5000000000 \<le> sy_now (demo_pulled dir)"
    "tn_last_swap t' = sy_now (demo_pulled dir)" by simp_all
  with step t after t'(2) show ?thesis by blast
qed



end
