(* ===== verification/Config_Decode.thy ===== *)
theory Config_Decode
  imports Ember_Config "HOL-Library.Monad_Syntax"
begin

text \<open>
  From a TOML document to a configuration: the \<open>Deserialize\<close> implementations that \<open>serde\<close> derives for
  the records of \<open>src/src/config.rs\<close> and for \<open>SandboxLimits\<close> of \<open>src/src/wasi/sandbox.rs\<close>, as their
  attributes say (\<open>deny_unknown_fields\<close>, \<open>default\<close>, \<open>rename\<close>, \<open>tag\<close>, \<open>deserialize_with\<close>).

  A document is the tree \<open>toml\<close> the TOML parser yields; the parser itself is an argument of
  \<open>toml_from_str\<close>. An integer is a 64-bit signed value. A table has distinct keys. Decoding either
  gives a value or fails; which of several faults a failure reports is up to \<open>serde\<close>, so the model
  keeps no message. A document is a table, so the positional reading of the top level never arises.

  The lemmas give, for every record, the round trip with an encoder that writes all fields.
\<close>

section \<open>Documents\<close>

datatype toml =
    TString string
  | TInteger "64 word"
  | TBoolean bool
  | TOther string
  | TArray "toml list"
  | TTable "(string \<times> toml) list"

section \<open>Scalars\<close>

fun decode_string :: "toml \<Rightarrow> string option" where
  "decode_string (TString s) = Some s"
| "decode_string _ = None"

fun decode_bool :: "toml \<Rightarrow> bool option" where
  "decode_bool (TBoolean b) = Some b"
| "decode_bool _ = None"

text \<open>\<open>u64\<close> and \<open>usize\<close> take the non-negative integers, \<open>u32\<close> those that fit.\<close>

fun decode_u64 :: "toml \<Rightarrow> u64 option" where
  "decode_u64 (TInteger i) = (if 0 \<le> sint i then Some i else None)"
| "decode_u64 _ = None"

fun decode_u32 :: "toml \<Rightarrow> u32 option" where
  "decode_u32 (TInteger i) = (if 0 \<le> sint i \<and> sint i < 2 ^ 32 then Some (ucast i) else None)"
| "decode_u32 _ = None"

text \<open>The untagged \<open>MemSize\<close>, then \<open>deserialize_memory\<close>.\<close>

fun decode_mem_size :: "toml \<Rightarrow> mem_size option" where
  "decode_mem_size (TString t) = Some (MemText t)"
| "decode_mem_size v = map_option MemBytes (decode_u64 v)"

definition decode_memory :: "toml \<Rightarrow> usize option" where
  "decode_memory v = do { m \<leftarrow> decode_mem_size v;
     case deserialize_memory m of Inl _ \<Rightarrow> None | Inr n \<Rightarrow> Some n }"

definition decode_millis :: "toml \<Rightarrow> duration option" where
  "decode_millis v = map_option deserialize_millis (decode_u64 v)"

definition decode_socket_addr :: "toml \<Rightarrow> socket_addr option" where
  "decode_socket_addr v = do { s \<leftarrow> decode_string v; parse_socket_addr s }"

fun decode_each :: "(toml \<Rightarrow> 'a option) \<Rightarrow> toml list \<Rightarrow> 'a list option" where
  "decode_each dec [] = Some []"
| "decode_each dec (v # vs) = do { x \<leftarrow> dec v; xs \<leftarrow> decode_each dec vs; Some (x # xs) }"

fun decode_vec :: "(toml \<Rightarrow> 'a option) \<Rightarrow> toml \<Rightarrow> 'a list option" where
  "decode_vec dec (TArray vs) = decode_each dec vs"
| "decode_vec dec _ = None"

fun decode_entries :: "(string \<times> toml) list \<Rightarrow> (string, string) assoc option" where
  "decode_entries [] = Some []"
| "decode_entries ((k, v) # kvs) = do { s \<leftarrow> decode_string v; m \<leftarrow> decode_entries kvs; Some ((k, s) # m) }"

fun decode_string_map :: "toml \<Rightarrow> (string, string) assoc option" where
  "decode_string_map (TTable kvs) = decode_entries kvs"
| "decode_string_map _ = None"

section \<open>Records\<close>

text \<open>A field: its value if the key is there, otherwise the default, if there is one.\<close>

definition field :: "(string \<times> toml) list \<Rightarrow> string \<Rightarrow> (toml \<Rightarrow> 'a option) \<Rightarrow> 'a option \<Rightarrow> 'a option" where
  "field kvs key dec dflt = (case assoc_get kvs key of None \<Rightarrow> dflt | Some v \<Rightarrow> dec v)"

text \<open>\<open>deny_unknown_fields\<close>.\<close>

definition known_keys :: "string list \<Rightarrow> (string \<times> toml) list \<Rightarrow> bool" where
  "known_keys keys kvs \<longleftrightarrow> list_all (\<lambda>(k, _). k \<in> set keys) kvs"

text \<open>A table is read by its keys. An array in the place of a struct is read by position, which no
  document of the repository uses: how is left to the argument \<open>seq\<close>.\<close>

fun decode_struct ::
  "(toml list \<Rightarrow> 'a option) \<Rightarrow> ((string \<times> toml) list \<Rightarrow> 'a option) \<Rightarrow> toml \<Rightarrow> 'a option"
where
  "decode_struct seq body (TTable kvs) = body kvs"
| "decode_struct seq body (TArray vs) = seq vs"
| "decode_struct seq body _ = None"

record positional =
  seq_limits :: "toml list \<Rightarrow> sandbox_limits option"
  seq_source :: "toml list \<Rightarrow> component_source option"
  seq_tenant :: "toml list \<Rightarrow> tenant_config option"
  seq_engine :: "toml list \<Rightarrow> engine_config option"
  seq_registry :: "toml list \<Rightarrow> registry_config option"
  seq_http :: "toml list \<Rightarrow> http_config option"

definition strict :: "string list \<Rightarrow> ((string \<times> toml) list \<Rightarrow> 'a option) \<Rightarrow> (string \<times> toml) list \<Rightarrow> 'a option" where
  "strict keys body kvs = (if known_keys keys kvs then body kvs else None)"

text \<open>\<open>SandboxLimits\<close> has container defaults and accepts unknown keys.\<close>

definition limits_body :: "(string \<times> toml) list \<Rightarrow> sandbox_limits option" where
  "limits_body kvs = (let d = sandbox_limits_default in do {
     mem \<leftarrow> field kvs ''max_memory_bytes'' decode_memory (Some (lim_max_memory_bytes d));
     inst \<leftarrow> field kvs ''max_instances'' decode_u64 (Some (lim_max_instances d));
     tabs \<leftarrow> field kvs ''max_tables'' decode_u64 (Some (lim_max_tables d));
     epoch \<leftarrow> field kvs ''max_epoch_delta'' decode_u64 (Some (lim_max_epoch_delta d));
     wall \<leftarrow> field kvs ''max_wall_duration_ms'' decode_millis (Some (lim_max_wall_duration d));
     body \<leftarrow> field kvs ''max_body_bytes'' decode_memory (Some (lim_max_body_bytes d));
     quota \<leftarrow> field kvs ''memfs_quota_bytes'' decode_memory (Some (lim_memfs_quota_bytes d));
     cpus \<leftarrow> field kvs ''cpus'' decode_u32 (Some (lim_cpus d));
     egress \<leftarrow> field kvs ''egress_allow'' (decode_vec decode_string) (Some []);
     deny \<leftarrow> field kvs ''default_deny_egress'' decode_bool (Some True);
     Some \<lparr>lim_max_memory_bytes = mem, lim_max_instances = inst, lim_max_tables = tabs,
       lim_max_epoch_delta = epoch, lim_max_wall_duration = wall, lim_max_body_bytes = body,
       lim_memfs_quota_bytes = quota, lim_cpus = cpus, lim_egress_allow = egress,
       lim_default_deny_egress = deny\<rparr> })"

definition decode_limits :: "positional \<Rightarrow> toml \<Rightarrow> sandbox_limits option" where
  "decode_limits sq = decode_struct (seq_limits sq) limits_body"

text \<open>\<open>ComponentSource\<close> is tagged by \<open>kind\<close>; the variants accept unknown keys.\<close>

definition source_body :: "(string \<times> toml) list \<Rightarrow> component_source option" where
  "source_body kvs = do {
     kind \<leftarrow> field kvs ''kind'' decode_string None;
     if kind = ''oci'' then do {
       reference \<leftarrow> field kvs ''reference'' decode_string None;
       pin \<leftarrow> field kvs ''pin'' (\<lambda>v. map_option Some (decode_string v)) (Some None);
       Some (SourceOci reference pin) }
     else if kind = ''file'' then do {
       path \<leftarrow> field kvs ''path'' decode_string None;
       Some (SourceFile path) }
     else None }"

definition decode_source :: "positional \<Rightarrow> toml \<Rightarrow> component_source option" where
  "decode_source sq = decode_struct (seq_source sq) source_body"

definition tenant_keys :: "string list" where
  "tenant_keys = [''name'', ''component'', ''limits'', ''config'']"

definition tenant_body :: "positional \<Rightarrow> (string \<times> toml) list \<Rightarrow> tenant_config option" where
  "tenant_body sq kvs = do {
     name \<leftarrow> field kvs ''name'' decode_string None;
     component \<leftarrow> field kvs ''component'' (decode_source sq) None;
     limits \<leftarrow> field kvs ''limits'' (decode_limits sq) (Some sandbox_limits_default);
     config \<leftarrow> field kvs ''config'' decode_string_map (Some []);
     Some \<lparr>tc_name = name, tc_component = component, tc_limits = limits, tc_config = config\<rparr> }"

definition decode_tenant :: "positional \<Rightarrow> toml \<Rightarrow> tenant_config option" where
  "decode_tenant sq = decode_struct (seq_tenant sq) (strict tenant_keys (tenant_body sq))"

definition engine_keys :: "string list" where
  "engine_keys = [''max_memory_bytes'', ''max_instances'', ''threads'', ''epoch_interval_ms'']"

definition engine_body :: "(string \<times> toml) list \<Rightarrow> engine_config option" where
  "engine_body kvs = (let d = engine_config_default in do {
     mem \<leftarrow> field kvs ''max_memory_bytes'' decode_memory (Some (eng_max_memory_bytes d));
     inst \<leftarrow> field kvs ''max_instances'' decode_u64 (Some (eng_max_instances d));
     threads \<leftarrow> field kvs ''threads'' decode_u64 (Some (eng_threads d));
     interval \<leftarrow> field kvs ''epoch_interval_ms'' decode_u64 (Some (eng_epoch_interval_ms d));
     Some \<lparr>eng_max_memory_bytes = mem, eng_max_instances = inst, eng_threads = threads,
       eng_epoch_interval_ms = interval\<rparr> })"

definition decode_engine :: "positional \<Rightarrow> toml \<Rightarrow> engine_config option" where
  "decode_engine sq = decode_struct (seq_engine sq) (strict engine_keys engine_body)"

definition registry_keys :: "string list" where
  "registry_keys = [''endpoint'', ''insecure'', ''pull_interval_secs'', ''cache_dir'']"

definition registry_body :: "(string \<times> toml) list \<Rightarrow> registry_config option" where
  "registry_body kvs = (let d = registry_config_default in do {
     endpoint \<leftarrow> field kvs ''endpoint'' decode_string (Some (rc_endpoint d));
     insecure \<leftarrow> field kvs ''insecure'' decode_bool (Some (rc_insecure d));
     interval \<leftarrow> field kvs ''pull_interval_secs'' decode_u64 (Some (rc_pull_interval_secs d));
     cache \<leftarrow> field kvs ''cache_dir'' decode_string (Some (rc_cache_dir d));
     Some \<lparr>rc_endpoint = endpoint, rc_insecure = insecure, rc_pull_interval_secs = interval,
       rc_cache_dir = cache\<rparr> })"

definition decode_registry :: "positional \<Rightarrow> toml \<Rightarrow> registry_config option" where
  "decode_registry sq = decode_struct (seq_registry sq) (strict registry_keys registry_body)"

definition http_keys :: "string list" where
  "http_keys = [''timeout_secs'', ''concurrency'', ''max_body_bytes'', ''request_id_header'']"

definition http_body :: "(string \<times> toml) list \<Rightarrow> http_config option" where
  "http_body kvs = (let d = http_config_default in do {
     timeout \<leftarrow> field kvs ''timeout_secs'' decode_u64 (Some (hc_timeout_secs d));
     concurrency \<leftarrow> field kvs ''concurrency'' decode_u64 (Some (hc_concurrency d));
     body \<leftarrow> field kvs ''max_body_bytes'' decode_memory (Some (hc_max_body_bytes d));
     header \<leftarrow> field kvs ''request_id_header'' decode_string (Some (hc_request_id_header d));
     Some \<lparr>hc_timeout_secs = timeout, hc_concurrency = concurrency, hc_max_body_bytes = body,
       hc_request_id_header = header\<rparr> })"

definition decode_http :: "positional \<Rightarrow> toml \<Rightarrow> http_config option" where
  "decode_http sq = decode_struct (seq_http sq) (strict http_keys http_body)"

definition config_keys :: "string list" where
  "config_keys = [''bind'', ''tenants'', ''engine'', ''registry'', ''http'']"

definition config_body :: "positional \<Rightarrow> (string \<times> toml) list \<Rightarrow> config option" where
  "config_body sq kvs = do {
     addr \<leftarrow> field kvs ''bind'' decode_socket_addr (Some default_bind);
     tenants \<leftarrow> field kvs ''tenants'' (decode_vec (decode_tenant sq)) (Some []);
     engine \<leftarrow> field kvs ''engine'' (decode_engine sq) (Some engine_config_default);
     registry \<leftarrow> field kvs ''registry'' (decode_registry sq) (Some registry_config_default);
     http \<leftarrow> field kvs ''http'' (decode_http sq) (Some http_config_default);
     Some \<lparr>cfg_bind = addr, cfg_tenants = tenants, cfg_engine = engine, cfg_registry = registry,
       cfg_http = http\<rparr> }"

definition decode_config :: "positional \<Rightarrow> toml \<Rightarrow> config option" where
  "decode_config sq = decode_struct (\<lambda>_. None) (strict config_keys (config_body sq))"

text \<open>\<open>toml::from_str\<close>: \<open>parse\<close> is the TOML parser and \<open>fault\<close> the text \<open>serde\<close> reports for a document
  that does not decode.\<close>

definition toml_from_str ::
  "positional \<Rightarrow> (string \<Rightarrow> string + toml) \<Rightarrow> (toml \<Rightarrow> string) \<Rightarrow> string \<Rightarrow> string + config"
where
  "toml_from_str sq parse fault raw =
     (case parse raw of
        Inl e \<Rightarrow> Inl e
      | Inr v \<Rightarrow> (case decode_config sq v of None \<Rightarrow> Inl (fault v) | Some c \<Rightarrow> Inr c))"

section \<open>An encoder\<close>

text \<open>The document that names every field of a configuration. The address is given as text \<open>addr\<close>.\<close>

definition encode_millis :: "duration \<Rightarrow> toml" where
  "encode_millis d = TInteger (of_nat (d div 1000000))"

definition encode_strings :: "string list \<Rightarrow> toml" where
  "encode_strings xs = TArray (map TString xs)"

definition encode_limits :: "sandbox_limits \<Rightarrow> toml" where
  "encode_limits l = TTable
     [(''max_memory_bytes'', TInteger (lim_max_memory_bytes l)),
      (''max_instances'', TInteger (lim_max_instances l)),
      (''max_tables'', TInteger (lim_max_tables l)),
      (''max_epoch_delta'', TInteger (lim_max_epoch_delta l)),
      (''max_wall_duration_ms'', encode_millis (lim_max_wall_duration l)),
      (''max_body_bytes'', TInteger (lim_max_body_bytes l)),
      (''memfs_quota_bytes'', TInteger (lim_memfs_quota_bytes l)),
      (''cpus'', TInteger (ucast (lim_cpus l))),
      (''egress_allow'', encode_strings (lim_egress_allow l)),
      (''default_deny_egress'', TBoolean (lim_default_deny_egress l))]"

fun encode_source :: "component_source \<Rightarrow> toml" where
  "encode_source (SourceOci reference pin) = TTable
     ([(''kind'', TString ''oci''), (''reference'', TString reference)] @
      (case pin of None \<Rightarrow> [] | Some p \<Rightarrow> [(''pin'', TString p)]))"
| "encode_source (SourceFile path) = TTable [(''kind'', TString ''file''), (''path'', TString path)]"

definition encode_string_map :: "(string, string) assoc \<Rightarrow> toml" where
  "encode_string_map m = TTable (map (\<lambda>(k, v). (k, TString v)) m)"

definition encode_tenant :: "tenant_config \<Rightarrow> toml" where
  "encode_tenant t = TTable
     [(''name'', TString (tc_name t)), (''component'', encode_source (tc_component t)),
      (''limits'', encode_limits (tc_limits t)), (''config'', encode_string_map (tc_config t))]"

definition encode_engine :: "engine_config \<Rightarrow> toml" where
  "encode_engine e = TTable
     [(''max_memory_bytes'', TInteger (eng_max_memory_bytes e)),
      (''max_instances'', TInteger (eng_max_instances e)), (''threads'', TInteger (eng_threads e)),
      (''epoch_interval_ms'', TInteger (eng_epoch_interval_ms e))]"

definition encode_registry :: "registry_config \<Rightarrow> toml" where
  "encode_registry r = TTable
     [(''endpoint'', TString (rc_endpoint r)), (''insecure'', TBoolean (rc_insecure r)),
      (''pull_interval_secs'', TInteger (rc_pull_interval_secs r)),
      (''cache_dir'', TString (rc_cache_dir r))]"

definition encode_http :: "http_config \<Rightarrow> toml" where
  "encode_http h = TTable
     [(''timeout_secs'', TInteger (hc_timeout_secs h)), (''concurrency'', TInteger (hc_concurrency h)),
      (''max_body_bytes'', TInteger (hc_max_body_bytes h)),
      (''request_id_header'', TString (hc_request_id_header h))]"

definition encode_config :: "string \<Rightarrow> config \<Rightarrow> toml" where
  "encode_config addr c = TTable
     [(''bind'', TString addr), (''tenants'', TArray (map encode_tenant (cfg_tenants c))),
      (''engine'', encode_engine (cfg_engine c)), (''registry'', encode_registry (cfg_registry c)),
      (''http'', encode_http (cfg_http c))]"

text \<open>What a TOML integer can hold: a TOML file cannot write a byte count of \<open>2\<^sup>6\<^sup>3\<close> or more as a
  number, nor a wall-clock budget that is not a whole number of milliseconds.\<close>

definition fits :: "64 word \<Rightarrow> bool" where
  "fits w \<longleftrightarrow> 0 \<le> sint w"

definition fits_millis :: "duration \<Rightarrow> bool" where
  "fits_millis d \<longleftrightarrow> d mod 1000000 = 0 \<and> d div 1000000 < 2 ^ 63"

definition limits_expressible :: "sandbox_limits \<Rightarrow> bool" where
  "limits_expressible l \<longleftrightarrow> fits (lim_max_memory_bytes l) \<and> fits (lim_max_instances l) \<and>
     fits (lim_max_tables l) \<and> fits (lim_max_epoch_delta l) \<and>
     fits_millis (lim_max_wall_duration l) \<and> fits (lim_max_body_bytes l) \<and>
     fits (lim_memfs_quota_bytes l)"

definition engine_expressible :: "engine_config \<Rightarrow> bool" where
  "engine_expressible e \<longleftrightarrow> fits (eng_max_memory_bytes e) \<and> fits (eng_max_instances e) \<and>
     fits (eng_threads e) \<and> fits (eng_epoch_interval_ms e)"

definition http_expressible :: "http_config \<Rightarrow> bool" where
  "http_expressible h \<longleftrightarrow> fits (hc_timeout_secs h) \<and> fits (hc_concurrency h) \<and>
     fits (hc_max_body_bytes h)"

definition expressible :: "config \<Rightarrow> bool" where
  "expressible c \<longleftrightarrow> list_all (\<lambda>t. limits_expressible (tc_limits t)) (cfg_tenants c) \<and>
     engine_expressible (cfg_engine c) \<and> fits (rc_pull_interval_secs (cfg_registry c)) \<and>
     http_expressible (cfg_http c)"

section \<open>Lemmas on decoding\<close>

lemma field_eqs [simp]:
  "field [] key dec d = d"
  "field ((k, v) # kvs) key dec d = (if k = key then dec v else field kvs key dec d)"
  by (simp_all add: field_def assoc_get_def)

lemma decode_u64_fits [simp]: "fits w \<Longrightarrow> decode_u64 (TInteger w) = Some w"
  by (simp add: fits_def)

declare decode_u64.simps(1) [simp del]

lemma decode_memory_fits [simp]: "fits w \<Longrightarrow> decode_memory (TInteger w) = Some w"
  by (simp add: decode_memory_def)

lemma sint_ucast32: "sint (ucast (w :: u32) :: 64 word) = uint w"
proof -
  have "uint w < 2 ^ 32" using uint_lt2p [of w] by simp
  then have "signed_take_bit 63 (uint w) = uint w"
    by (intro signed_take_bit_int_eq_self) (auto intro: order_trans [OF _ uint_ge_0])
  then show ?thesis by (simp add: sint_uint uint_up_ucast is_up)
qed

lemma decode_u32_ucast [simp]: "decode_u32 (TInteger (ucast w)) = Some w"
proof -
  have "ucast (ucast w :: 64 word) = w" by (rule bit_word_eqI) (simp add: bit_ucast_iff)
  then show ?thesis using uint_lt2p [of w] by (simp add: sint_ucast32)
qed

declare decode_u32.simps(1) [simp del]

lemma decode_millis_fits [simp]:
  assumes "fits_millis d"
  shows "decode_millis (encode_millis d) = Some d"
proof -
  define n where "n = d div 1000000"
  have n: "n < 2 ^ 63" "d = n * 1000000"
    using assms unfolding fits_millis_def n_def by (simp_all add: mod_eq_0_iff_dvd)
  then have "sint (of_nat n :: 64 word) = int n"
    by (simp add: sint_uint unsigned_of_nat take_bit_nat_eq_self signed_take_bit_int_eq_self)
  moreover have "unat (of_nat n :: u64) = n" using n(1) by (simp add: unat_of_nat64)
  ultimately show ?thesis
    using n(2) by (simp add: decode_u64.simps decode_millis_def encode_millis_def deserialize_millis_def
        from_millis_def flip: n_def)
qed

lemma decode_each_map:
  "(\<And>x. x \<in> set xs \<Longrightarrow> dec (enc x) = Some x) \<Longrightarrow> decode_each dec (map enc xs) = Some xs"
  by (induction xs) simp_all

lemma decode_strings [simp]: "decode_vec decode_string (encode_strings xs) = Some xs"
  by (simp add: encode_strings_def decode_each_map)

lemma decode_string_map_encode [simp]: "decode_string_map (encode_string_map m) = Some m"
proof -
  have "decode_entries (map (\<lambda>(k, v). (k, TString v)) m) = Some m" by (induction m) auto
  then show ?thesis by (simp add: encode_string_map_def)
qed

text \<open>The round trip of every record.\<close>

lemma limits_roundtrip [simp]:
  "limits_expressible l \<Longrightarrow> decode_limits sq (encode_limits l) = Some l"
  by (simp add: decode_limits_def encode_limits_def limits_body_def limits_expressible_def)

lemma source_roundtrip [simp]: "decode_source sq (encode_source src) = Some src"
  by (cases src) (auto simp: decode_source_def source_body_def split: option.split)

lemma tenant_roundtrip [simp]:
  "limits_expressible (tc_limits t) \<Longrightarrow> decode_tenant sq (encode_tenant t) = Some t"
  by (simp add: decode_tenant_def encode_tenant_def strict_def known_keys_def tenant_keys_def
      tenant_body_def)

lemma engine_roundtrip [simp]:
  "engine_expressible e \<Longrightarrow> decode_engine sq (encode_engine e) = Some e"
  by (simp add: decode_engine_def encode_engine_def strict_def known_keys_def engine_keys_def
      engine_body_def engine_expressible_def)

lemma registry_roundtrip [simp]:
  "fits (rc_pull_interval_secs r) \<Longrightarrow> decode_registry sq (encode_registry r) = Some r"
  by (simp add: decode_registry_def encode_registry_def strict_def known_keys_def registry_keys_def
      registry_body_def)

lemma http_roundtrip [simp]:
  "http_expressible h \<Longrightarrow> decode_http sq (encode_http h) = Some h"
  by (simp add: decode_http_def encode_http_def strict_def known_keys_def http_keys_def
      http_body_def http_expressible_def)

lemma config_roundtrip:
  assumes "expressible c" "parse_socket_addr addr = Some (cfg_bind c)"
  shows "decode_config sq (encode_config addr c) = Some c"
proof -
  have "decode_each (decode_tenant sq) (map encode_tenant (cfg_tenants c)) = Some (cfg_tenants c)"
    using assms(1) by (intro decode_each_map) (simp add: expressible_def list_all_iff)
  then show ?thesis
    using assms by (simp add: decode_config_def encode_config_def strict_def known_keys_def
        config_keys_def config_body_def decode_socket_addr_def expressible_def)
qed

text \<open>Unknown keys. A strict record is read only from a table of known keys, an absent or decoded
  field is what \<open>field\<close> says, and a list decodes only if every element does.\<close>

lemma strict_SomeD: "strict keys body kvs = Some x \<Longrightarrow> known_keys keys kvs"
  by (simp add: strict_def split: if_splits)

lemma field_presentD: "field kvs key dec d = Some x \<Longrightarrow> assoc_get kvs key = Some v \<Longrightarrow> dec v = Some x"
  by (simp add: field_def)

lemma decode_each_memD: "decode_each dec vs = Some xs \<Longrightarrow> v \<in> set vs \<Longrightarrow> \<exists>x. dec v = Some x"
  by (induction vs arbitrary: xs) (auto simp: bind_eq_Some_conv)

lemma config_body_fieldsD:
  assumes "config_body sq kvs = Some c"
  shows "field kvs ''tenants'' (decode_vec (decode_tenant sq)) (Some []) = Some (cfg_tenants c)"
    and "field kvs ''engine'' (decode_engine sq) (Some engine_config_default) = Some (cfg_engine c)"
    and "field kvs ''registry'' (decode_registry sq) (Some registry_config_default) = Some (cfg_registry c)"
    and "field kvs ''http'' (decode_http sq) (Some http_config_default) = Some (cfg_http c)"
  using assms by (auto simp: config_body_def bind_eq_Some_conv)

text \<open>A key that is none of the record's fields makes no difference to \<open>SandboxLimits\<close>.\<close>

definition limits_keys :: "string list" where
  "limits_keys = [''max_memory_bytes'', ''max_instances'', ''max_tables'', ''max_epoch_delta'',
     ''max_wall_duration_ms'', ''max_body_bytes'', ''memfs_quota_bytes'', ''cpus'', ''egress_allow'',
     ''default_deny_egress'']"

lemma limits_unknown_key:
  "k \<notin> set limits_keys \<Longrightarrow> limits_body ((k, v) # kvs) = limits_body kvs"
  by (simp add: limits_body_def limits_keys_def)

text \<open>The reading that accepts no array for a record.\<close>

definition no_arrays :: positional where
  "no_arrays = \<lparr>seq_limits = \<lambda>_. None, seq_source = \<lambda>_. None, seq_tenant = \<lambda>_. None,
     seq_engine = \<lambda>_. None, seq_registry = \<lambda>_. None, seq_http = \<lambda>_. None\<rparr>"

section \<open>The example file\<close>

text \<open>\<open>src/config/ember.example.toml\<close> as the tree the TOML parser yields.\<close>

definition example_toml :: toml where
  "example_toml = TTable
     [(''bind'', TString ''0.0.0.0:8080''),
      (''engine'', TTable
         [(''max_memory_bytes'', TString ''1024m''), (''max_instances'', TInteger 64),
          (''threads'', TInteger 4), (''epoch_interval_ms'', TInteger 100)]),
      (''registry'', TTable
         [(''endpoint'', TString ''ghcr.io''), (''insecure'', TBoolean False),
          (''pull_interval_secs'', TInteger 30), (''cache_dir'', TString ''registry-cache'')]),
      (''http'', TTable
         [(''timeout_secs'', TInteger 30), (''concurrency'', TInteger 512),
          (''max_body_bytes'', TString ''8m''), (''request_id_header'', TString ''x-request-id'')]),
      (''tenants'', TArray
         [TTable
            [(''name'', TString ''echo''),
             (''component'', TTable
                [(''kind'', TString ''oci''),
                 (''reference'', TString ''ghcr.io/opanai404/ember/echo:latest''),
                 (''pin'', TString
                    ''sha256:9f1b2c3d4e5f60718293a4b5c6d7e8f9a0b1c2d3e4f5a6b7c8d9e0f1a2b3c4d5'')]),
             (''limits'', TTable
                [(''max_memory_bytes'', TString ''256m''), (''max_instances'', TInteger 8),
                 (''max_wall_duration_ms'', TInteger 10000), (''max_body_bytes'', TString ''1m''),
                 (''memfs_quota_bytes'', TString ''4m''),
                 (''egress_allow'', TArray
                    [TString ''https://api.example.com'', TString ''https://*.static.example.net''])])],
          TTable
            [(''name'', TString ''static''),
             (''component'', TTable
                [(''kind'', TString ''file''), (''path'', TString ''components/static.wasm'')]),
             (''limits'', TTable
                [(''max_memory_bytes'', TString ''64m''), (''egress_allow'', TArray [])])]])]"

text \<open>The configuration the file is meant to give.\<close>

definition example_tenants :: "tenant_config list" where
  "example_tenants =
     [\<lparr>tc_name = ''echo'',
       tc_component = SourceOci ''ghcr.io/opanai404/ember/echo:latest''
         (Some ''sha256:9f1b2c3d4e5f60718293a4b5c6d7e8f9a0b1c2d3e4f5a6b7c8d9e0f1a2b3c4d5''),
       tc_limits = sandbox_limits_default
         \<lparr>lim_max_memory_bytes := 268435456, lim_max_wall_duration := from_millis 10000,
          lim_max_body_bytes := 1048576,
          lim_egress_allow := [''https://api.example.com'', ''https://*.static.example.net'']\<rparr>,
       tc_config = []\<rparr>,
      \<lparr>tc_name = ''static'', tc_component = SourceFile ''components/static.wasm'',
       tc_limits = sandbox_limits_default\<lparr>lim_max_memory_bytes := 67108864\<rparr>,
       tc_config = []\<rparr>]"

definition example_bind :: socket_addr where
  "example_bind = the (parse_socket_addr ''0.0.0.0:8080'')"

definition example_config :: config where
  "example_config = config_default
     \<lparr>cfg_bind := example_bind, cfg_tenants := example_tenants\<rparr>"

lemma size_texts:
  "parse_memory ''1024m'' = Inr 1073741824" "parse_memory ''8m'' = Inr 8388608"
  "parse_memory ''256m'' = Inr 268435456" "parse_memory ''1m'' = Inr 1048576"
  "parse_memory ''4m'' = Inr 4194304" "parse_memory ''64m'' = Inr 67108864"
proof -
  have sizes: "parse_memory (ds @ ''m'') = Inr (of_nat n * 1048576)"
    if "ds \<noteq> []" "list_all is_ascii_digit ds" "digits_value 0 ds = n" "n \<le> 1024" for ds n
    using that by (intro parse_memory_text concrete_units) simp_all
  have "list_all (list_all is_ascii_digit) [''1024'', ''8'', ''256'', ''1'', ''4'', ''64'']"
    "map (digits_value 0) [''1024'', ''8'', ''256'', ''1'', ''4'', ''64''] = [1024, 8, 256, 1, 4, 64]"
    by code_simp+
  then show "parse_memory ''1024m'' = Inr 1073741824" "parse_memory ''8m'' = Inr 8388608"
    "parse_memory ''256m'' = Inr 268435456" "parse_memory ''1m'' = Inr 1048576"
    "parse_memory ''4m'' = Inr 4194304" "parse_memory ''64m'' = Inr 67108864"
    using sizes [of "''1024''" 1024] sizes [of "''8''" 8] sizes [of "''256''" 256]
      sizes [of "''1''" 1] sizes [of "''4''" 4] sizes [of "''64''" 64]
    by simp_all
qed

lemma decode_memory_text: "parse_memory t = Inr n \<Longrightarrow> decode_memory (TString t) = Some n"
  by (simp add: decode_memory_def)

lemmas decode_defs =
  decode_config_def config_body_def config_keys_def decode_tenant_def tenant_body_def tenant_keys_def
  decode_engine_def engine_body_def engine_keys_def decode_registry_def registry_body_def
  registry_keys_def decode_http_def http_body_def http_keys_def decode_limits_def limits_body_def
  decode_source_def source_body_def strict_def known_keys_def decode_socket_addr_def decode_millis_def

lemma example_bind_parses: "parse_socket_addr ''0.0.0.0:8080'' = Some example_bind"
proof -
  have "parse_socket_addr ''0.0.0.0:8080'' \<noteq> None" by code_simp
  then show ?thesis by (auto simp: example_bind_def)
qed

lemma example_decodes: "decode_config sq example_toml = Some example_config"
  by (simp add: example_toml_def decode_defs decode_u64.simps decode_memory_text size_texts
      example_bind_parses deserialize_millis_def example_config_def example_tenants_def config_default_def
      engine_config_default_def registry_config_default_def http_config_default_def
      sandbox_limits_default_def)

lemma example_sources_ok: "list_all (source_ok \<circ> tc_component) example_tenants"
proof -
  let ?h = "''9f1b2c3d4e5f60718293a4b5c6d7e8f9a0b1c2d3e4f5a6b7c8d9e0f1a2b3c4d5''"
  have "length ?h = 64 \<and> list_all is_ascii_hexdigit ?h" by code_simp
  then have "\<exists>h. ''sha256:'' @ ?h = ''sha256:'' @ h \<and> length h = 64 \<and> list_all is_ascii_hexdigit h"
    by blast
  then have "source_ok (SourceOci ''ghcr.io/opanai404/ember/echo:latest'' (Some (''sha256:'' @ ?h)))"
    unfolding source_ok_def component_source.case option.case by (intro conjI) (simp, assumption)
  then show ?thesis by (simp add: example_tenants_def source_ok_def [of "SourceFile _"])
qed

lemma example_names_ok: "list_all (valid_tenant_name \<circ> tc_name) example_tenants"
proof -
  have "valid_tenant_name ''echo''" "valid_tenant_name ''static''" by code_simp+
  then show ?thesis by (simp add: example_tenants_def)
qed

lemma example_limits_ok:
  "list_all (\<lambda>t. limits_validate (tc_limits t) = Inr () \<and>
     lim_max_memory_bytes (tc_limits t) \<le> 1073741824 \<and> lim_max_instances (tc_limits t) \<le> 64 \<and>
     0 < lim_max_epoch_delta (tc_limits t)) example_tenants"
  by (simp add: example_tenants_def sandbox_limits_default_def limits_validate_def from_secs_def
      from_millis_def)

lemma example_ok: "config_ok example_config"
  using example_sources_ok example_names_ok example_limits_ok
  by (auto simp: config_ok_def tenant_within_def example_config_def config_default_def
      engine_config_default_def list_all_iff)

lemma example_expressible: "expressible example_config"
  by (simp add: expressible_def limits_expressible_def engine_expressible_def http_expressible_def
      fits_def fits_millis_def example_config_def example_tenants_def config_default_def
      engine_config_default_def registry_config_default_def http_config_default_def
      sandbox_limits_default_def from_secs_def from_millis_def)

section \<open>Properties\<close>

text \<open>C21: A configuration file says what it says. A file that the TOML parser reads as the document
  naming every field of a valid configuration \<open>c\<close> is loaded as exactly \<open>c\<close>, if no environment
  override is set: no field is lost, mixed up with another, replaced by a default or clamped, for
  every configuration TOML can express.\<close>

theorem config_file_roundtrip:
  assumes "read_to_string p = Inr raw" "parse raw = Inr (encode_config addr c)"
    and "parse_socket_addr addr = Some (cfg_bind c)" "expressible c" "config_ok c"
  shows "config_load read_to_string (toml_from_str sq parse fault) (\<lambda>_. None) (Some p) = Inr c"
  using assms config_ok_validate [of c] config_roundtrip [of c addr sq]
  by (simp add: config_load_def toml_from_str_def apply_env_def)

theorem config_file_roundtrip_witness:
  "config_load (\<lambda>_. Inr ''raw'')
     (toml_from_str no_arrays (\<lambda>_. Inr (encode_config ''0.0.0.0:8080'' example_config)) (\<lambda>_. ''''))
     (\<lambda>_. None) (Some ''ember.toml'') = Inr example_config"
  by (rule config_file_roundtrip [where raw = "''raw''" and addr = "''0.0.0.0:8080''"])
    (simp_all add: example_expressible example_ok example_bind_parses, simp add: example_config_def)

text \<open>C36: Which misspelt keys stop the start. When a document decodes, the top level, the \<open>engine\<close>,
  \<open>registry\<close> and \<open>http\<close> tables and every tenant table hold known keys only. A tenant's \<open>limits\<close>
  table is no such table: a key that is none of its fields is dropped silently, so a misspelt
  memory budget leaves the default in place.\<close>

theorem unknown_keys_rejected_except_limits:
  assumes "decode_config sq (TTable kvs) = Some c"
  shows "known_keys config_keys kvs \<and>
    (\<forall>e. assoc_get kvs ''engine'' = Some (TTable e) \<longrightarrow> known_keys engine_keys e) \<and>
    (\<forall>r. assoc_get kvs ''registry'' = Some (TTable r) \<longrightarrow> known_keys registry_keys r) \<and>
    (\<forall>h. assoc_get kvs ''http'' = Some (TTable h) \<longrightarrow> known_keys http_keys h) \<and>
    (\<forall>ts t. assoc_get kvs ''tenants'' = Some (TArray ts) \<and> TTable t \<in> set ts \<longrightarrow>
       known_keys tenant_keys t) \<and>
    (\<forall>k v l. k \<notin> set limits_keys \<longrightarrow>
       decode_limits sq (TTable ((k, v) # l)) = decode_limits sq (TTable l))"
proof -
  from assms have known: "known_keys config_keys kvs" and body: "config_body sq kvs = Some c"
    by (simp_all add: decode_config_def strict_def split: if_splits)
  have "\<exists>x. decode_tenant sq (TTable t) = Some x"
    if "assoc_get kvs ''tenants'' = Some (TArray ts)" "TTable t \<in> set ts" for ts t
    using field_presentD [OF config_body_fieldsD(1) [OF body] that(1)] that(2)
    by (auto dest: decode_each_memD)
  then have "known_keys tenant_keys t"
    if "assoc_get kvs ''tenants'' = Some (TArray ts)" "TTable t \<in> set ts" for ts t
    using that by (auto simp: decode_tenant_def dest: strict_SomeD)
  with known show ?thesis
    using field_presentD [OF config_body_fieldsD(2) [OF body]]
      field_presentD [OF config_body_fieldsD(3) [OF body]]
      field_presentD [OF config_body_fieldsD(4) [OF body]]
    by (auto simp: decode_engine_def decode_registry_def decode_http_def decode_limits_def
        limits_unknown_key dest!: strict_SomeD)
qed

theorem unknown_keys_rejected_except_limits_witness:
  "decode_config no_arrays (TTable [(''bnid'', TString ''0.0.0.0:8080'')]) = None \<and>
   (\<exists>l. decode_limits no_arrays (TTable [(''max_memory_byte'', TString ''64m'')]) = Some l \<and>
     lim_max_memory_bytes l = 134217728)"
proof -
  obtain kvs where doc: "example_toml = TTable kvs" by (simp add: example_toml_def)
  have limits: "decode_limits no_arrays (TTable [(''max_memory_byte'', TString ''64m'')]) =
      decode_limits no_arrays (TTable [])"
    using unknown_keys_rejected_except_limits [OF example_decodes [of no_arrays, unfolded doc]]
    by (simp add: limits_keys_def)
  have "\<not> known_keys config_keys [(''bnid'', TString ''0.0.0.0:8080'')]"
    by (simp add: known_keys_def config_keys_def)
  then have "decode_config no_arrays (TTable [(''bnid'', TString ''0.0.0.0:8080'')]) = None"
    using unknown_keys_rejected_except_limits [of no_arrays] by (meson not_None_eq)
  with limits show ?thesis
    by (simp add: decode_limits_def limits_body_def sandbox_limits_default_def)
qed

text \<open>The shipped example configuration works. The document of \<open>config/ember.example.toml\<close>
  decodes, and \<open>load\<close> accepts it unchanged: the sizes are the ones their texts say, what the file
  leaves out has its default, and no tenant exceeds the engine budget.\<close>

theorem example_file_loads:
  "config_load (\<lambda>_. Inr raw) (toml_from_str sq (\<lambda>_. Inr example_toml) fault) (\<lambda>_. None) (Some p) =
     Inr example_config"
  using config_ok_validate [OF example_ok] example_decodes [of sq]
  by (simp add: config_load_def toml_from_str_def apply_env_def)

end
