(* ===== verification/Ember_Main.thy ===== *)
theory Ember_Main
  imports Http_Ingress Serving_System Config_Decode
begin

text \<open>
  The binary of \<open>src/src/main.rs\<close>: initialise telemetry, load the configuration, either report on it
  (\<open>--check\<close>) or assemble the runtime and serve. The command line is already parsed (clap);
  \<open>MainServe\<close> is the runtime handed to \<open>serve\<close> and \<open>main_result\<close> what the process ends with.

  The lemmas connect the configuration with the assembled runtime: which tenants it serves, and that
  the parts of a tenant fixed at start-up stay fixed in every reachable state.
\<close>

section \<open>The entry point\<close>

record cli =
  cli_config :: "string option"
  cli_json :: bool
  cli_log_level :: "string option"
  cli_check :: bool

text \<open>The figures of the report: tenants, engine memory, engine instances, address.\<close>

datatype ('c, 'g) main_outcome =
    MainError error
  | MainChecked nat usize usize socket_addr
  | MainServe config "('c, 'g) runtime"

record 'f main_env =
  me_try_new :: "string \<Rightarrow> string + 'f"
  me_try_init :: "'f \<Rightarrow> bool \<Rightarrow> string + unit"
  me_install :: "string + unit"
  me_env :: environment
  me_read :: "string \<Rightarrow> string + string"
  me_toml :: "string \<Rightarrow> string + config"

definition ember_main ::
  "('c, 'g) wasm_lib \<Rightarrow> 'r build_env \<Rightarrow> 'f main_env \<Rightarrow> cli \<Rightarrow> ('c, 'g) main_outcome" where
  "ember_main W be me args =
     (case telemetry_init (me_try_new me) (me_try_init me) (me_install me) (me_env me)
             (cli_log_level args) (cli_json args) telemetry_empty of
        (Inl e, _) \<Rightarrow> MainError e
      | (Inr _, tel) \<Rightarrow>
          (case config_load (me_read me) (me_toml me) (me_env me) (cli_config args) of
             Inl e \<Rightarrow> MainError e
           | Inr c \<Rightarrow>
               if cli_check args then
                 MainChecked (length (cfg_tenants c)) (eng_max_memory_bytes (cfg_engine c))
                   (eng_max_instances (cfg_engine c)) (cfg_bind c)
               else
                 (case runtime_build W be tel c of
                    Inl e \<Rightarrow> MainError e
                  | Inr rt \<Rightarrow> MainServe c rt)))"

text \<open>What \<open>main\<close> returns: the error, success after the report, or what serving ends with.\<close>

definition main_result ::
  "'l listener_os \<Rightarrow> ('c, 'g) wasm_lib \<Rightarrow> http_lib \<Rightarrow> net_client \<Rightarrow> wasi_os \<Rightarrow> nat \<Rightarrow> instant \<Rightarrow> instant \<Rightarrow>
   ('c, 'g) main_outcome \<Rightarrow> unit result outcome"
where
  "main_result ls W H net os epoch now finished out =
     (case out of
        MainError e \<Rightarrow> Done (Inl e)
      | MainChecked _ _ _ _ \<Rightarrow> Done (Inr ())
      | MainServe c rt \<Rightarrow> runtime_serve ls W H net os epoch now finished rt (rt_bind rt))"

text \<open>\<open>--check\<close> never starts anything: it succeeds exactly when telemetry starts and the configuration
  loads, whatever the engine, the registry or the network would have done.\<close>

lemma check_only_validates:
  assumes "cli_check args"
    and "fst (telemetry_init (me_try_new me) (me_try_init me) (me_install me) (me_env me)
        (cli_log_level args) (cli_json args) telemetry_empty) = Inr ()"
  shows "main_result ls W H net os epoch now finished (ember_main W be me args) = Done (Inr ()) \<longleftrightarrow>
    (\<exists>c. config_load (me_read me) (me_toml me) (me_env me) (cli_config args) = Inr c)"
  using assms by (auto simp: main_result_def ember_main_def split: prod.splits sum.splits)

section \<open>The tenants of an assembled runtime\<close>

text \<open>A registered tenant is an instance of one of the configured ones.\<close>

definition tenant_from :: "tenant_config \<Rightarrow> ('c, 'g) tenant \<Rightarrow> bool" where
  "tenant_from cfg t \<longleftrightarrow> tn_id t = TenantId (tc_name cfg) \<and> tn_source t = tc_component cfg \<and>
     sb_limits (tn_sandbox t) = tc_limits cfg \<and> sb_config (tn_sandbox t) = tc_config cfg"

lemma load_tenant_registers:
  assumes "runtime_inv W C rt" "load_tenant W client E read now cfg rt = (Inr u, rt')"
  shows "\<exists>t. runtime_tenant rt' = (runtime_tenant rt)(TenantId (tc_name cfg) \<mapsto> t) \<and> tenant_from cfg t"
  using assms(2)
proof (cases rule: load_tenant_ok)
  case (1 tid sb heap br l dir a)
  have ok: "assoc_ok (rt_tenants (rt\<lparr>rt_world := w, rt_dir := dir\<rparr>))" for w
    using runtime_inv_assoc [OF assms(1)] by simp
  have "tid = TenantId (tc_name cfg)" using 1(1) by (simp add: tenant_new_ok_iff)
  moreover have "sb_limits sb = tc_limits cfg" "sb_config sb = tc_config cfg"
    using 1(2) by (simp_all add: sandbox_new_ok_iff)
  ultimately show ?thesis
    unfolding 1(7) by (intro exI conjI, simp add: put_tenant_lookup [OF ok]) (simp add: tenant_from_def)
qed

lemma load_tenants_registers:
  assumes "\<And>n. fe_crypto (be_fetch be n) = C" "crypto_ok C"
  shows "runtime_inv W C rt \<Longrightarrow> load_tenants W be n cfgs rt = (Inr u, rt') \<Longrightarrow>
    (\<forall>tid t. runtime_tenant rt' tid = Some t \<longrightarrow>
       runtime_tenant rt tid = Some t \<or> (\<exists>cfg\<in>set cfgs. tenant_from cfg t)) \<and>
    (\<forall>tid. runtime_tenant rt tid \<noteq> None \<longrightarrow> runtime_tenant rt' tid \<noteq> None) \<and>
    (\<forall>cfg\<in>set cfgs. runtime_tenant rt' (TenantId (tc_name cfg)) \<noteq> None)"
proof (induction cfgs arbitrary: n rt)
  case (Cons cfg cfgs)
  obtain r rt1 where l: "load_tenant W (be_client be) (be_fetch be n) (be_read be) (be_now be n) cfg rt = (r, rt1)"
    by fastforce
  with Cons.prems(2) obtain u1 where r: "r = Inr u1" and rest: "load_tenants W be (Suc n) cfgs rt1 = (Inr u, rt')"
    by (auto split: sum.splits)
  have "runtime_inv W C rt1"
    using load_tenant_inv [of W "be_fetch be n" rt "be_client be" "be_read be" "be_now be n" cfg]
      Cons.prems(1) assms l by simp
  note IH = Cons.IH [OF this rest]
  obtain t where t: "runtime_tenant rt1 = (runtime_tenant rt)(TenantId (tc_name cfg) \<mapsto> t)" "tenant_from cfg t"
    using load_tenant_registers [OF Cons.prems(1) l [unfolded r]] by blast
  show ?case using IH t by (auto split: if_splits)
qed simp

lemma runtime_build_tenants:
  assumes "runtime_build W be tel c = Inr rt" "crypto_ok C" "store_inv C (be_existing be)"
    and "\<And>n. fe_crypto (be_fetch be n) = C"
  shows "(\<forall>tid t. runtime_tenant rt tid = Some t \<longrightarrow> (\<exists>cfg\<in>set (cfg_tenants c). tenant_from cfg t))"
    and "\<forall>cfg\<in>set (cfg_tenants c). runtime_tenant rt (TenantId (tc_name cfg)) \<noteq> None"
proof -
  from assms(1) obtain br reg rt0 where
      load: "load_tenants W be 0 (cfg_tenants c) (initial_runtime br reg (be_existing be) tel c) = (Inr (), rt0)"
    and rt: "rt = start_background c rt0"
    by (rule runtime_build_ok)
  note tenants = load_tenants_registers [OF assms(4,2) initial_runtime_inv [OF assms(3)] load]
  have "runtime_tenant rt = runtime_tenant rt0" by (simp add: rt start_background_def Let_def)
  with tenants show "(\<forall>tid t. runtime_tenant rt tid = Some t \<longrightarrow> (\<exists>cfg\<in>set (cfg_tenants c). tenant_from cfg t))"
    and "\<forall>cfg\<in>set (cfg_tenants c). runtime_tenant rt (TenantId (tc_name cfg)) \<noteq> None"
    by auto
qed

section \<open>From the runtime to serving\<close>

definition initial_system :: "('c, 'g) runtime \<Rightarrow> instant \<Rightarrow> ('c, 'g) system" where
  "initial_system rt now =
     \<lparr>sy_rt = rt, sy_now = now, sy_epoch = 0, sy_tickets = [], sy_flights = [], sy_pass = None, sy_pull = None, sy_crashed = False\<rparr>"

lemma ember_main_serveD:
  assumes "ember_main W be me args = MainServe c rt"
  obtains tel where "config_load (me_read me) (me_toml me) (me_env me) (cli_config args) = Inr c"
    "runtime_build W be tel c = Inr rt"
  using assms by (auto simp: ember_main_def split: sum.splits prod.splits if_splits)

lemma initial_serving:
  assumes "runtime_build W be tel c = Inr rt" "crypto_ok C" "store_inv C (be_existing be)"
    and "\<And>n. fe_crypto (be_fetch be n) = C" "\<forall>E\<in>Es. fe_crypto E = C"
    and "\<forall>cfg\<in>set (cfg_tenants c). unat (lim_memfs_quota_bytes (tc_limits cfg)) < 2 ^ 62"
  shows "serving_init W C Es (initial_system rt now)"
proof -
  have "quotas_small rt"
    unfolding quotas_small_def
  proof (intro allI impI)
    fix tid t assume "runtime_tenant rt tid = Some t"
    then obtain cfg where "cfg \<in> set (cfg_tenants c)" "tenant_from cfg t"
      using runtime_build_tenants(1) [OF assms(1-4)] by blast
    with assms(6) show "unat (lim_memfs_quota_bytes (sb_limits (tn_sandbox t))) < 2 ^ 62"
      by (simp add: tenant_from_def)
  qed
  with assms(2,5) runtime_build_inv [OF assms(1-4)] runtime_build_wire [OF assms(1)] show ?thesis
    by (simp add: serving_init_def sys_init_def initial_system_def)
qed

end
