(* ===== verification/Ember_Examples.thy ===== *)
theory Ember_Examples
  imports Ember_Main
begin

text \<open>
  The example programs of \<open>src/examples/\<close>: \<open>minimal.rs\<close> loads a configuration and serves it,
  \<open>tenants.rs\<close> walks through the limits of two sandboxes, and \<open>pull_and_reload.rs\<close> polls a registry
  three times. Lines the programs print are part of their result, as text or as the values printed.

  The lemmas show that the walk-through prints what its comments promise, that the reload example
  swaps exactly when the resolved digest changes, and that it never parks.
\<close>

section \<open>minimal.rs\<close>

definition arg_or :: "string list \<Rightarrow> string \<Rightarrow> string" where
  "arg_or args dflt = (case args of _ # a # _ \<Rightarrow> a | _ \<Rightarrow> dflt)"

text \<open>The result: the tenants and the address of the line printed, and the runtime that then serves.\<close>

definition minimal_main ::
  "('c, 'g) wasm_lib \<Rightarrow> 'r build_env \<Rightarrow> (string \<Rightarrow> string + string) \<Rightarrow> (string \<Rightarrow> string + config) \<Rightarrow>
   environment \<Rightarrow> string list \<Rightarrow> (nat \<times> socket_addr \<times> ('c, 'g) runtime) result"
where
  "minimal_main W be read_to_string from_toml env args =
     (let path = arg_or args ''config/ember.example.toml'' in
      case config_load read_to_string from_toml env (Some path) of
        Inl e \<Rightarrow> Inl e
      | Inr c \<Rightarrow>
          (case runtime_build W be telemetry_empty c of
             Inl e \<Rightarrow> Inl e
           | Inr rt \<Rightarrow> Inr (tenant_count rt, rt_bind rt, rt)))"

definition minimal_result ::
  "'l listener_os \<Rightarrow> ('c, 'g) wasm_lib \<Rightarrow> http_lib \<Rightarrow> net_client \<Rightarrow> wasi_os \<Rightarrow> nat \<Rightarrow> instant \<Rightarrow> instant \<Rightarrow>
   (nat \<times> socket_addr \<times> ('c, 'g) runtime) result \<Rightarrow> unit result outcome"
where
  "minimal_result ls W H net os epoch now finished out =
     (case out of
        Inl e \<Rightarrow> Done (Inl e)
      | Inr (_, addr, rt) \<Rightarrow> runtime_serve ls W H net os epoch now finished rt addr)"

section \<open>tenants.rs\<close>

definition byte_string :: "string \<Rightarrow> bytes" where
  "byte_string s = map (\<lambda>c. of_nat (byte c)) s"

definition show_bool :: "bool \<Rightarrow> string" where
  "show_bool b = (if b then ''true'' else ''false'')"

text \<open>The arrow of the printed lines, U+2192 in UTF-8.\<close>

definition arrow :: string where
  "arrow = [CHR '' '', char_of (226 :: nat), char_of (134 :: nat), char_of (146 :: nat), CHR '' '']"

definition limits_a :: sandbox_limits where
  "limits_a = sandbox_limits_default
     \<lparr>lim_max_memory_bytes := 64 * 1024 * 1024, lim_memfs_quota_bytes := 1024,
      lim_egress_allow := [''*.example.com'']\<rparr>"

definition limits_b :: sandbox_limits where
  "limits_b = sandbox_limits_default\<lparr>lim_max_memory_bytes := 32 * 1024 * 1024\<rparr>"

text \<open>The part after both sandboxes are made; \<open>heap\<close> holds their scratch filesystems.\<close>

definition tenants_tour :: "sandbox \<Rightarrow> sandbox \<Rightarrow> memfs_heap \<Rightarrow> string list result" where
  "tenants_tour alpha beta heap =
     (case memfs_write (heap ! sb_scratch alpha) ''secret'' (byte_string ''alpha-only'') of
        (Inl e, _) \<Rightarrow> Inl e
      | (Inr _, fs) \<Rightarrow>
          (let heap = heap[sb_scratch alpha := fs];
               line1 = ''alpha scratch uses '' @ show_word (scratch_bytes alpha heap) @ '' of ''
                 @ show_word (lim_memfs_quota_bytes (sb_limits alpha)) @ '' bytes'';
               line2 = ''beta cannot read alpha's scratch: ''
                 @ show_bool (\<not> memfs_exists (heap ! sb_scratch beta) ''secret'');
               line3 = (case memfs_write (heap ! sb_scratch alpha) ''secret'' (replicate 2048 0) of
                    (Inr _, _) \<Rightarrow> ''unexpected: quota allowed the write''
                  | (Inl e, _) \<Rightarrow> ''quota enforced: '' @ error_to_string e);
               line4 = ''alpha egress api.example.com'' @ arrow
                 @ show_bool (allows (sandbox_egress_policy alpha) ''api.example.com'');
               line5 = ''beta egress api.example.com'' @ arrow
                 @ show_bool (allows (sandbox_egress_policy beta) ''api.example.com'');
               line6 = ''alpha instance budget: '' @ show_word (lim_max_memory_bytes (sb_limits alpha))
                 @ '' bytes'' in
           Inr [line1, line2, line3, line4, line5, line6]))"

definition tenants_main :: "string list result" where
  "tenants_main =
     (case tenant_new ''alpha'' of
        Inl e \<Rightarrow> Inl e
      | Inr a \<Rightarrow>
          (case sandbox_new a limits_a [] [] of
             (Inl e, _) \<Rightarrow> Inl e
           | (Inr alpha, heap) \<Rightarrow>
               (case tenant_new ''beta'' of
                  Inl e \<Rightarrow> Inl e
                | Inr b \<Rightarrow>
                    (case sandbox_new b limits_b [] heap of
                       (Inl e, _) \<Rightarrow> Inl e
                     | (Inr beta, heap) \<Rightarrow> tenants_tour alpha beta heap))))"

section \<open>pull\_and\_reload.rs\<close>

datatype reload_event =
    Resolved usize string u64
  | Swapping string
  | NoChange
  | PullFailed usize error
  | Parked

text \<open>The rounds of the loop that are left; \<open>E\<close> has the answers of the registry in each round.\<close>

fun reload_rounds ::
  "(usize \<Rightarrow> 'r fetch_env) \<Rightarrow> registry \<Rightarrow> string \<Rightarrow> usize list \<Rightarrow> string option \<Rightarrow> dir \<Rightarrow>
   reload_event list \<times> string option"
where
  "reload_rounds E reg reference [] active dir = ([], active)"
| "reload_rounds E reg reference (round # rest) active dir =
     (case registry_pull (E round) reg reference None dir of
        (Inr l, dir') \<Rightarrow>
          (if should_reload (reg_policy reg) active (ld_digest l) then
             (let (evs, final) = reload_rounds E reg reference rest (Some (ld_digest l)) dir' in
              (Resolved round (ld_digest l) (ld_size l) # Swapping (ld_digest l) # evs, final))
           else
             (let (evs, final) = reload_rounds E reg reference rest active dir' in
              (Resolved round (ld_digest l) (ld_size l) # NoChange # evs, final)))
      | (Inl e, dir') \<Rightarrow>
          (if exhausted (reg_policy reg) round then ([PullFailed round e, Parked], active)
           else
             (let (evs, final) = reload_rounds E reg reference rest active dir' in
              (PullFailed round e # evs, final))))"

definition pull_and_reload_main ::
  "(usize \<Rightarrow> 'r fetch_env) \<Rightarrow> string option \<Rightarrow> string option \<Rightarrow> io_error option \<Rightarrow> dir \<Rightarrow> string list \<Rightarrow>
   (reload_event list \<times> string option) result"
where
  "pull_and_reload_main E user password mkdir existing args =
     (let reference = arg_or args ''ghcr.io/opanai404/ember/echo:latest'' in
      case registry_new oci_client_config_default hot_reload_policy_default user password mkdir existing of
        Inl e \<Rightarrow> Inl e
      | Inr (reg, dir) \<Rightarrow> Inr (reload_rounds E reg reference [0, 1, 2] None dir))"

section \<open>Lemmas\<close>

fun resolved :: "reload_event list \<Rightarrow> string list" where
  "resolved [] = []"
| "resolved (Resolved n d sz # evs) = d # resolved evs"
| "resolved (_ # evs) = resolved evs"

fun swapped :: "reload_event list \<Rightarrow> string list" where
  "swapped [] = []"
| "swapped (Swapping d # evs) = d # swapped evs"
| "swapped (_ # evs) = swapped evs"

lemma reload_rounds_swaps:
  assumes "reload_rounds E reg reference rounds active dir = (evs, final)"
  shows "(case active of None \<Rightarrow> swapped evs = remdups_adj (resolved evs)
       | Some d \<Rightarrow> d # swapped evs = remdups_adj (d # resolved evs)) \<and>
     final = (if resolved evs = [] then active else Some (last (resolved evs)))"
  using assms
proof (induction rounds arbitrary: active dir evs final)
  case (Cons round rest)
  obtain r dir' where pull: "registry_pull (E round) reg reference None dir = (r, dir')" by fastforce
  show ?case
  proof (cases r)
    case (Inl e)
    show ?thesis
    proof (cases "exhausted (reg_policy reg) round")
      case True
      with Cons.prems pull Inl show ?thesis by (auto split: option.splits)
    next
      case False
      obtain evs' final' where rec: "reload_rounds E reg reference rest active dir' = (evs', final')" by fastforce
      with Cons.prems pull Inl False have "evs = PullFailed round e # evs'" "final = final'" by auto
      with Cons.IH [OF rec] show ?thesis by (auto split: option.splits)
    qed
  next
    case (Inr l)
    show ?thesis
    proof (cases "should_reload (reg_policy reg) active (ld_digest l)")
      case True
      obtain evs' final' where rec: "reload_rounds E reg reference rest (Some (ld_digest l)) dir' = (evs', final')"
        by fastforce
      with Cons.prems pull Inr True have
        ev: "evs = Resolved round (ld_digest l) (ld_size l) # Swapping (ld_digest l) # evs'" "final = final'"
        by auto
      have "ld_digest l # swapped evs' = remdups_adj (ld_digest l # resolved evs')"
        and "final' = (if resolved evs' = [] then Some (ld_digest l) else Some (last (resolved evs')))"
        using Cons.IH [OF rec] by auto
      with ev True show ?thesis by (auto simp: should_reload_def split: option.splits)
    next
      case False
      then have act: "active = Some (ld_digest l)" by (auto simp: should_reload_def split: option.splits)
      obtain evs' final' where rec: "reload_rounds E reg reference rest active dir' = (evs', final')" by fastforce
      with Cons.prems pull Inr False have
        "evs = Resolved round (ld_digest l) (ld_size l) # NoChange # evs'" "final = final'" by auto
      with Cons.IH [OF rec] act show ?thesis by auto
    qed
  qed
qed (auto split: option.splits)

lemma reload_rounds_never_park:
  assumes "\<forall>round\<in>set rounds. \<not> exhausted (reg_policy reg) round"
  shows "Parked \<notin> set (fst (reload_rounds E reg reference rounds active dir))"
  using assms
proof (induction rounds arbitrary: active dir)
  case (Cons round rest)
  then have "Parked \<notin> set (fst (reload_rounds E reg reference rest active dir))" for active dir by simp
  moreover have "\<not> exhausted (reg_policy reg) round" using Cons.prems by simp
  ultimately show ?case by (auto simp: case_prod_beta split: sum.split)
qed simp

lemma tenants_sandboxes:
  "limits_validate limits_a = Inr ()" "limits_validate limits_b = Inr ()"
  "tenant_new ''alpha'' = Inr (TenantId ''alpha'')" "tenant_new ''beta'' = Inr (TenantId ''beta'')"
proof -
  have "valid_tenant_name ''alpha''" "valid_tenant_name ''beta''" by code_simp+
  then show "tenant_new ''alpha'' = Inr (TenantId ''alpha'')" "tenant_new ''beta'' = Inr (TenantId ''beta'')"
    by (simp_all add: tenant_new_ok_iff)
qed (simp_all add: limits_validate_ok_iff limits_a_def limits_b_def sandbox_limits_default_def from_secs_def)

lemma tenants_egress:
  "allows (limits_egress_policy limits_a) ''api.example.com''"
  "\<not> allows (limits_egress_policy limits_b) ''api.example.com''"
proof -
  have "allows \<lparr>allow = [''*.example.com''], default_deny = True\<rparr> ''api.example.com''"
    "\<not> allows \<lparr>allow = [], default_deny = True\<rparr> ''api.example.com''" by code_simp+
  then show "allows (limits_egress_policy limits_a) ''api.example.com''"
    "\<not> allows (limits_egress_policy limits_b) ''api.example.com''"
    by (simp_all add: limits_egress_policy_def limits_a_def limits_b_def sandbox_limits_default_def)
qed

lemma digit_chars:
  "digit_char 0 = CHR ''0''" "digit_char (Suc 0) = CHR ''1''" "digit_char 1 = CHR ''1''" "digit_char 2 = CHR ''2''"
  "digit_char 3 = CHR ''3''" "digit_char 4 = CHR ''4''" "digit_char 5 = CHR ''5''"
  "digit_char 6 = CHR ''6''" "digit_char 7 = CHR ''7''" "digit_char 8 = CHR ''8''"
  "digit_char 9 = CHR ''9''"
  by code_simp+

text \<open>The scratch filesystem of \<open>alpha\<close> after the write that fits, and the refusal of the second.\<close>

lemma tenants_writes:
  assumes "fs = memfs_new 1024"
  shows "memfs_write fs ''secret'' (byte_string ''alpha-only'') =
      (Inr (), fs\<lparr>used := 10, files := [(path_components ''secret'', byte_string ''alpha-only'')]\<rparr>)"
    and "memfs_write (fs\<lparr>used := 10, files := [(path_components ''secret'', byte_string ''alpha-only'')]\<rparr>)
        ''secret'' (replicate 2048 0) =
      (Inl (LimitExceeded (''memfs quota of 1024 bytes exceeded writing `secret`'')),
       fs\<lparr>used := 10, files := [(path_components ''secret'', byte_string ''alpha-only'')]\<rparr>)"
proof -
  have path: "\<not> is_absolute ''secret''" by code_simp
  have len: "length (byte_string ''alpha-only'') = 10" by (simp add: byte_string_def)
  have quota: "show_word (1024 :: usize) = ''1024''" by code_simp
  show "memfs_write fs ''secret'' (byte_string ''alpha-only'') =
      (Inr (), fs\<lparr>used := 10, files := [(path_components ''secret'', byte_string ''alpha-only'')]\<rparr>)"
    using path by (simp add: memfs_write_def assms memfs_new_def len_i64_def len assoc_defs Let_def)
  show "memfs_write (fs\<lparr>used := 10, files := [(path_components ''secret'', byte_string ''alpha-only'')]\<rparr>)
        ''secret'' (replicate 2048 0) =
      (Inl (LimitExceeded (''memfs quota of 1024 bytes exceeded writing `secret`'')),
       fs\<lparr>used := 10, files := [(path_components ''secret'', byte_string ''alpha-only'')]\<rparr>)"
    using path by (simp add: memfs_write_def assms memfs_new_def len_i64_def len assoc_defs Let_def quota)
qed

section \<open>Properties\<close>

text \<open>The isolation walk-through shows isolation. The example \<open>tenants\<close> succeeds and prints that
  \<open>alpha\<close> uses 10 of its 1024 bytes, that \<open>beta\<close> does not see \<open>alpha\<close>'s file, that the oversized write is
  refused with the quota error, that \<open>alpha\<close> may reach its allowed host and \<open>beta\<close> may not, and
  \<open>alpha\<close>'s memory ceiling.\<close>

theorem tenants_example_isolates:
  "tenants_main = Inr
     [''alpha scratch uses 10 of 1024 bytes'',
      ''beta cannot read alpha's scratch: true'',
      ''quota enforced: sandbox limit exceeded: memfs quota of 1024 bytes exceeded writing `secret`'',
      ''alpha egress api.example.com'' @ arrow @ ''true'',
      ''beta egress api.example.com'' @ arrow @ ''false'',
      ''alpha instance budget: 67108864 bytes'']"
proof -
  have texts: "show_word (10 :: u64) = ''10''" "show_word (1024 :: usize) = ''1024''"
    "show_word (67108864 :: usize) = ''67108864''"
    by (simp_all add: show_word_def show_nat.simps digit_chars)
  have quota: "lim_memfs_quota_bytes limits_a = 1024" "lim_max_memory_bytes limits_a = 67108864"
    by (simp_all add: limits_a_def)
  have heap: "tenants_main = tenants_tour
      \<lparr>sb_tenant = TenantId ''alpha'', sb_limits = limits_a, sb_config = [], sb_readonly_preopens = [], sb_scratch = 0\<rparr>
      \<lparr>sb_tenant = TenantId ''beta'', sb_limits = limits_b, sb_config = [], sb_readonly_preopens = [], sb_scratch = 1\<rparr>
      [memfs_new 1024, memfs_new (lim_memfs_quota_bytes limits_b)]"
    by (simp add: tenants_main_def tenants_sandboxes sandbox_new_def quota)
  show ?thesis
    unfolding heap
    by (simp add: tenants_tour_def tenants_writes [OF refl] tenants_egress texts quota scratch_bytes_def
        memfs_exists_def memfs_new_def [of "lim_memfs_quota_bytes limits_b"] sandbox_egress_policy_def
        show_bool_def)
qed

text \<open>The reload example swaps when the digest moves, and never parks. Whatever the registry answers in
  the three rounds, the digests the program swaps to are the resolved ones with repetitions removed,
  and it ends on the last one resolved. It never reports a parked tenant: it asks the policy about the
  number of the round, which stays below the failure budget even if every pull fails.\<close>

theorem reload_example_swaps_on_change:
  assumes "pull_and_reload_main E user password mkdir existing args = Inr (events, final)"
  shows "swapped events = remdups_adj (resolved events) \<and>
    final = (if resolved events = [] then None else Some (last (resolved events))) \<and>
    Parked \<notin> set events"
proof -
  from assms obtain reg dir where reg: "reg_policy reg = hot_reload_policy_default"
    and run: "reload_rounds E reg (arg_or args ''ghcr.io/opanai404/ember/echo:latest'') [0, 1, 2] None dir =
      (events, final)"
    by (auto simp: pull_and_reload_main_def registry_new_def Let_def simp del: reload_rounds.simps
        split: sum.splits prod.splits) (metis registry.select_convs(2))
  have "\<forall>round\<in>set [0, 1, 2]. \<not> exhausted (reg_policy reg) round"
    by (simp add: reg exhausted_def hot_reload_policy_default_def word_le_nat_alt)
  from reload_rounds_never_park [OF this, of E _ None dir] run have "Parked \<notin> set events"
    by (metis fst_conv)
  with reload_rounds_swaps [OF run] show ?thesis by simp
qed

theorem reload_example_swaps_on_change_witness:
  "\<exists>events final. pull_and_reload_main (\<lambda>_. serve_env (store_digest pad_crypto [2]) [2]) None None None []
       [''reload'', ''acme/echo:latest''] = Inr (events, final) \<and>
     swapped events = remdups_adj (resolved events) \<and> Parked \<notin> set events"
proof -
  have "\<exists>r. pull_and_reload_main (\<lambda>_. serve_env (store_digest pad_crypto [2]) [2])
      None None None [] [''reload'', ''acme/echo:latest''] = Inr r"
    by (simp add: pull_and_reload_main_def registry_new_def oci_client_new_def store_open_def Let_def
        del: reload_rounds.simps)
  then obtain events final where run: "pull_and_reload_main (\<lambda>_. serve_env (store_digest pad_crypto [2]) [2])
      None None None [] [''reload'', ''acme/echo:latest''] = Inr (events, final)" by fast
  from reload_example_swaps_on_change [OF run] run show ?thesis by blast
qed

text \<open>Without an argument \<open>minimal\<close> serves the shipped example configuration.\<close>

lemma minimal_serves_example:
  "minimal_main W be (\<lambda>_. Inr raw) (toml_from_str sq (\<lambda>_. Inr example_toml) fault) (\<lambda>_. None) [prog] =
     (case runtime_build W be telemetry_empty example_config of
        Inl e \<Rightarrow> Inl e
      | Inr rt \<Rightarrow> Inr (tenant_count rt, rt_bind rt, rt))"
  using config_ok_validate [OF example_ok] example_decodes [of sq]
  by (simp add: minimal_main_def arg_or_def config_load_def toml_from_str_def apply_env_def)

end
