(* ===== verification/Repository_Tests.thy ===== *)
theory Repository_Tests
  imports Ember_Examples
begin

text \<open>
  The repository's own tests, run on the model: each test of the \<open>#[cfg(test)]\<close> modules under \<open>src/src/\<close>
  is a definition of the same name whose conjuncts are the test's assertions, in order, and the
  theorems show that they hold; most of the integration tests under \<open>src/tests/\<close> follow. They tie the definitions of this development to the results the authors of
  the code expect of it.

  Tests of behaviour that lives in a third-party crate take what that crate does as an argument.
  Left out are the tests of the real validator, the tower layers and the binary, the test of the command-line parser (\<open>main.rs\<close>) and the one of the metrics text
  (\<open>telemetry.rs\<close>), which are about clap and the Prometheus exporter alone.
\<close>

definition is_err :: "'a + 'b \<Rightarrow> bool" where
  "is_err r \<longleftrightarrow> \<not> is_ok r"

lemma is_err_simps [simp]: "is_err (Inl e)" "\<not> is_err (Inr x)"
  by (simp_all add: is_err_def)

section \<open>config.rs\<close>

definition parses_plain_and_suffixed_sizes :: bool where
  "parses_plain_and_suffixed_sizes \<longleftrightarrow>
     parse_memory ''0'' = Inr 0 \<and> parse_memory ''512'' = Inr 512 \<and>
     parse_memory ''64k'' = Inr (64 * 1024) \<and> parse_memory ''64K'' = Inr (64 * 1024) \<and>
     parse_memory ''128m'' = Inr (128 * 1024 * 1024) \<and>
     parse_memory ''2g'' = Inr (2 * 1024 * 1024 * 1024)"

definition rejects_garbage_sizes :: bool where
  "rejects_garbage_sizes \<longleftrightarrow> is_err (parse_memory '''') \<and> is_err (parse_memory ''abc'') \<and>
     is_err (parse_memory ''12z'') \<and> is_err (parse_memory ''-5'')"

definition detects_overflow :: bool where
  "detects_overflow \<longleftrightarrow> is_err (parse_memory ''999999999999999999999999g'')"

text \<open>The document as the TOML parser reads it.\<close>

definition unknown_key_toml :: toml where
  "unknown_key_toml = TTable
     [(''bind'', TString ''127.0.0.1:8080''),
      (''tenants'', TArray [TTable
         [(''name'', TString ''ok''), (''unexpected'', TBoolean True),
          (''component'', TTable
             [(''kind'', TString ''oci''), (''reference'', TString ''ghcr.io/acme/echo:latest'')])]])]"

definition rejects_unknown_tenant_config_keys :: "positional \<Rightarrow> bool" where
  "rejects_unknown_tenant_config_keys sq \<longleftrightarrow> decode_config sq unknown_key_toml = None"

section \<open>sandbox.rs\<close>

definition limits_clamp_to_engine_budget :: bool where
  "limits_clamp_to_engine_budget \<longleftrightarrow>
     (let limits = clamp_to (256 * 1024 * 1024) 16 (sandbox_limits_default
            \<lparr>lim_max_memory_bytes := 512 * 1024 * 1024, lim_max_instances := 64\<rparr>) in
      lim_max_memory_bytes limits = 256 * 1024 * 1024 \<and> lim_max_instances limits = 16)"

definition zero_limits_rejected :: bool where
  "zero_limits_rejected \<longleftrightarrow>
     is_err (limits_validate (sandbox_limits_default\<lparr>lim_max_memory_bytes := 0\<rparr>)) \<and>
     is_err (limits_validate (sandbox_limits_default\<lparr>lim_max_wall_duration := 0\<rparr>))"

definition memfs_accounts_writes_against_quota :: bool where
  "memfs_accounts_writes_against_quota \<longleftrightarrow>
     (let (r1, fs1) = memfs_write (memfs_new 1024) ''a.txt'' (replicate 512 97);
          (r2, fs2) = memfs_write fs1 ''a.txt'' (replicate 1025 97);
          (r3, fs3) = memfs_write fs2 ''a.txt'' (replicate 128 97) in
      is_ok r1 \<and> used fs1 = 512 \<and> is_err r2 \<and> is_ok r3 \<and> used fs3 = 128)"

definition memfs_rejects_absolute_paths :: bool where
  "memfs_rejects_absolute_paths \<longleftrightarrow>
     is_err (fst (memfs_write (memfs_new 1024) ''/etc/passwd'' [1, 2, 3]))"

definition memfs_remove_returns_and_frees :: bool where
  "memfs_remove_returns_and_frees \<longleftrightarrow>
     (let (r1, fs1) = memfs_write (memfs_new 1024) ''k'' (replicate 64 7);
          (removed, fs2) = memfs_remove fs1 ''k'' in
      is_ok r1 \<and> removed = Some (replicate 64 7) \<and> used fs2 = 0 \<and> fst (memfs_remove fs2 ''k'') = None)"

section \<open>store.rs\<close>

definition digest_is_stable_and_unique :: "crypto \<Rightarrow> bool" where
  "digest_is_stable_and_unique C \<longleftrightarrow>
     (let a = store_digest C (byte_string ''hello''); b = store_digest C (byte_string ''hello'') in
      a = b \<and> a \<noteq> store_digest C (byte_string ''hellp'') \<and> starts_with a ''sha256:'' \<and>
      length a = 7 + 64)"

definition pin_resolve_compare_unpin :: bool where
  "pin_resolve_compare_unpin \<longleftrightarrow>
     (let p0 = pin_set_default; p1 = pin_key ''echo'' ''sha256:aaaa'' p0;
          (r1, p2) = unpin ''echo'' ''sha256:bbbb'' p1; (r2, p3) = unpin ''echo'' ''sha256:aaaa'' p2 in
      pin_resolve p0 ''echo'' = None \<and> pin_resolve p1 ''echo'' = Some ''sha256:aaaa'' \<and>
      \<not> r1 \<and> r2 \<and> pin_resolve p3 ''echo'' = None)"

definition reload_policy_debounces_identical_digest :: bool where
  "reload_policy_debounces_identical_digest \<longleftrightarrow>
     (let policy = hot_reload_policy_default in
      should_reload policy None ''sha256:new'' \<and>
      \<not> should_reload policy (Some ''sha256:same'') ''sha256:same'' \<and>
      should_reload policy (Some ''sha256:old'') ''sha256:new'')"

definition reload_policy_parks_after_failure_budget :: bool where
  "reload_policy_parks_after_failure_budget \<longleftrightarrow>
     (let policy = hot_reload_policy_default in
      \<not> exhausted policy 0 \<and> \<not> exhausted policy (max_failed_polls policy - 1) \<and>
      exhausted policy (max_failed_polls policy))"

text \<open>The store tests open a fresh directory and no file operation fails.\<close>

definition zero_digest :: string where
  "zero_digest = ''sha256:'' @ replicate 64 (CHR ''0'')"

definition store_roundtrips_and_dedupes :: "crypto \<Rightarrow> nat \<Rightarrow> bool" where
  "store_roundtrips_and_dedupes C pid \<longleftrightarrow>
     (let payload = byte_string ''payload-a'';
          (r1, dir1) = store_put C io_success pid payload [];
          (r2, dir2) = store_put C io_success pid payload dir1 in
      case r1 of
        Inl e \<Rightarrow> False
      | Inr d1 \<Rightarrow>
          r2 = Inr d1 \<and> store_get (\<lambda>_. True) dir2 d1 = Inr payload \<and> store_contains dir2 d1 \<and>
          \<not> store_contains dir2 zero_digest \<and> disk_usage None (\<lambda>_. None) dir2 = Inr 9)"

definition store_rejects_malformed_digests :: bool where
  "store_rejects_malformed_digests \<longleftrightarrow>
     is_err (store_get (\<lambda>_. True) [] ''md5:abc'') \<and> is_err (store_get (\<lambda>_. True) [] ''sha256:short'') \<and>
     is_err (store_get (\<lambda>_. True) [] (concat (replicate 32 ''sha256:zz'')))"

section \<open>oci.rs\<close>

definition verify_digest_accepts_matching_bytes :: "crypto \<Rightarrow> bool" where
  "verify_digest_accepts_matching_bytes C \<longleftrightarrow>
     (let bytes = byte_string ''component-bytes'' in
      is_ok (verify_digest C bytes (oci_digest_of C bytes)))"

definition verify_digest_rejects_mismatch :: "crypto \<Rightarrow> bool" where
  "verify_digest_rejects_mismatch C \<longleftrightarrow>
     (let ok = oci_digest_of C (byte_string ''right''); r = verify_digest C (byte_string ''wrong'') ok in
      is_err r \<and> (case r of Inl (DigestMismatch _ _) \<Rightarrow> True | _ \<Rightarrow> False))"

definition parse_digest_accepts_sha256 :: bool where
  "parse_digest_accepts_sha256 \<longleftrightarrow>
     is_ok (parse_digest ''sha256:0123456789abcdef0123456789abcdef0123456789abcdef0123456789abcdef'')"

definition parse_digest_rejects_bad_schemes_and_lengths :: bool where
  "parse_digest_rejects_bad_schemes_and_lengths \<longleftrightarrow>
     is_err (parse_digest ''md5:0123'') \<and> is_err (parse_digest ''sha256:0123'') \<and>
     is_err (parse_digest (''sha256:'' @ replicate 64 (CHR ''z'')))"

text \<open>\<open>registry_of\<close> is the accessor \<open>Reference::registry\<close>.\<close>

definition resolve_qualifies_bare_references :: "'r oci_remote \<Rightarrow> ('r \<Rightarrow> string) \<Rightarrow> bool" where
  "resolve_qualifies_bare_references R registry_of \<longleftrightarrow>
     (case oci_client_new oci_client_config_default None None None [] of
        Inl e \<Rightarrow> False
      | Inr (client, _) \<Rightarrow>
          (case (oci_resolve R client ''echo'', oci_resolve R client ''quay.io/acme/echo:latest'') of
             (Inr bare, Inr full) \<Rightarrow> registry_of bare = ''ghcr.io'' \<and> registry_of full = ''quay.io''
           | _ \<Rightarrow> False))"

section \<open>bridge.rs\<close>

definition policy :: "string list \<Rightarrow> egress_policy" where
  "policy rules = \<lparr>allow = rules, default_deny = True\<rparr>"

definition exact_host_matches_any_scheme :: bool where
  "exact_host_matches_any_scheme \<longleftrightarrow>
     allows (policy [''api.example.com'']) ''https://api.example.com:443'' \<and>
     allows (policy [''api.example.com'']) ''http://api.example.com''"

definition wildcard_matches_subdomains_and_bare :: bool where
  "wildcard_matches_subdomains_and_bare \<longleftrightarrow>
     (let p = policy [''*.example.com''] in
      allows p ''example.com'' \<and> allows p ''api.example.com'' \<and> allows p ''a.b.example.com'' \<and>
      \<not> allows p ''example.net'')"

definition scheme_restricted_rule :: bool where
  "scheme_restricted_rule \<longleftrightarrow>
     (let p = policy [''https://api.example.com''] in
      allows p ''https://api.example.com'' \<and> \<not> allows p ''http://api.example.com'')"

definition deny_by_default :: bool where
  "deny_by_default \<longleftrightarrow> \<not> allows (policy []) ''https://evil.example.com''"

definition port_mismatch_denied :: bool where
  "port_mismatch_denied \<longleftrightarrow>
     (let p = policy [''localhost:8080''] in
      allows p ''localhost:8080'' \<and> \<not> allows p ''localhost:8081'')"

definition explicit_allow_beats_default_deny :: bool where
  "explicit_allow_beats_default_deny \<longleftrightarrow>
     allows ((policy [''upstream.internal''])\<lparr>default_deny := True\<rparr>) ''upstream.internal''"

section \<open>engine.rs, invoke.rs, telemetry.rs\<close>

definition pages_per_instance_at_least_one :: bool where
  "pages_per_instance_at_least_one \<longleftrightarrow>
     (let cap = \<lparr>cap_max_memory_bytes = 0, cap_max_instances = 1, cap_threads = 1\<rparr> in
      max (cap_max_memory_bytes cap div (64 * 1024)) 1 = 1)"

definition engine_limits_forward_sandbox_budget :: bool where
  "engine_limits_forward_sandbox_budget \<longleftrightarrow>
     engine_limits (sandbox_limits_default\<lparr>lim_max_memory_bytes := 64 * 1024 * 1024, lim_max_instances := 4\<rparr>) =
       (64 * 1024 * 1024, 4)"

definition pool_capacity_is_bounded_by_engine :: bool where
  "pool_capacity_is_bounded_by_engine \<longleftrightarrow>
     pool_capacity sandbox_limits_default
       \<lparr>cap_max_memory_bytes = 1073741824, cap_max_instances = 4, cap_threads = 1\<rparr> = 4"

definition pool_never_creates_zero_capacity :: bool where
  "pool_never_creates_zero_capacity \<longleftrightarrow> pool_cap (pool_new 0 :: nat instance_pool) = 1"

definition invalid_filter_rejected ::
  "(string \<Rightarrow> string + 'f) \<Rightarrow> ('f \<Rightarrow> bool \<Rightarrow> string + unit) \<Rightarrow> string + unit \<Rightarrow> environment \<Rightarrow> bool" where
  "invalid_filter_rejected try_new try_init install env \<longleftrightarrow>
     is_err (fst (telemetry_init try_new try_init install env (Some ''not-an-encoded-filter=='') False
       telemetry_empty))"

section \<open>tests/sandbox\_isolation.rs\<close>

definition tenant_id_grammar_is_enforced :: bool where
  "tenant_id_grammar_is_enforced \<longleftrightarrow>
     is_ok (tenant_new ''echo-api-2'') \<and> is_ok (tenant_new ''a_b'') \<and> is_err (tenant_new '''') \<and>
     is_err (tenant_new ''has space'') \<and> is_err (tenant_new ''slash/name'') \<and>
     is_err (tenant_new (''caf'' @ [char_of (195 :: nat), char_of (169 :: nat)])) \<and>
     is_err (tenant_new (replicate 65 (CHR ''x'')))"

definition sandbox_rejects_zero_limits :: bool where
  "sandbox_rejects_zero_limits \<longleftrightarrow>
     is_err (fst (sandbox_new (TenantId ''x'') (sandbox_limits_default\<lparr>lim_max_memory_bytes := 0\<rparr>) [] []))"

definition charge_memory_enforces_ceiling :: bool where
  "charge_memory_enforces_ceiling \<longleftrightarrow>
     (case sandbox_new (TenantId ''mem'') sandbox_limits_default [] [] of
        (Inl e, _) \<Rightarrow> False
      | (Inr sb, _) \<Rightarrow> is_ok (charge_memory sb 1024) \<and> is_err (charge_memory sb (- 1)))"

definition memfs_quota_is_per_sandbox :: bool where
  "memfs_quota_is_per_sandbox \<longleftrightarrow>
     (case sandbox_new (TenantId ''a'') sandbox_limits_default [] [] of
        (Inl e, _) \<Rightarrow> False
      | (Inr a, heap) \<Rightarrow>
          (case sandbox_new (TenantId ''b'') sandbox_limits_default [] heap of
             (Inl e, _) \<Rightarrow> False
           | (Inr b, heap) \<Rightarrow>
               (let (r, fs) = memfs_write (heap ! sb_scratch a) ''blob'' (replicate 2048 120);
                    heap = heap[sb_scratch a := fs] in
                is_ok r \<and> scratch_bytes a heap = 2048 \<and> scratch_bytes b heap = 0 \<and>
                \<not> memfs_exists (heap ! sb_scratch b) ''blob'' \<and> memfs_exists (heap ! sb_scratch a) ''blob'')))"

definition sandbox_derives_egress_policy_from_limits :: bool where
  "sandbox_derives_egress_policy_from_limits \<longleftrightarrow>
     (case sandbox_new (TenantId ''eg'')
             (sandbox_limits_default\<lparr>lim_egress_allow := [''*.example.com''], lim_default_deny_egress := True\<rparr>)
             [] [] of
        (Inl e, _) \<Rightarrow> False
      | (Inr sb, _) \<Rightarrow>
          (let policy = sandbox_egress_policy sb in
           allows policy ''api.example.com'' \<and> \<not> allows policy ''evil.example.net''))"

definition egress_defaults_to_deny :: bool where
  "egress_defaults_to_deny \<longleftrightarrow> default_deny egress_policy_default \<and>
     \<not> allows egress_policy_default ''http://anywhere.example''"

definition memfs_scratch_read_write_roundtrip :: bool where
  "memfs_scratch_read_write_roundtrip \<longleftrightarrow>
     (let (r, fs) = memfs_write (memfs_new 4096) ''k.txt'' (byte_string ''v1'') in
      is_ok r \<and> memfs_read fs ''k.txt'' = Some (byte_string ''v1'') \<and> used fs = 2)"

section \<open>tests/registry\_hotreload.rs\<close>

definition content_store_atomic_put_never_leaves_tmp_files :: "crypto \<Rightarrow> nat \<Rightarrow> bool" where
  "content_store_atomic_put_never_leaves_tmp_files C pid \<longleftrightarrow>
     (let (r, dir) = store_put C io_success pid (byte_string ''atomic'') [] in
      is_ok r \<and> filter (\<lambda>(name, _). starts_with name ''.tmp'') dir = [])"

definition pins_are_resolved_and_compare_unpinned :: bool where
  "pins_are_resolved_and_compare_unpinned \<longleftrightarrow>
     (let p = pin_key ''static'' ''sha256:bbbb'' (pin_key ''echo'' ''sha256:aaaa'' pin_set_default);
          (r1, p1) = unpin ''echo'' ''sha256:cccc'' p; (r2, p2) = unpin ''echo'' ''sha256:aaaa'' p1 in
      pin_resolve p ''echo'' = Some ''sha256:aaaa'' \<and> pin_resolve p ''missing'' = None \<and>
      \<not> r1 \<and> r2 \<and> pin_resolve p2 ''echo'' = None)"

definition reload_policy_parks_after_failures :: bool where
  "reload_policy_parks_after_failures \<longleftrightarrow>
     (let policy = hot_reload_policy_default in
      max_failed_polls policy = 3 \<and> \<not> exhausted policy 2 \<and> exhausted policy 3 \<and> exhausted policy 99)"

section \<open>tests/loader\_validation.rs\<close>

definition contract_accepts_bare_handler_interface :: bool where
  "contract_accepts_bare_handler_interface \<longleftrightarrow> contract_violations [''handler''] = None"

definition contract_accepts_fully_qualified_handler :: bool where
  "contract_accepts_fully_qualified_handler \<longleftrightarrow> contract_violations [''ember:runtime/handler@0.1.0''] = None"

definition contract_accepts_world_id_export :: bool where
  "contract_accepts_world_id_export \<longleftrightarrow> contract_violations [''#ember-guest''] = None"

definition contract_rejects_unrelated_exports :: bool where
  "contract_rejects_unrelated_exports \<longleftrightarrow>
     (case contract_violations [''wasi:http/incoming-handler'', ''some-module''] of
        None \<Rightarrow> False
      | Some violation \<Rightarrow> str_contains violation ''only: wasi:http/incoming-handler, some-module'')"

section \<open>tests/integration\_http.rs\<close>

record mock_behavior =
  mk_responses :: "(string, u16 \<times> string) assoc"
  mk_errors :: "(string, error) assoc"
  mk_panic :: bool

definition mock_new :: mock_behavior where
  "mock_new = \<lparr>mk_responses = [], mk_errors = [], mk_panic = False\<rparr>"

definition with_response :: "string \<Rightarrow> u16 \<Rightarrow> string \<Rightarrow> mock_behavior \<Rightarrow> mock_behavior" where
  "with_response tenant st body m = m\<lparr>mk_responses := assoc_insert tenant (st, body) (mk_responses m)\<rparr>"

definition with_error :: "string \<Rightarrow> error \<Rightarrow> mock_behavior \<Rightarrow> mock_behavior" where
  "with_error tenant e m = m\<lparr>mk_errors := assoc_insert tenant e (mk_errors m)\<rparr>"

definition mock_dispatch ::
  "tenant_id \<Rightarrow> http_request \<Rightarrow> mock_behavior \<Rightarrow> http_response result outcome \<times> mock_behavior" where
  "mock_dispatch tenant request m =
     (if mk_panic m then (Panic ''mock handler panicked'', m)
      else case assoc_get (mk_errors m) (as_str tenant) of
        Some e \<Rightarrow>
          (Done (Inl (case e of LimitExceeded _ \<Rightarrow> LimitExceeded ''out of fuel''
             | other \<Rightarrow> ComponentNotFound (error_to_string other))), m)
      | None \<Rightarrow>
          (case assoc_get (mk_responses m) (as_str tenant) of
             Some (st, body) \<Rightarrow>
               (Done (Inr \<lparr>rs_status = st, rs_headers = [(''x-mock'', byte_string ''1'')],
                  rs_body = byte_string body\<rparr>), m)
           | None \<Rightarrow> (Done (Inl (TenantNotFound (as_str tenant))), m)))"

text \<open>What a client gets: the dispatcher's response, or the rendering of the error.\<close>

definition unknown_tenant_yields_404_json :: "http_lib \<Rightarrow> ingress_lib \<Rightarrow> http_request \<Rightarrow> bool" where
  "unknown_tenant_yields_404_json H L request \<longleftrightarrow>
     (case ingress_dispatch H L http_config_default mock_dispatch ''ghost'' request mock_new of
        (Done (Inl e), _) \<Rightarrow>
          jr_status (into_response H e) = 404 \<and>
          jr_body (into_response H e) =
            JObject [(''error'', JString ''tenant not found: ghost''), (''status'', JNumber 404)]
      | _ \<Rightarrow> False)"

definition known_tenant_dispatches_and_echoes :: "http_lib \<Rightarrow> ingress_lib \<Rightarrow> http_request \<Rightarrow> bool" where
  "known_tenant_dispatches_and_echoes H L request \<longleftrightarrow>
     (case ingress_dispatch H L http_config_default mock_dispatch ''echo'' request
             (with_response ''echo'' 200 ''pong'' mock_new) of
        (Done (Inr r), _) \<Rightarrow>
          rs_status r = 200 \<and> rs_headers r = [(''x-mock'', byte_string ''1'')] \<and> rs_body r = byte_string ''pong''
      | _ \<Rightarrow> False)"

definition sandbox_limit_error_maps_to_429 :: "http_lib \<Rightarrow> ingress_lib \<Rightarrow> http_request \<Rightarrow> bool" where
  "sandbox_limit_error_maps_to_429 H L request \<longleftrightarrow>
     (case ingress_dispatch H L http_config_default mock_dispatch ''throttled'' request
             (with_error ''throttled'' (LimitExceeded ''fuel'') mock_new) of
        (Done (Inl e), _) \<Rightarrow> jr_status (into_response H e) = 429
      | _ \<Rightarrow> False)"

section \<open>The tests hold\<close>

lemma unknown_unit_is_err:
  assumes "unit_multiplier (to_ascii_lowercase (dropWhile is_ascii_digit (trim sz))) = None"
  shows "is_err (parse_memory sz)"
  using assms by (simp add: parse_memory_def Let_def split: option.split)

lemma plain_sizes_pass: parses_plain_and_suffixed_sizes
proof -
  have sizes: "parse_memory (ds @ u) = Inr (of_nat n * m)"
    if "unit_multiplier (to_ascii_lowercase u) = Some m" "ds \<noteq> []" "list_all is_ascii_digit ds"
      "digits_value 0 ds = n" "n * unat m < 2 ^ 64" for ds u n m
    using that by (intro parse_memory_text)
  have ds: "list_all (list_all is_ascii_digit) [''0'', ''512'', ''64'', ''128'', ''2'']"
    "map (digits_value 0) [''0'', ''512'', ''64'', ''128'', ''2''] = [0, 512, 64, 128, 2]"
    by code_simp+
  have "parse_memory ''0'' = Inr 0" "parse_memory ''512'' = Inr 512"
    using sizes [OF concrete_units(1), of "''0''" 0] sizes [OF concrete_units(1), of "''512''" 512] ds
    by simp_all
  moreover have "parse_memory ''64k'' = Inr (64 * 1024)" "parse_memory ''64K'' = Inr (64 * 1024)"
    using sizes [OF concrete_units(2), of "''64''" 64] sizes [OF concrete_units(3), of "''64''" 64] ds
    by simp_all
  moreover have "parse_memory ''128m'' = Inr (128 * 1024 * 1024)"
    "parse_memory ''2g'' = Inr (2 * 1024 * 1024 * 1024)"
    using sizes [OF concrete_units(4), of "''128''" 128] sizes [OF concrete_units(5), of "''2''" 2] ds
    by simp_all
  ultimately show ?thesis by (simp add: parses_plain_and_suffixed_sizes_def)
qed

lemma garbage_sizes_pass: rejects_garbage_sizes
proof -
  have "trim '''' = ''''" by code_simp
  then have "is_err (parse_memory '''')" by (simp add: parse_memory_def)
  moreover have "list_all (\<lambda>sz. unit_multiplier (to_ascii_lowercase (dropWhile is_ascii_digit (trim sz))) = None)
      [''abc'', ''12z'', ''-5'']" by code_simp
  then have "is_err (parse_memory ''abc'')" "is_err (parse_memory ''12z'')" "is_err (parse_memory ''-5'')"
    by (auto intro: unknown_unit_is_err)
  ultimately show ?thesis by (simp add: rejects_garbage_sizes_def)
qed

lemma overflow_pass: detects_overflow
proof -
  let ?ds = "''999999999999999999999999''"
  have ds: "?ds \<noteq> []" "list_all is_ascii_digit ?ds" by code_simp+
  have "digits_value 0 ?ds = 999999999999999999999999" by (simp add: byte_def)
  then have "is_err (parse_memory (?ds @ ''g''))"
    using parse_memory_digits [OF trim_digits_unit [OF ds concrete_units(5)] ds concrete_units(5)] by simp
  then show ?thesis by (simp add: detects_overflow_def)
qed

lemma unknown_tenant_key_pass: "rejects_unknown_tenant_config_keys sq"
  by (simp add: rejects_unknown_tenant_config_keys_def unknown_key_toml_def decode_config_def strict_def
      known_keys_def config_keys_def config_body_def decode_tenant_def tenant_keys_def)

lemma limits_tests_pass: limits_clamp_to_engine_budget zero_limits_rejected
  by (simp_all add: limits_clamp_to_engine_budget_def clamp_to_def zero_limits_rejected_def
      limits_validate_def sandbox_limits_default_def min_def)

lemma memfs_tests_pass:
  memfs_accounts_writes_against_quota memfs_rejects_absolute_paths memfs_remove_returns_and_frees
proof -
  have "\<not> is_absolute ''a.txt''" "\<not> is_absolute ''k''" "is_absolute ''/etc/passwd''" by code_simp+
  then show memfs_accounts_writes_against_quota memfs_rejects_absolute_paths memfs_remove_returns_and_frees
    by (simp_all add: memfs_accounts_writes_against_quota_def memfs_rejects_absolute_paths_def
        memfs_remove_returns_and_frees_def memfs_write_def memfs_remove_def memfs_new_def len_i64_def
        assoc_defs Let_def)
qed

lemma policy_tests_pass:
  pin_resolve_compare_unpin reload_policy_debounces_identical_digest
  reload_policy_parks_after_failure_budget
  by (simp_all add: pin_resolve_compare_unpin_def pin_set_default_def pin_key_def pin_resolve_def unpin_def
      assoc_defs reload_policy_debounces_identical_digest_def should_reload_def
      reload_policy_parks_after_failure_budget_def exhausted_def hot_reload_policy_default_def word_le_nat_alt)

lemma egress_tests_pass:
  exact_host_matches_any_scheme wildcard_matches_subdomains_and_bare scheme_restricted_rule
  deny_by_default port_mismatch_denied explicit_allow_beats_default_deny
  by code_simp+

lemma engine_tests_pass:
  pages_per_instance_at_least_one engine_limits_forward_sandbox_budget
  pool_capacity_is_bounded_by_engine pool_never_creates_zero_capacity
  by (simp_all add: pages_per_instance_at_least_one_def engine_limits_forward_sandbox_budget_def
      engine_limits_def pool_capacity_is_bounded_by_engine_def pool_capacity_def sandbox_limits_default_def
      pool_never_creates_zero_capacity_def pool_new_def min_def max_def)

lemma digest_format_tests_pass:
  parse_digest_accepts_sha256 parse_digest_rejects_bad_schemes_and_lengths store_rejects_malformed_digests
  by code_simp+

lemma hash_tests_pass:
  assumes "crypto_ok C"
    and "store_digest C (byte_string ''hello'') \<noteq> store_digest C (byte_string ''hellp'')"
    and "store_digest C (byte_string ''wrong'') \<noteq> store_digest C (byte_string ''right'')"
  shows "digest_is_stable_and_unique C" "verify_digest_accepts_matching_bytes C"
    "verify_digest_rejects_mismatch C"
  using assms crypto_okD(1) [OF assms(1)]
  by (simp_all add: digest_is_stable_and_unique_def starts_with_def store_digest_name
      verify_digest_accepts_matching_bytes_def verify_digest_rejects_mismatch_def verify_digest_def
      oci_digest_of_eq Let_def)

lemma store_test_pass:
  assumes C: "crypto_ok C" and other: "store_digest C (byte_string ''payload-a'') \<noteq> zero_digest"
  shows "store_roundtrips_and_dedupes C pid"
proof -
  let ?b = "byte_string ''payload-a''"
  let ?n = "blob_name C ?b"
  have n: "?n \<noteq> tmp_name pid" "\<not> starts_with ?n ''.tmp''" using blob_name_not_tmp [OF C] by blast+
  have put1: "store_put C io_success pid ?b [] = (Inr (store_digest C ?b), [(?n, ?b)])"
    using n by (simp add: store_put_success [OF C] assoc_defs)
  have put2: "store_put C io_success pid ?b [(?n, ?b)] = (Inr (store_digest C ?b), [(?n, ?b)])"
    by (simp add: store_put_success [OF C] assoc_defs)
  have "blob_path zero_digest = Inr h \<Longrightarrow> h \<noteq> ?n" for h
    using other by (auto simp: blob_path_def sanitize_digest_ok_iff store_digest_name simp del: append.simps)
  then have zero: "\<not> store_contains [(?n, ?b)] zero_digest"
    by (auto simp: store_contains_def assoc_defs split: sum.split)
  have "store_get (\<lambda>_. True) [(?n, ?b)] (store_digest C ?b) = Inr ?b"
    and "store_contains [(?n, ?b)] (store_digest C ?b)"
    by (simp_all add: store_get_def store_contains_def blob_path_digest [OF C] assoc_defs)
  moreover have "disk_usage None (\<lambda>_. None) [(?n, ?b)] = Inr 9"
    using n by (simp add: disk_usage_def byte_string_def)
  ultimately show ?thesis using zero by (simp add: store_roundtrips_and_dedupes_def put1 put2)
qed

lemma reference_test_pass:
  assumes "ref_try_from R ''ghcr.io/echo'' = Inr bare" "registry_of bare = ''ghcr.io''"
    and "ref_try_from R ''quay.io/acme/echo:latest'' = Inr full" "registry_of full = ''quay.io''"
  shows "resolve_qualifies_bare_references R registry_of"
  using assms by (simp add: resolve_qualifies_bare_references_def oci_client_new_def store_open_def
      oci_resolve_def oci_client_config_default_def Let_def)

lemma contract_tests_pass:
  contract_accepts_bare_handler_interface contract_accepts_fully_qualified_handler
  contract_accepts_world_id_export contract_rejects_unrelated_exports
  by code_simp+

lemma registry_tests_pass: pins_are_resolved_and_compare_unpinned reload_policy_parks_after_failures
  by (simp_all add: pins_are_resolved_and_compare_unpinned_def pin_set_default_def pin_key_def
      pin_resolve_def unpin_def assoc_defs reload_policy_parks_after_failures_def exhausted_def
      hot_reload_policy_default_def word_le_nat_alt)

lemma tmp_files_test_pass:
  assumes "crypto_ok C"
  shows "content_store_atomic_put_never_leaves_tmp_files C pid"
  using blob_name_not_tmp [OF assms, of "byte_string ''atomic''"]
  by (simp add: content_store_atomic_put_never_leaves_tmp_files_def store_put_success [OF assms] assoc_defs)

lemma isolation_tests_pass:
  tenant_id_grammar_is_enforced sandbox_rejects_zero_limits charge_memory_enforces_ceiling
  memfs_quota_is_per_sandbox sandbox_derives_egress_policy_from_limits egress_defaults_to_deny
  memfs_scratch_read_write_roundtrip
proof -
  show tenant_id_grammar_is_enforced egress_defaults_to_deny by code_simp+
  show sandbox_rejects_zero_limits by (simp add: sandbox_rejects_zero_limits_def sandbox_new_def limits_validate_def)
  have "allows \<lparr>allow = [''*.example.com''], default_deny = True\<rparr> ''api.example.com''"
    "\<not> allows \<lparr>allow = [''*.example.com''], default_deny = True\<rparr> ''evil.example.net''" by code_simp+
  then show sandbox_derives_egress_policy_from_limits
    by (simp add: sandbox_derives_egress_policy_from_limits_def sandbox_new_def limits_validate_def
        sandbox_limits_default_def from_secs_def sandbox_egress_policy_def limits_egress_policy_def)
  have "\<not> is_absolute ''k.txt''" by code_simp
  then show memfs_scratch_read_write_roundtrip
    by (simp add: memfs_scratch_read_write_roundtrip_def memfs_write_def memfs_read_def memfs_new_def
        len_i64_def byte_string_def assoc_defs Let_def)
  have ok: "limits_validate sandbox_limits_default = Inr ()"
    by (simp add: limits_validate_ok_iff sandbox_limits_default_def from_secs_def)
  then show charge_memory_enforces_ceiling
    by (simp add: charge_memory_enforces_ceiling_def sandbox_new_def charge_memory_def
        sandbox_limits_default_def)
  have "\<not> is_absolute ''blob''" by code_simp
  with ok show memfs_quota_is_per_sandbox
    by (simp add: memfs_quota_is_per_sandbox_def sandbox_new_def memfs_write_def memfs_new_def len_i64_def
        assoc_defs scratch_bytes_def memfs_exists_def Let_def sandbox_limits_default_def)
qed

text \<open>The mock keeps the contract of the \<open>Dispatcher\<close> trait the ingress relies on.\<close>

definition mock_known :: "mock_behavior \<Rightarrow> tenant_id \<Rightarrow> bool" where
  "mock_known m tid \<longleftrightarrow> mk_panic m \<or> assoc_get (mk_errors m) (as_str tid) \<noteq> None \<or>
     assoc_get (mk_responses m) (as_str tid) \<noteq> None"

lemma mock_dispatch_state: "snd (mock_dispatch tid req m) = m"
  by (simp add: mock_dispatch_def split: option.split)

interpretation mock: dispatcher mock_dispatch mock_known "\<lambda>_. True"
proof (unfold_locales, goal_cases)
  case (1 m tid req)
  then show ?case by (simp add: mock_known_def mock_dispatch_def split: option.split)
qed (simp_all add: mock_dispatch_state)

lemma ingress_tests_pass:
  assumes "http_lib_ok H" "ingress_lib_ok L" "copy_request_headers H [] (rq_headers request) = Done hs"
    and "length (rq_body request) \<le> unat (hc_max_body_bytes http_config_default)"
  shows "unknown_tenant_yields_404_json H L request" "known_tenant_dispatches_and_echoes H L request"
    "sandbox_limit_error_maps_to_429 H L request"
proof -
  have "valid_tenant_name ''ghost''" "valid_tenant_name ''echo''" "valid_tenant_name ''throttled''"
    by code_simp+
  then have ids: "tenant_new ''ghost'' = Inr (TenantId ''ghost'')" "tenant_new ''echo'' = Inr (TenantId ''echo'')"
      "tenant_new ''throttled'' = Inr (TenantId ''throttled'')"
    by (simp_all add: tenant_new_ok_iff)
  have valid: "status_valid H 404" "status_valid H 429" using http_lib_okD(1) [OF assms(1)] by simp_all
  note run = ingress_dispatch_prepared [OF assms(1,2,4,3)]
  show "unknown_tenant_yields_404_json H L request" "known_tenant_dispatches_and_echoes H L request"
    "sandbox_limit_error_maps_to_429 H L request"
    by (simp_all add: unknown_tenant_yields_404_json_def known_tenant_dispatches_and_echoes_def
        sandbox_limit_error_maps_to_429_def run ids mock_dispatch_def mock_new_def with_response_def
        with_error_def assoc_defs into_response_def valid)
qed

section \<open>Properties\<close>



text \<open>The integration tests against the mock dispatcher, and those of sandboxes and contracts.\<close>

theorem integration_tests_hold:
  assumes "crypto_ok C" "http_lib_ok H" "ingress_lib_ok L" "copy_request_headers H [] (rq_headers request) = Done hs"
    and "length (rq_body request) \<le> unat (hc_max_body_bytes http_config_default)"
  shows "unknown_tenant_yields_404_json H L request \<and> known_tenant_dispatches_and_echoes H L request \<and>
    sandbox_limit_error_maps_to_429 H L request \<and>
    tenant_id_grammar_is_enforced \<and> sandbox_rejects_zero_limits \<and> charge_memory_enforces_ceiling \<and>
    memfs_quota_is_per_sandbox \<and> sandbox_derives_egress_policy_from_limits \<and> egress_defaults_to_deny \<and>
    memfs_scratch_read_write_roundtrip \<and>
    content_store_atomic_put_never_leaves_tmp_files C pid \<and> pins_are_resolved_and_compare_unpinned \<and>
    reload_policy_parks_after_failures \<and>
    contract_accepts_bare_handler_interface \<and> contract_accepts_fully_qualified_handler \<and>
    contract_accepts_world_id_export \<and> contract_rejects_unrelated_exports"
  using ingress_tests_pass [OF assms(2-5)] tmp_files_test_pass [OF assms(1)] isolation_tests_pass
    contract_tests_pass registry_tests_pass by blast

end
