(* ===== verification/Serving_Spec.thy ===== *)
theory Serving_Spec
  imports Ember_Config Content_Store "HOL-Library.Multiset"
begin

text \<open>
  What the serving process promises, as \<open>src/docs/design/hot-reload.md\<close> states it, without tenants'
  sandboxes, pools, guests, the registry protocol or the content store.

  A tenant is its release: the digest it serves, since when, and how its pulls went. A request is the
  tenant it is for and the digest it will be served by, fixed when it arrives. \<open>spec_step\<close> says how this
  may change: requests arrive at the current release and leave again, a release moves only to another
  genuine digest the source permits and no sooner than the debounce after the last move, a failed
  pull counts and changes nothing else, and a crash ends every request. The lemmas are what follows
  for whole runs.
\<close>

section \<open>The specification\<close>

record release =
  re_source :: component_source
  re_digest :: string
  re_since :: instant
  re_failures :: usize
  re_swaps :: nat
  re_parked :: nat

record spec =
  sp_releases :: "tenant_id \<Rightarrow> release option"
  sp_requests :: "(tenant_id \<times> string) multiset"
  sp_now :: instant
  sp_up :: bool

datatype spec_event =
    Arrive tenant_id string
  | Leave tenant_id string
  | Deploy tenant_id string
  | Confirm tenant_id
  | PullFails tenant_id
  | Clock instant
  | Abort
  | Silent

text \<open>The digests a source permits: a pin permits only itself, and a file source is loaded once.\<close>

fun permits :: "component_source \<Rightarrow> string \<Rightarrow> bool" where
  "permits (SourceFile path) d \<longleftrightarrow> False"
| "permits (SourceOci reference None) d \<longleftrightarrow> True"
| "permits (SourceOci reference (Some pin)) d \<longleftrightarrow> d = pin"

definition release_due :: "hot_reload_policy \<Rightarrow> instant \<Rightarrow> release \<Rightarrow> bool" where
  "release_due pol now r \<longleftrightarrow> debounce pol \<le> saturating_duration_since now (re_since r)"

definition deployed :: "instant \<Rightarrow> string \<Rightarrow> release \<Rightarrow> release" where
  "deployed now d r = r\<lparr>re_digest := d, re_since := now, re_failures := 0, re_swaps := Suc (re_swaps r)\<rparr>"

definition pull_failed :: "hot_reload_policy \<Rightarrow> release \<Rightarrow> release" where
  "pull_failed pol r = r\<lparr>re_failures := re_failures r + 1,
     re_parked := re_parked r + (if exhausted pol (re_failures r + 1) then 1 else 0)\<rparr>"

inductive spec_step :: "(string \<Rightarrow> bool) \<Rightarrow> hot_reload_policy \<Rightarrow> spec \<Rightarrow> spec_event \<Rightarrow> spec \<Rightarrow> bool"
  for genuine :: "string \<Rightarrow> bool" and pol :: hot_reload_policy where
  arrive:
    "sp_up a \<Longrightarrow> sp_releases a tid = Some r \<Longrightarrow> d = re_digest r \<Longrightarrow>
     spec_step genuine pol a (Arrive tid d) (a\<lparr>sp_requests := add_mset (tid, d) (sp_requests a)\<rparr>)"
| leave:
    "sp_requests a = add_mset (tid, d) rest \<Longrightarrow>
     spec_step genuine pol a (Leave tid d) (a\<lparr>sp_requests := rest\<rparr>)"
| deploy:
    "sp_up a \<Longrightarrow> sp_releases a tid = Some r \<Longrightarrow> permits (re_source r) d \<Longrightarrow> genuine d \<Longrightarrow>
     d \<noteq> re_digest r \<Longrightarrow> release_due pol (sp_now a) r \<Longrightarrow>
     spec_step genuine pol a (Deploy tid d)
       (a\<lparr>sp_releases := (sp_releases a)(tid \<mapsto> deployed (sp_now a) d r)\<rparr>)"
| confirm:
    "sp_up a \<Longrightarrow> sp_releases a tid = Some r \<Longrightarrow> release_due pol (sp_now a) r \<Longrightarrow>
     spec_step genuine pol a (Confirm tid) (a\<lparr>sp_releases := (sp_releases a)(tid \<mapsto> r\<lparr>re_failures := 0\<rparr>)\<rparr>)"
| pull_fails:
    "sp_up a \<Longrightarrow> sp_releases a tid = Some r \<Longrightarrow> release_due pol (sp_now a) r \<Longrightarrow>
     spec_step genuine pol a (PullFails tid)
       (a\<lparr>sp_releases := (sp_releases a)(tid \<mapsto> pull_failed pol r)\<rparr>)"
| clock:
    "sp_now a \<le> later \<Longrightarrow> spec_step genuine pol a (Clock later) (a\<lparr>sp_now := later\<rparr>)"
| abort:
    "sp_up a \<Longrightarrow> spec_step genuine pol a Abort (a\<lparr>sp_requests := {#}, sp_up := False\<rparr>)"
| silent:
    "spec_step genuine pol a Silent a"

inductive_cases spec_stepE: "spec_step genuine pol a e b"

section \<open>Runs of the specification\<close>

abbreviation spec_run :: "(string \<Rightarrow> bool) \<Rightarrow> hot_reload_policy \<Rightarrow> spec \<Rightarrow> spec_event list \<Rightarrow> spec \<Rightarrow> bool" where
  "spec_run genuine pol \<equiv> run (spec_step genuine pol)"

lemma spec_now_mono: "spec_step genuine pol a e b \<Longrightarrow> sp_now a \<le> sp_now b"
  by (auto elim: spec_stepE)

text \<open>What one step does to one release.\<close>

lemma spec_step_release:
  assumes "spec_step genuine pol a e b" "sp_releases a tid = Some r"
  obtains (same) "sp_releases b tid = Some r" "\<forall>d. e \<noteq> Deploy tid d"
  | (deployed) d where "e = Deploy tid d" "permits (re_source r) d" "genuine d" "d \<noteq> re_digest r"
      "release_due pol (sp_now a) r" "sp_releases b tid = Some (deployed (sp_now a) d r)"
  | (confirmed) "sp_releases b tid = Some (r\<lparr>re_failures := 0\<rparr>)" "\<forall>d. e \<noteq> Deploy tid d"
  | (failed) "sp_releases b tid = Some (pull_failed pol r)" "\<forall>d. e \<noteq> Deploy tid d"
  using assms(1)
proof cases
  case (deploy t r1 d)
  with assms(2) that(1) that(2) [of d] show thesis by (cases "t = tid") auto
next
  case (confirm t r1)
  with assms(2) that(1,3) show thesis by (cases "t = tid") auto
next
  case (pull_fails t r1)
  with assms(2) that(1,4) show thesis by (cases "t = tid") auto
qed (use assms(2) in \<open>auto intro: that(1)\<close>)

text \<open>The moves of one release along a run: how often it moved is the number of its \<open>Deploy\<close> events, every
  move takes at least the debounce, and a release that did not move still serves the same digest.\<close>

fun deploys :: "tenant_id \<Rightarrow> spec_event list \<Rightarrow> string list" where
  "deploys tid [] = []"
| "deploys tid (Deploy t d # es) = (if t = tid then [d] else []) @ deploys tid es"
| "deploys tid (_ # es) = deploys tid es"

lemma deploys_snoc [simp]:
  "deploys tid (es @ [e]) = deploys tid es @ (case e of Deploy t d \<Rightarrow> if t = tid then [d] else [] | _ \<Rightarrow> [])"
  by (induction tid es rule: deploys.induct) (auto split: spec_event.split)

definition release_follows :: "hot_reload_policy \<Rightarrow> (string \<Rightarrow> bool) \<Rightarrow> release \<Rightarrow> string list \<Rightarrow> instant \<Rightarrow> release \<Rightarrow> bool" where
  "release_follows pol genuine r ds now r' \<longleftrightarrow>
     re_source r' = re_source r \<and> re_swaps r' = re_swaps r + length ds \<and>
     re_digest r' = last (re_digest r # ds) \<and>
     (\<forall>d\<in>set ds. permits (re_source r) d \<and> genuine d) \<and>
     distinct_adj (re_digest r # ds) \<and>
     (0 < debounce pol \<longrightarrow> re_since r + length ds * debounce pol \<le> re_since r') \<and>
     (if ds = [] then re_since r' = re_since r else re_since r' \<le> now)"

lemma release_followsD:
  assumes "release_follows pol genuine r ds now r'"
  shows "re_source r' = re_source r" "re_swaps r' = re_swaps r + length ds" "re_digest r' = last (re_digest r # ds)"
    "d \<in> set ds \<Longrightarrow> permits (re_source r) d \<and> genuine d" "distinct_adj (re_digest r # ds)"
    "0 < debounce pol \<Longrightarrow> re_since r + length ds * debounce pol \<le> re_since r'"
    "ds = [] \<Longrightarrow> re_since r' = re_since r" "ds \<noteq> [] \<Longrightarrow> re_since r' \<le> now"
  using assms unfolding release_follows_def by (auto split: if_splits)

lemma release_follows_keep:
  assumes "release_follows pol genuine r ds now r'" "now \<le> later"
    and "re_source r'' = re_source r'" "re_swaps r'' = re_swaps r'" "re_digest r'' = re_digest r'" "re_since r'' = re_since r'"
  shows "release_follows pol genuine r ds later r''"
  using assms unfolding release_follows_def by (auto split: if_splits)

lemma release_follows_deploy:
  assumes f: "release_follows pol genuine r ds now r'" and "now \<le> later"
    and "permits (re_source r') d" "genuine d" "d \<noteq> re_digest r'" "release_due pol later r'"
  shows "release_follows pol genuine r (ds @ [d]) later (deployed later d r')"
proof -
  note D = release_followsD [OF f]
  have adj: "distinct_adj (re_digest r # ds @ [d])"
    using D(3,5) assms(5) distinct_adj_append_iff [of "re_digest r # ds" "[d]"] by simp
  have "re_since r + length (ds @ [d]) * debounce pol \<le> later" if "0 < debounce pol"
  proof -
    have "re_since r' + debounce pol \<le> later"
      using assms(6) that by (simp add: release_due_def saturating_duration_since_def)
    with D(6) [OF that] show ?thesis by simp
  qed
  with D(1,2,4) adj assms(3,4) show ?thesis by (auto simp: release_follows_def deployed_def)
qed

lemma spec_run_release:
  assumes "spec_run genuine pol a es b" "sp_releases a tid = Some r"
  shows "\<exists>r'. sp_releases b tid = Some r' \<and> release_follows pol genuine r (deploys tid es) (sp_now b) r'"
  using assms
proof (induction rule: run.induct)
  case run_nil
  then show ?case by (auto simp: release_follows_def)
next
  case (run_snoc es b e c)
  then obtain r' where r': "sp_releases b tid = Some r'"
    and f: "release_follows pol genuine r (deploys tid es) (sp_now b) r'" by blast
  have later: "sp_now b \<le> sp_now c" by (rule spec_now_mono [OF run_snoc.hyps(2)])
  note keep = release_follows_keep [OF f later]
  from run_snoc.hyps(2) r' show ?case
  proof (cases rule: spec_step_release)
    case (deployed d)
    with run_snoc.hyps(2) have "sp_now c = sp_now b" by (auto elim: spec_stepE)
    with release_follows_deploy [OF f order_refl deployed(2-5)] deployed show ?thesis by auto
  qed (use keep in \<open>auto simp: pull_failed_def split: spec_event.split\<close>)
qed

text \<open>A release whose source permits nothing but what it serves never moves.\<close>

lemma spec_run_frozen:
  assumes "spec_run genuine pol a es b" "sp_releases a tid = Some r"
    and "\<And>d. permits (re_source r) d \<Longrightarrow> d = re_digest r"
  shows "deploys tid es = []"
proof -
  from spec_run_release [OF assms(1,2)] obtain r' where
    f: "release_follows pol genuine r (deploys tid es) (sp_now b) r'" by blast
  show ?thesis
  proof (cases "deploys tid es")
    case (Cons d ds)
    with release_followsD(4) [OF f, of d] assms(3) have "d = re_digest r" by simp
    with release_followsD(5) [OF f] Cons show ?thesis by simp
  qed simp
qed

text \<open>A run has room for at most as many moves as debounce windows since the last move before it.\<close>

lemma spec_run_bounded:
  assumes "spec_run genuine pol a es b" "sp_releases a tid = Some r" "0 < debounce pol"
  shows "length (deploys tid es) \<le> (sp_now b - re_since r) div debounce pol"
proof -
  from spec_run_release [OF assms(1,2)] obtain r' where
    f: "release_follows pol genuine r (deploys tid es) (sp_now b) r'" by blast
  have "length (deploys tid es) * debounce pol \<le> sp_now b - re_since r"
    using release_followsD(6-8) [OF f] assms(3) by (cases "deploys tid es = []") auto
  then show ?thesis using assms(3) by (simp add: less_eq_div_iff_mult_less_eq)
qed

text \<open>Every request of a run was there before it or arrived at the release of its time.\<close>

lemma spec_run_requests:
  assumes "spec_run genuine pol a es b" "(tid, d) \<in># sp_requests b" "sp_releases a tid = Some r"
  shows "(tid, d) \<in># sp_requests a \<or> d \<in> set (re_digest r # deploys tid es)"
  using assms(1,2)
proof (induction arbitrary: d rule: run.induct)
  case (run_snoc es b e c)
  show ?case
  proof (cases "(tid, d) \<in># sp_requests b")
    case True
    with run_snoc.IH show ?thesis by (fastforce split: spec_event.split)
  next
    case False
    with run_snoc.hyps(2) run_snoc.prems obtain r' where now: "e = Arrive tid d" "sp_releases b tid = Some r'"
        "d = re_digest r'"
      by (auto elim!: spec_stepE)
    from spec_run_release [OF run_snoc.hyps(1) assms(3)] now(2) have
      "release_follows pol genuine r (deploys tid es) (sp_now b) r'" by simp
    then have "re_digest r' = last (re_digest r # deploys tid es)" by (rule release_followsD(3))
    then have "d \<in> set (re_digest r # deploys tid es)" using now(3) last_in_set by (metis list.discI)
    with now(1) show ?thesis by simp
  qed
qed simp

end
