(* ===== verification/Serving_Refinement.thy ===== *)
theory Serving_Refinement
  imports Serving_System Serving_Spec
begin

text \<open>
  The running system of \<open>Serving_System\<close> against the promises of \<open>Serving_Spec\<close>.

  \<open>spec_of\<close> forgets everything of a system but the release of each tenant, the requests with the digest
  they hold, the clock and whether the process is up. Every step of the system is one step of the
  specification on what \<open>spec_of\<close> sees, so every run is a run of the specification, and what the
  specification says of its runs holds of the system: how often a tenant can be reloaded, and that
  pinned and file sources never move. Further properties of whole runs follow: requests stay on the
  generation they arrived at, an outage of the registry changes no generation, and a new release
  can be deployed from every state.
\<close>

section \<open>What the specification sees of a system\<close>

definition release_of :: "string \<Rightarrow> telemetry \<Rightarrow> ('c, 'g) tenant \<Rightarrow> release" where
  "release_of name tel t =
     \<lparr>re_source = tn_source t, re_digest = ac_digest (tn_active t), re_since = tn_last_swap t,
      re_failures = tn_failures t, re_swaps = reload_total name tel, re_parked = parked_total name tel\<rparr>"

definition releases_of :: "('c, 'g) runtime \<Rightarrow> tenant_id \<Rightarrow> release option" where
  "releases_of rt tid = map_option (release_of (as_str tid) (rt_telemetry rt)) (runtime_tenant rt tid)"

definition requests_of :: "'c ticket list \<Rightarrow> ('c, 'g) flight list \<Rightarrow> (tenant_id \<times> string) multiset" where
  "requests_of ks fs =
     mset (map (\<lambda>k. (tk_tenant k, ac_digest (tk_active k))) ks) +
     mset (map (\<lambda>f. (fl_tenant f, ac_digest (fl_active f))) fs)"

definition spec_of :: "('c, 'g) system \<Rightarrow> spec" where
  "spec_of s =
     \<lparr>sp_releases = releases_of (sy_rt s), sp_requests = requests_of (sy_tickets s) (sy_flights s),
      sp_now = sy_now s, sp_up = (\<not> sy_crashed s)\<rparr>"

text \<open>The digests of artifacts that satisfy the contract.\<close>

definition genuine :: "crypto \<Rightarrow> string \<Rightarrow> bool" where
  "genuine C d \<longleftrightarrow> (\<exists>l. loaded_ok C l \<and> ensure_contract l = Inr () \<and> ld_digest l = d)"

lemma releases_view:
  assumes "reload_view rt' = reload_view rt"
  shows "releases_of rt' = releases_of rt"
proof
  fix tid
  from assms have "map_option tenant_reload (runtime_tenant rt' tid) = map_option tenant_reload (runtime_tenant rt tid)"
    and "reload_total (as_str tid) (rt_telemetry rt') = reload_total (as_str tid) (rt_telemetry rt)"
    and "parked_total (as_str tid) (rt_telemetry rt') = parked_total (as_str tid) (rt_telemetry rt)"
    by (simp_all add: reload_view_def fun_eq_iff)
  then show "releases_of rt' tid = releases_of rt tid"
    by (cases "runtime_tenant rt' tid"; cases "runtime_tenant rt tid")
      (simp_all add: releases_of_def release_of_def tenant_reload_def)
qed

lemma releases_put:
  assumes "assoc_ok (rt_tenants rt)" "tn_id t' = tid"
    and "\<And>n. n \<noteq> as_str tid \<Longrightarrow> reload_total n tel = reload_total n (rt_telemetry rt)"
    and "\<And>n. n \<noteq> as_str tid \<Longrightarrow> parked_total n tel = parked_total n (rt_telemetry rt)"
  shows "releases_of ((put_tenant t' rt)\<lparr>rt_telemetry := tel\<rparr>) =
    (releases_of rt)(tid \<mapsto> release_of (as_str tid) tel t')"
proof
  fix other
  have "as_str other \<noteq> as_str tid" if "other \<noteq> tid" using that by (cases other, cases tid) simp
  then show "releases_of ((put_tenant t' rt)\<lparr>rt_telemetry := tel\<rparr>) other =
      ((releases_of rt)(tid \<mapsto> release_of (as_str tid) tel t')) other"
    using assms by (cases "other = tid"; cases "runtime_tenant rt other")
      (simp_all add: releases_of_def release_of_def put_tenant_lookup)
qed

lemma mset_drop_nth:
  assumes "i < length xs"
  shows "mset xs = add_mset (xs ! i) (mset (drop_nth i xs))"
proof -
  have "xs = take i xs @ xs ! i # drop (Suc i) xs" by (rule id_take_nth_drop [OF assms])
  then show ?thesis unfolding drop_nth_def by (metis mset.simps(2) mset_append union_mset_add_mset_right)
qed

lemma requests_drop_ticket:
  assumes "i < length ks"
  shows "requests_of ks fs =
    add_mset (tk_tenant (ks ! i), ac_digest (tk_active (ks ! i))) (requests_of (drop_nth i ks) fs)"
  using mset_drop_nth [OF assms] by (simp add: requests_of_def)

lemma requests_drop_flight:
  assumes "i < length fs"
  shows "requests_of ks fs =
    add_mset (fl_tenant (fs ! i), ac_digest (fl_active (fs ! i))) (requests_of ks (drop_nth i fs))"
  using mset_drop_nth [OF assms] by (simp add: requests_of_def)

lemma requests_call:
  "requests_of ks (fs[i := (fs ! i)\<lparr>fl_prog := p\<rparr>]) = requests_of ks fs"
proof -
  have "map (\<lambda>f. (fl_tenant f, ac_digest (fl_active f))) (fs[i := (fs ! i)\<lparr>fl_prog := p\<rparr>]) =
      map (\<lambda>f. (fl_tenant f, ac_digest (fl_active f))) fs"
    by (cases "i < length fs") (simp_all add: map_update list_update_same_conv list_update_beyond)
  then show ?thesis by (simp add: requests_of_def)
qed

section \<open>Every step is a step of the specification\<close>

lemma spec_of_kept:
  assumes "reload_view (sy_rt s') = reload_view (sy_rt s)" "sy_now s' = sy_now s" "sy_crashed s' = sy_crashed s"
  shows "spec_of s' = (spec_of s)\<lparr>sp_requests := requests_of (sy_tickets s') (sy_flights s')\<rparr>"
  using assms releases_view [OF assms(1)] by (simp add: spec_of_def)

lemma spec_leave:
  assumes "reload_view (sy_rt s') = reload_view (sy_rt s)" "sy_now s' = sy_now s" "sy_crashed s' = sy_crashed s"
    and "requests_of (sy_tickets s) (sy_flights s) = add_mset (tid, d) (requests_of (sy_tickets s') (sy_flights s'))"
  shows "spec_step G pol (spec_of s) (Leave tid d) (spec_of s')"
  unfolding spec_of_kept [OF assms(1-3)] by (rule spec_step.leave) (simp add: spec_of_def assms(4))

lemma spec_silent:
  assumes "reload_view (sy_rt s') = reload_view (sy_rt s)" "sy_now s' = sy_now s" "sy_crashed s' = sy_crashed s"
    and "requests_of (sy_tickets s') (sy_flights s') = requests_of (sy_tickets s) (sy_flights s)"
  shows "spec_step G pol (spec_of s) Silent (spec_of s')"
proof -
  have "spec_of s' = spec_of s" using spec_of_kept [OF assms(1-3)] assms(4) by (simp add: spec_of_def)
  then show ?thesis by (simp add: spec_step.silent)
qed

lemma spec_cancel: "cancel_step s s' \<Longrightarrow> \<exists>e. spec_step G pol (spec_of s) e (spec_of s')"
proof (erule cancel_step.cases, goal_cases)
  case (1 i u)
  then show ?case using spec_leave [of s' s] requests_drop_ticket by fastforce
next
  case (2 i u)
  then show ?case using spec_leave [of s' s] requests_drop_flight by fastforce
qed

text \<open>What the reload pass does with a finished pull.\<close>

lemma spec_apply:
  assumes inv: "sys_inv W C s" and up: "\<not> sy_crashed s"
    and pass: "sy_pass s = Some (began, tid # ids)" "sy_pull s = Some pulled"
    and app: "poll_apply W (sy_now s) tid pulled (sy_rt s) = (r, rt)"
  shows "\<exists>e. spec_step (genuine C) (rt_policy (sy_rt s)) (spec_of s) e ((spec_of s)\<lparr>sp_releases := releases_of rt\<rparr>)"
proof -
  have rt: "runtime_inv W C (sy_rt s)" and "began \<le> sy_now s"
    and "pending_ok C (sy_rt s) (Some (began, tid # ids)) (Some pulled)"
    using inv pass by (simp_all add: sys_inv_def)
  then obtain t reference pin where t: "runtime_tenant (sy_rt s) tid = Some t" "pulled_ok C (tn_source t) pulled"
    "debounce (rt_policy (sy_rt s)) \<le> saturating_duration_since began (tn_last_swap t)"
    "tn_source t = SourceOci reference pin" by (blast elim: pending_okE)
  let ?r = "release_of (as_str tid) (rt_telemetry (sy_rt s)) t" and ?pol = "rt_policy (sy_rt s)"
  have r: "sp_releases (spec_of s) tid = Some ?r" using t(1) by (simp add: spec_of_def releases_of_def)
  have due: "release_due ?pol (sp_now (spec_of s)) ?r"
    using t(3) \<open>began \<le> sy_now s\<close> by (simp add: release_due_def release_of_def spec_of_def saturating_duration_since_def)
  have running: "sp_up (spec_of s)" using up by (simp add: spec_of_def)
  have id: "tn_id t = tid" by (rule runtime_invD(1) [OF rt t(1)])
  note put = releases_put [OF runtime_inv_assoc [OF rt], of _ tid]
  from t(1) app show ?thesis
  proof (cases rule: poll_apply_cases)
    case (failed e)
    have "releases_of rt = (releases_of (sy_rt s))(tid \<mapsto> pull_failed ?pol ?r)"
      unfolding failed(3) by (rule trans [OF put]) (auto simp: id pull_failed_def release_of_def)
    with spec_step.pull_fails [OF running r due, of "genuine C"] show ?thesis by (auto simp: spec_of_def)
  next
    case (refused l e)
    then have "(spec_of s)\<lparr>sp_releases := releases_of rt\<rparr> = spec_of s" by (simp add: spec_of_def)
    then show ?thesis by (metis spec_step.silent)
  next
    case (same l)
    have "rt = (put_tenant (t\<lparr>tn_failures := 0\<rparr>) (sy_rt s))\<lparr>rt_telemetry := rt_telemetry (sy_rt s)\<rparr>"
      unfolding same(5) by (simp add: put_tenant_def)
    then have "releases_of rt = (releases_of (sy_rt s))(tid \<mapsto> ?r\<lparr>re_failures := 0\<rparr>)"
      using id by (simp add: put) (simp add: release_of_def)
    with spec_step.confirm [OF running r due, of "genuine C"] show ?thesis by (auto simp: spec_of_def)
  next
    case (swapped l a)
    note a = activate_fields [OF swapped(4)]
    have "releases_of rt = (releases_of (sy_rt s))(tid \<mapsto> deployed (sy_now s) (ld_digest l) ?r)"
      unfolding swapped(6) by (rule trans [OF put]) (auto simp: id a deployed_def release_of_def)
    moreover have "genuine C (ld_digest l)" using t(2) swapped(1,2) by (auto simp: genuine_def pulled_ok_def)
    moreover have "permits (re_source ?r) (ld_digest l)" 
      using t(2,4) swapped(1) by (cases pin) (auto simp: release_of_def pulled_ok_def)
    moreover have "ld_digest l \<noteq> re_digest ?r" using swapped(3) by (simp add: release_of_def)
    ultimately show ?thesis using spec_step.deploy [OF running r _ _ _ due, of "ld_digest l" "genuine C"]
      by (auto simp: spec_of_def)
  qed
qed

lemma apply_keeps_policy:
  assumes "poll_apply W at tid pulled rt = (r, rt')"
  shows "rt_policy rt' = rt_policy rt \<and> rt_registry rt' = rt_registry rt"
proof (cases "runtime_tenant rt tid")
  case None
  with assms show ?thesis by (simp add: poll_apply_def)
next
  case (Some t)
  from Some assms show ?thesis by (cases rule: poll_apply_cases) simp_all
qed

lemma reload_view_policy:
  "reload_view rt' = reload_view rt \<Longrightarrow> rt_policy rt' = rt_policy rt \<and> rt_registry rt' = rt_registry rt"
  by (simp add: reload_view_def)

lemma serve_step_reload:
  assumes inv: "sys_inv W C s" and step: "serve_step W H net os Es s s'"
  obtains (kept) "reload_view (sy_rt s') = reload_view (sy_rt s)"
  | (applied) began tid ids pulled r where "sy_pass s = Some (began, tid # ids)" "sy_pull s = Some pulled"
      "poll_apply W (sy_now s) tid pulled (sy_rt s) = (r, sy_rt s')"
proof (cases "cancel_step s s'")
  case True
  then show thesis by (intro kept) (auto elim: cancel_step.cases)
next
  case False
  then have "sys_step W H net os Es s s'" using step by (simp add: serve_step_def)
  with inv show thesis using that by (cases rule: sys_step_reload) blast+
qed

lemma serve_step_policy:
  assumes "sys_inv W C s" "serve_step W H net os Es s s'"
  shows "rt_policy (sy_rt s') = rt_policy (sy_rt s) \<and> rt_registry (sy_rt s') = rt_registry (sy_rt s)"
  using assms by (cases rule: serve_step_reload) (auto dest: reload_view_policy apply_keeps_policy)

lemma spec_sim_kept:
  assumes view: "reload_view (sy_rt s') = reload_view (sy_rt s)" and step: "sys_step W H net os Es s s'"
  shows "\<exists>e. spec_step G pol (spec_of s) e (spec_of s')"
  using step
proof cases
  case (admit tid request k)
  from admit(3) obtain t where t: "runtime_tenant (sy_rt s) tid = Some t" "tk_tenant k = tid" "tk_active k = tn_active t"
    by (rule invoke_prepare_okD)
  let ?r = "release_of (as_str tid) (rt_telemetry (sy_rt s)) t"
  have "spec_step G pol (spec_of s) (Arrive tid (re_digest ?r))
      ((spec_of s)\<lparr>sp_requests := add_mset (tid, re_digest ?r) (sp_requests (spec_of s))\<rparr>)"
    by (rule spec_step.arrive [where r = ?r]) (use admit(2) t(1) in \<open>simp_all add: spec_of_def releases_of_def\<close>)
  moreover have "(spec_of s)\<lparr>sp_requests := add_mset (tid, re_digest ?r) (sp_requests (spec_of s))\<rparr> = spec_of s'"
    using admit(1) t by (simp add: spec_of_def requests_of_def release_of_def)
  ultimately show ?thesis by metis
next
  case (acquire i f rt)
  then have "fl_tenant f = tk_tenant (sy_tickets s ! i)" "fl_active f = tk_active (sy_tickets s ! i)"
    by (auto simp: invoke_acquire_def split: option.splits sum.splits prod.splits)
  with acquire(1) have "requests_of (sy_tickets s') (sy_flights s') = requests_of (sy_tickets s) (sy_flights s)"
    using requests_drop_ticket [OF acquire(3), of "sy_flights s"] by (simp add: requests_of_def)
  then show ?thesis using spec_silent [OF view] acquire(1) by force
next
  case (acquire_failed i e rt)
  then show ?thesis using spec_leave [OF view] requests_drop_ticket [OF acquire_failed(3)] by fastforce
next
  case (call i f c k reply w)
  then show ?thesis using spec_silent [OF view] requests_call by fastforce
next
  case (complete i f t result response rt)
  then show ?thesis using spec_leave [OF view] requests_drop_flight [OF complete(3)] by fastforce
next
  case (panic i f t result m rt)
  have "spec_step G pol (spec_of s) Abort ((spec_of s)\<lparr>sp_requests := {#}, sp_up := False\<rparr>)"
    by (rule spec_step.abort) (use panic(2) in \<open>simp add: spec_of_def\<close>)
  moreover have "(spec_of s)\<lparr>sp_requests := {#}, sp_up := False\<rparr> = spec_of s'"
    using panic(1) releases_view [OF view] by (simp add: spec_of_def requests_of_def)
  ultimately show ?thesis by metis
next
  case (time later)
  have "spec_step G pol (spec_of s) (Clock later) ((spec_of s)\<lparr>sp_now := later\<rparr>)"
    by (rule spec_step.clock) (use time(3) in \<open>simp add: spec_of_def\<close>)
  then show ?thesis using time(1) by (auto simp: spec_of_def)
qed (use spec_silent [OF view] in force)+

lemma spec_sim:
  assumes inv: "sys_inv W C s" and step: "serve_step W H net os Es s s'"
  shows "\<exists>e. spec_step (genuine C) (rt_policy (sy_rt s)) (spec_of s) e (spec_of s')"
proof (cases "cancel_step s s'")
  case True
  then show ?thesis by (rule spec_cancel)
next
  case False
  then have sys: "sys_step W H net os Es s s'" using step by (simp add: serve_step_def)
  with inv show ?thesis
  proof (cases rule: sys_step_reload)
    case kept
    then show ?thesis using sys by (rule spec_sim_kept)
  next
    case (applied began tid ids pulled r)
    have "spec_of s' = (spec_of s)\<lparr>sp_releases := releases_of (sy_rt s')\<rparr>"
      by (subst applied(4)) (simp add: spec_of_def)
    with spec_apply [OF inv applied(5) applied(1-3)] show ?thesis by simp
  qed
qed

section \<open>Runs of the system are runs of the specification\<close>

interpretation releases: refinement_mapping "\<lambda>s. serving_init W C Es s \<and> rt_policy (sy_rt s) = pol"
    "serve_step W H net os Es"
    "\<lambda>s. (sys_inv W C s \<and> crypto_ok C \<and> (\<forall>E\<in>Es. fe_crypto E = C)) \<and> rt_policy (sy_rt s) = pol"
    "spec_step (genuine C) pol" spec_of
  for W :: "('c, 'g) wasm_lib" and H net os C and Es :: "'r fetch_env set" and pol
proof (unfold_locales, goal_cases)
  case (1 s)
  then show ?case using serving.inv_init by blast
next
  case (2 s t)
  then show ?case using serving.inv_step serve_step_policy by metis
next
  case (3 s t)
  then show ?case using spec_sim by blast
qed

lemma serving_run:
  assumes "reachable (serving_init W C Es) (serve_step W H net os Es) s" "(serve_step W H net os Es)\<^sup>*\<^sup>* s s'"
  obtains es where "spec_run (genuine C) (rt_policy (sy_rt s)) (spec_of s) es (spec_of s')"
proof -
  have "(sys_inv W C s \<and> crypto_ok C \<and> (\<forall>E\<in>Es. fe_crypto E = C)) \<and> rt_policy (sy_rt s) = rt_policy (sy_rt s)"
    using serving.reachable_inv [OF assms(1)] by simp
  from releases.run_refines [OF assms(2) this] that show thesis by blast
qed

lemma serve_steps_inv:
  assumes "reachable (serving_init W C Es) (serve_step W H net os Es) s" "(serve_step W H net os Es)\<^sup>*\<^sup>* s s'"
  shows "sys_inv W C s'" "crypto_ok C" "E \<in> Es \<Longrightarrow> fe_crypto E = C"
  using serving.inv_rtranclp [OF assms(2) serving.reachable_inv [OF assms(1)]] by auto

lemma serve_steps_kept:
  assumes "sys_inv W C s" "crypto_ok C" "\<forall>E\<in>Es. fe_crypto E = C" "(serve_step W H net os Es)\<^sup>*\<^sup>* s s'"
  shows "static_view (sy_rt s') = static_view (sy_rt s) \<and> rt_policy (sy_rt s') = rt_policy (sy_rt s) \<and>
    rt_registry (sy_rt s') = rt_registry (sy_rt s)"
  using assms(4)
proof (induction rule: rtranclp_induct)
  case (step s1 s2)
  have "sys_inv W C s1" using serving.inv_rtranclp [OF step.hyps(1)] assms(1-3) by blast
  with step show ?case using serve_step_static serve_step_policy by metis
qed simp

lemma sys_serve_steps: "(sys_step W H net os Es)\<^sup>*\<^sup>* s s' \<Longrightarrow> (serve_step W H net os Es)\<^sup>*\<^sup>* s s'"
  by (erule rtranclp_mono [THEN predicate2D, rotated]) (auto intro: sys_serve_step)

section \<open>Where a request's generation comes from\<close>

text \<open>The tenant's generation and the time at some earlier state of a run.\<close>

definition was_active ::
  "(('c, 'g) system \<Rightarrow> ('c, 'g) system \<Rightarrow> bool) \<Rightarrow> ('c, 'g) system \<Rightarrow> ('c, 'g) system \<Rightarrow>
   tenant_id \<Rightarrow> 'c active_component \<Rightarrow> instant \<Rightarrow> bool" where
  "was_active step s0 s tid a at \<longleftrightarrow>
     (\<exists>s1 t. step\<^sup>*\<^sup>* s0 s1 \<and> step\<^sup>*\<^sup>* s1 s \<and> sy_now s1 = at \<and> runtime_tenant (sy_rt s1) tid = Some t \<and> tn_active t = a)"

lemma was_active_step: "was_active step s0 s tid a at \<Longrightarrow> step s s' \<Longrightarrow> was_active step s0 s' tid a at"
  unfolding was_active_def by (blast intro: rtranclp.rtrancl_into_rtrancl)

lemma was_active_now:
  "step\<^sup>*\<^sup>* s0 s \<Longrightarrow> step s s' \<Longrightarrow> runtime_tenant (sy_rt s) tid = Some t \<Longrightarrow>
   was_active step s0 s' tid (tn_active t) (sy_now s)"
  unfolding was_active_def by (intro exI [of _ s] exI [of _ t]) (simp add: r_into_rtranclp)

lemma in_drop_nthD: "x \<in> set (drop_nth i xs) \<Longrightarrow> x \<in> set xs"
  by (rule subsetD [OF drop_nth_subset])

lemma step_tickets:
  assumes "serve_step W H net os Es s s'" "k \<in> set (sy_tickets s')"
  obtains "k \<in> set (sy_tickets s)"
  | t where "runtime_tenant (sy_rt s) (tk_tenant k) = Some t" "tk_active k = tn_active t" "tk_started k = sy_now s"
proof (cases "k \<in> set (sy_tickets s)")
  case False
  with assms have "\<exists>tid request. invoke_prepare H os (sy_now s) tid request (sy_rt s) = Inr k"
    unfolding serve_step_def by (auto elim!: sys_step.cases cancel_step.cases dest: in_drop_nthD) blast
  then show thesis using that(2) by (metis invoke_prepare_okD)
qed (rule that(1))

lemma step_flights:
  assumes "serve_step W H net os Es s s'" "f \<in> set (sy_flights s')"
  obtains g where "g \<in> set (sy_flights s)" "fl_tenant f = fl_tenant g" "fl_active f = fl_active g" "fl_started f = fl_started g"
  | k where "k \<in> set (sy_tickets s)" "fl_tenant f = tk_tenant k" "fl_active f = tk_active k" "fl_started f = tk_started k"
proof (cases "f \<in> set (sy_flights s)")
  case False
  with assms consider (acquired) i rt where "i < length (sy_tickets s)"
      "invoke_acquire W (sy_epoch s) (sy_now s) (sy_tickets s ! i) (sy_rt s) = (Inr f, rt)"
    | (called) i p where "i < length (sy_flights s)" "f \<in> set ((sy_flights s)[i := (sy_flights s ! i)\<lparr>fl_prog := p\<rparr>])"
    unfolding serve_step_def by (auto elim!: sys_step.cases cancel_step.cases dest: in_drop_nthD)
  then show thesis
  proof cases
    case acquired
    then show thesis using that(2) [of "sy_tickets s ! i"]
      by (auto simp: invoke_acquire_def split: option.splits sum.splits prod.splits)
  next
    case called
    with False have "f = (sy_flights s ! i)\<lparr>fl_prog := p\<rparr>" using set_update_subset_insert by fastforce
    with called(1) show thesis using that(1) [of "sy_flights s ! i"] by simp
  qed
qed (rule that(1), simp_all)

lemma requests_were_active:
  assumes "(serve_step W H net os Es)\<^sup>*\<^sup>* s0 s" "sy_tickets s0 = []" "sy_flights s0 = []"
  shows "(\<forall>k\<in>set (sy_tickets s). was_active (serve_step W H net os Es) s0 s (tk_tenant k) (tk_active k) (tk_started k)) \<and>
    (\<forall>f\<in>set (sy_flights s). was_active (serve_step W H net os Es) s0 s (fl_tenant f) (fl_active f) (fl_started f))"
  using assms(1)
proof (induction rule: rtranclp_induct)
  case base
  then show ?case using assms(2,3) by simp
next
  case (step s s')
  note later = was_active_step [where step = "serve_step W H net os Es" and s = s and s' = s', OF _ step.hyps(2)]
    and now = was_active_now [where step = "serve_step W H net os Es" and s = s and s' = s', OF step.hyps]
  show ?case
  proof (intro conjI ballI)
    fix k assume "k \<in> set (sy_tickets s')"
    with step.hyps(2) show "was_active (serve_step W H net os Es) s0 s' (tk_tenant k) (tk_active k) (tk_started k)"
      by (cases rule: step_tickets) (use step.IH later now in auto)
  next
    fix f assume "f \<in> set (sy_flights s')"
    with step.hyps(2) show "was_active (serve_step W H net os Es) s0 s' (fl_tenant f) (fl_active f) (fl_started f)"
      by (cases rule: step_flights) (use step.IH later in auto)
  qed
qed

section \<open>Outages\<close>

text \<open>While every pull fails, a finished pull is a failure, and the pass only counts it.\<close>

definition registry_down :: "'r fetch_env set \<Rightarrow> registry \<Rightarrow> bool" where
  "registry_down Es reg \<longleftrightarrow>
     (\<forall>E\<in>Es. \<forall>reference pin dir. \<exists>e. fst (registry_pull E reg reference pin dir) = Inl e)"

definition pull_is_failure :: "('c, 'g) system \<Rightarrow> bool" where
  "pull_is_failure s \<longleftrightarrow> (\<forall>pulled. sy_pull s = Some pulled \<longrightarrow> (\<exists>e. pulled = Inl e))"

lemma pull_is_failure_step:
  assumes "registry_down Es (rt_registry (sy_rt s))" "pull_is_failure s" "serve_step W H net os Es s s'"
  shows "pull_is_failure s'"
  using assms(3) unfolding serve_step_def
proof
  assume "sys_step W H net os Es s s'"
  then show ?thesis
  proof cases
    case (pass_pull began tid ids reference pin E pulled dir)
    with assms(1) obtain e where "fst (registry_pull E (rt_registry (sy_rt s)) reference pin (rt_dir (sy_rt s))) = Inl e"
      unfolding registry_down_def by blast
    with pass_pull show ?thesis by (simp add: pull_is_failure_def)
  qed (use assms(2) in \<open>simp_all add: pull_is_failure_def\<close>)
next
  assume "cancel_step s s'"
  then show ?thesis using assms(2) by (auto simp: pull_is_failure_def elim: cancel_step.cases)
qed

lemma failed_apply_keeps:
  assumes rt: "runtime_inv W C rt" and t: "runtime_tenant rt tid = Some t"
    and app: "poll_apply W at polled (Inl e) rt = (r, rt')"
  shows "\<exists>t'. runtime_tenant rt' tid = Some t' \<and> tn_active t' = tn_active t \<and> tn_last_swap t' = tn_last_swap t"
proof (cases "runtime_tenant rt polled")
  case None
  with app t show ?thesis by (simp add: poll_apply_def)
next
  case (Some u)
  from Some app show ?thesis
    by (cases rule: poll_apply_cases)
      (use t Some runtime_invD(1) [OF rt Some] runtime_inv_assoc [OF rt] in \<open>auto simp: put_tenant_lookup\<close>)
qed

lemma outage_step:
  assumes inv: "sys_inv W C s" and "pull_is_failure s" and step: "serve_step W H net os Es s s'"
    and t: "runtime_tenant (sy_rt s) tid = Some t"
  shows "\<exists>t'. runtime_tenant (sy_rt s') tid = Some t' \<and> tn_active t' = tn_active t \<and> tn_last_swap t' = tn_last_swap t"
  using inv step
proof (cases rule: serve_step_reload)
  case kept
  from kept t obtain t' where "runtime_tenant (sy_rt s') tid = Some t'" "tn_active t' = tn_active t"
      "tn_last_swap t' = tn_last_swap t" by (rule reload_viewD)
  then show ?thesis by blast
next
  case (applied began id ids pulled r)
  with assms(2) obtain e where "pulled = Inl e" by (auto simp: pull_is_failure_def)
  with applied(3) show ?thesis using inv t by (intro failed_apply_keeps [of W C "sy_rt s"]) (auto simp: sys_inv_def)
qed

section \<open>Deploying a release\<close>

text \<open>A pass in progress can be brought to its end.\<close>

lemma pass_completes:
  assumes inv: "sys_inv W C s" and up: "\<not> sy_crashed s" and E: "E \<in> Es"
  shows "\<exists>rt. (sys_step W H net os Es)\<^sup>*\<^sup>* s (s\<lparr>sy_rt := rt, sy_pass := None, sy_pull := None\<rparr>)"
proof (cases "sy_pass s")
  case None
  then have "s\<lparr>sy_rt := sy_rt s, sy_pass := None, sy_pull := None\<rparr> = s"
    using sys_inv_no_pull [OF inv None] by (cases s) simp
  then show ?thesis by (metis rtranclp.rtrancl_refl)
next
  case (Some pass)
  obtain began ids where pass: "sy_pass s = Some (began, ids)" using Some by (cases pass) simp
  let ?pe = "\<lparr>pe_now = began, pe_fetch = (\<lambda>_. E), pe_swap_at = (\<lambda>_. sy_now s)\<rparr>"
  have loop: "(sys_step W H net os Es)\<^sup>*\<^sup>* u (u\<lparr>sy_rt := snd (poll_loop W ?pe ids' (sy_rt u)), sy_pass := None\<rparr>)"
    if "\<not> sy_crashed u" "sy_pass u = Some (began, ids')" "sy_pull u = None" "sy_now u = sy_now s" for u ids'
    by (rule poll_loop_steps) (use that E in simp_all)
  show ?thesis
  proof (cases "sy_pull s")
    case None
    then have "s\<lparr>sy_rt := rt, sy_pass := None\<rparr> = s\<lparr>sy_rt := rt, sy_pass := None, sy_pull := None\<rparr>" for rt
      by (cases s) simp
    with loop [OF up pass None refl] show ?thesis by metis
  next
    case (Some pulled)
    from inv Some pass obtain tid ids' where ids: "ids = tid # ids'" by (auto simp: sys_inv_def pending_ok_def)
    obtain r rt where app: "poll_apply W (sy_now s) tid pulled (sy_rt s) = (r, rt)" by fastforce
    show ?thesis
    proof (cases r)
      case (Inl e)
      from sys_step.pass_abort [OF up pass [unfolded ids] Some app [unfolded Inl], of H net os Es]
      show ?thesis by (blast intro: r_into_rtranclp)
    next
      case (Inr u)
      let ?s = "s\<lparr>sy_rt := rt, sy_pass := Some (began, ids'), sy_pull := None\<rparr>"
      let ?rt = "snd (poll_loop W ?pe ids' rt)"
      have "sys_step W H net os Es s ?s" by (rule sys_step.pass_next [OF up pass [unfolded ids] Some app [unfolded Inr]])
      moreover have "(sys_step W H net os Es)\<^sup>*\<^sup>* ?s (?s\<lparr>sy_rt := ?rt, sy_pass := None\<rparr>)"
        using loop [of ?s ids'] up by simp
      ultimately have "(sys_step W H net os Es)\<^sup>*\<^sup>* s (?s\<lparr>sy_rt := ?rt, sy_pass := None\<rparr>)"
        by (rule converse_rtranclp_into_rtranclp)
      also have "?s\<lparr>sy_rt := ?rt, sy_pass := None\<rparr> = s\<lparr>sy_rt := ?rt, sy_pass := None, sy_pull := None\<rparr>"
        by (cases s) simp
      finally show ?thesis by (rule exI)
    qed
  qed
qed

text \<open>
  What it takes for a release to be available: the registry's manifest names its digest first, the blob
  endpoint serves bytes of that digest, local reads and writes succeed, and bytes of that digest
  are a valid component of the contract that compiles.
\<close>

definition publishes ::
  "('c, 'g) wasm_lib \<Rightarrow> 'r fetch_env \<Rightarrow> registry \<Rightarrow> string \<Rightarrow> string \<Rightarrow> bool" where
  "publishes W E reg reference d \<longleftrightarrow>
     (\<exists>r ds blob. oci_resolve (fe_remote E) (reg_oci reg) reference = Inr r \<and>
        remote_manifest (fe_remote E) (cl_auth (reg_oci reg)) r = Inr (d # ds) \<and>
        remote_blob (fe_remote E) (cl_auth (reg_oci reg)) r d = Inr blob \<and> store_digest (fe_crypto E) blob = d) \<and>
     fe_put_io E = io_success \<and> (\<forall>path. fe_readable E path) \<and>
     (\<forall>bytes. store_digest (fe_crypto E) bytes = d \<longrightarrow>
        (\<exists>l c. from_bytes (fe_crypto E) (fe_wasm E) reference bytes = Inr l \<and> ensure_contract l = Inr () \<and>
           wl_compile W bytes = Inr c))"

lemma load_published:
  assumes "publishes W E reg reference d" "store_inv (fe_crypto E) dir" "crypto_ok (fe_crypto E)"
    and "assoc_get dir (blob_name (fe_crypto E) blob) = Some b" "store_digest (fe_crypto E) blob = d"
  shows "\<exists>l c. load_cached E reference d dir = Inr l \<and> ld_digest l = d \<and> store_digest (fe_crypto E) (ld_bytes l) = d \<and>
    ensure_contract l = Inr () \<and> wl_compile W (ld_bytes l) = Inr c"
proof -
  have path: "blob_path d = Inr (blob_name (fe_crypto E) blob)" using blob_path_digest [OF assms(3)] assms(5) by metis
  have get: "store_get (fe_readable E) dir d = Inr b"
    using path assms(1,4) by (simp add: store_get_def publishes_def)
  then have b: "store_digest (fe_crypto E) b = d" by (rule store_get_digest [OF assms(2)])
  with assms(1) obtain l c where l: "from_bytes (fe_crypto E) (fe_wasm E) reference b = Inr l"
      "ensure_contract l = Inr ()" "wl_compile W b = Inr c"
    unfolding publishes_def by blast
  have "ld_bytes l = b" using from_bytes_loaded_ok [OF l(1)] by simp
  moreover have "ensure_contract (l\<lparr>ld_digest := d\<rparr>) = Inr ()" using l(2) by (simp add: ensure_contract_ok_iff)
  ultimately show ?thesis using get b l by (simp add: load_cached_def)
qed

lemma fetch_published:
  assumes pub: "publishes W E reg reference d" and inv: "store_inv (fe_crypto E) dir" and C: "crypto_ok (fe_crypto E)"
  shows "\<exists>l c dir'. fetch_component E (reg_oci reg) reference dir = (Inr l, dir') \<and> ld_digest l = d \<and>
    store_digest (fe_crypto E) (ld_bytes l) = d \<and> ensure_contract l = Inr () \<and> wl_compile W (ld_bytes l) = Inr c"
proof -
  let ?C = "fe_crypto E"
  obtain r ds blob where served: "oci_resolve (fe_remote E) (reg_oci reg) reference = Inr r"
      "remote_manifest (fe_remote E) (cl_auth (reg_oci reg)) r = Inr (d # ds)"
      "remote_blob (fe_remote E) (cl_auth (reg_oci reg)) r d = Inr blob" and blob: "store_digest ?C blob = d"
    and io: "fe_put_io E = io_success"
    using pub unfolding publishes_def by blast
  have path: "blob_path d = Inr (blob_name ?C blob)" using blob_path_digest [OF C] blob by metis
  note load = load_published [OF pub _ C _ blob]
  show ?thesis
  proof (cases "assoc_get dir (blob_name ?C blob)")
    case (Some b)
    then have "store_contains dir d" by (simp add: store_contains_def path)
    with served load [OF inv Some] show ?thesis by (auto simp: fetch_component_def oci_pull_manifest_def)
  next
    case None
    then have "\<not> store_contains dir d" by (simp add: store_contains_def path)
    define dir' where "dir' = snd (store_put ?C io_success (fe_pid E) blob dir)"
    have put: "store_put ?C io_success (fe_pid E) blob dir = (Inr d, dir')"
      unfolding dir'_def using store_put_success [OF C] blob by simp
    have "assoc_ok dir" using inv by (simp add: store_inv_def)
    then have get: "assoc_get dir' (blob_name ?C blob) = Some blob"
      using None by (simp add: dir'_def store_put_success [OF C] amap.get_insert amap.ok_insert amap.ok_remove)
    have "store_inv ?C dir'" unfolding dir'_def by (rule store_inv_put [OF C inv])
    from load [OF this get] obtain l c where l: "load_cached E reference d dir' = Inr l" "ld_digest l = d"
        "store_digest ?C (ld_bytes l) = d" "ensure_contract l = Inr ()" "wl_compile W (ld_bytes l) = Inr c"
      by blast
    have "verify_digest ?C blob d = Inr ()" by (simp add: verify_digest_ok_iff blob)
    then have "fetch_component E (reg_oci reg) reference dir = (Inr l, dir')"
      using \<open>\<not> store_contains dir d\<close> by (simp add: fetch_component_def oci_pull_manifest_def served io put l(1))
    with l(2-5) show ?thesis by simp
  qed
qed

lemma pull_published:
  assumes "publishes W E reg reference d" "store_inv (fe_crypto E) dir" "crypto_ok (fe_crypto E)"
    and "pin = None \<or> pin = Some d"
  shows "\<exists>l dir'. registry_pull E reg reference pin dir = (Inr l, dir') \<and> ld_digest l = d \<and>
    ensure_contract l = Inr () \<and> (\<forall>now. \<exists>a. activate W now l = Inr a)"
proof -
  from fetch_published [OF assms(1-3)] obtain l c dir' where l:
    "fetch_component E (reg_oci reg) reference dir = (Inr l, dir')" "ld_digest l = d"
    "store_digest (fe_crypto E) (ld_bytes l) = d" "ensure_contract l = Inr ()" "wl_compile W (ld_bytes l) = Inr c"
    by blast
  moreover have "ensure_contract (l\<lparr>ld_digest := d\<rparr>) = Inr ()" using l(4) by (simp add: ensure_contract_ok_iff)
  ultimately show ?thesis
    using assms(4) by (auto simp: registry_pull_def verify_digest_def oci_digest_of_eq activate_def)
qed

lemma apply_swaps:
  assumes rt: "runtime_inv W C rt" and t: "runtime_tenant rt tid = Some t"
    and l: "ensure_contract l = Inr ()" "ld_digest l \<noteq> ac_digest (tn_active t)" "activate W at l = Inr a"
  obtains rt' t' where "poll_apply W at tid (Inr l) rt = (Inr (), rt')" "runtime_tenant rt' tid = Some t'"
    "ac_digest (tn_active t') = ld_digest l"
proof -
  obtain r rt' where app: "poll_apply W at tid (Inr l) rt = (r, rt')" by fastforce
  with t have "r = Inr () \<and> (\<exists>t'. runtime_tenant rt' tid = Some t' \<and> ac_digest (tn_active t') = ld_digest l)"
    by (cases rule: poll_apply_cases)
      (use l runtime_invD(1) [OF rt t] runtime_inv_assoc [OF rt] activate_fields [OF l(3)] in
        \<open>auto simp: put_tenant_lookup\<close>)
  with app that show thesis by blast
qed

lemma snapshot_ids:
  assumes "runtime_inv W C rt" "runtime_tenant rt tid = Some t"
  obtains rest where "distinct (tid # rest)" "set (tid # rest) = tn_id ` set (snapshot_tenants rt)"
proof -
  let ?ids = "map tn_id (snapshot_tenants rt)"
  have "(tid, t) \<in> set (rt_tenants rt)" using assms(2) by (simp add: runtime_tenant_def assoc_get_set)
  then have "t \<in> set (snapshot_tenants rt)" by (force simp: snapshot_tenants_def)
  then have "tid \<in> set ?ids" using runtime_invD(1) [OF assms] by force
  with snapshot_ids_distinct [OF assms(1)] have "distinct (tid # remove1 tid ?ids)"
    "set (tid # remove1 tid ?ids) = set ?ids" by (auto simp: distinct_remove1 set_remove1_eq)
  with that show thesis by simp
qed

text \<open>With no pass in progress: wait for the debounce, start a pass with the tenant first, pull and swap.\<close>

lemma idle_deploys:
  assumes inv: "sys_inv W C s" and up: "\<not> sy_crashed s" and idle: "sy_pass s = None"
    and t: "runtime_tenant (sy_rt s) tid = Some t" "tn_source t = SourceOci reference pin"
    and E: "E \<in> Es" "fe_crypto E = C" "crypto_ok C"
    and pub: "publishes W E (rt_registry (sy_rt s)) reference d" "pin = None \<or> pin = Some d"
    and new: "d \<noteq> ac_digest (tn_active t)"
  shows "\<exists>s' t'. (sys_step W H net os Es)\<^sup>*\<^sup>* s s' \<and> \<not> sy_crashed s' \<and>
    runtime_tenant (sy_rt s') tid = Some t' \<and> ac_digest (tn_active t') = d \<and>
    sy_tickets s' = sy_tickets s \<and> sy_flights s' = sy_flights s"
proof -
  have rt: "runtime_inv W C (sy_rt s)" using inv by (simp add: sys_inv_def)
  define later where "later = max (sy_now s) (tn_last_swap t + debounce (rt_policy (sy_rt s)))"
  have no_pull: "sy_pull s = None" by (rule sys_inv_no_pull [OF inv idle])
  from snapshot_ids [OF rt t(1)] obtain rest where
    ids: "distinct (tid # rest)" "set (tid # rest) = tn_id ` set (snapshot_tenants (sy_rt s))" .
  obtain l dir where pull: "registry_pull E (rt_registry (sy_rt s)) reference pin (rt_dir (sy_rt s)) = (Inr l, dir)"
    "ld_digest l = d" "ensure_contract l = Inr ()" and acts: "\<forall>now. \<exists>a. activate W now l = Inr a"
    using pull_published [OF pub(1) _ _ pub(2), of "rt_dir (sy_rt s)"] runtime_inv_store [OF rt] E by auto
  obtain a where a: "activate W later l = Inr a" using acts by blast
  have "runtime_inv W C ((sy_rt s)\<lparr>rt_dir := dir\<rparr>)" using pull_keeps_store [of W E "sy_rt s"] rt E pull(1) by simp
  from apply_swaps [OF this _ pull(3) _ a, of tid t] t(1) new pull(2) obtain rt' t' where
    app: "poll_apply W later tid (Inr l) ((sy_rt s)\<lparr>rt_dir := dir\<rparr>) = (Inr (), rt')"
    and t': "runtime_tenant rt' tid = Some t'" "ac_digest (tn_active t') = d" by auto
  let ?s1 = "s\<lparr>sy_now := later\<rparr>"
  let ?s2 = "?s1\<lparr>sy_pass := Some (later, tid # rest)\<rparr>"
  let ?s3 = "?s2\<lparr>sy_rt := (sy_rt s)\<lparr>rt_dir := dir\<rparr>, sy_pull := Some (Inr l)\<rparr>"
  have s1: "sys_step W H net os Es s ?s1" by (rule sys_step.time) (use up in \<open>simp_all add: later_def\<close>)
  have s2: "sys_step W H net os Es ?s1 ?s2"
    using sys_step.pass_begin [of ?s1 "tid # rest" W H net os Es] up idle ids by simp
  have "poll_wants later tid (sy_rt s) = Some (reference, pin)"
    using t by (auto simp: poll_wants_Some_iff later_def saturating_duration_since_def)
  then have s3: "sys_step W H net os Es ?s2 ?s3"
    using sys_step.pass_pull [of ?s2 later tid rest reference pin E Es "Inr l" dir W H net os] up no_pull E(1) pull(1) by simp
  let ?s4 = "?s3\<lparr>sy_rt := rt', sy_pass := Some (later, rest), sy_pull := None\<rparr>"
  have "sys_step W H net os Es ?s3 ?s4"
    by (rule sys_step.pass_next [where tid = tid and pulled = "Inr l" and u = "()"]) (use up app in simp_all)
  with s1 s2 s3 have "(sys_step W H net os Es)\<^sup>*\<^sup>* s ?s4" by (meson converse_rtranclp_into_rtranclp r_into_rtranclp)
  moreover have "\<not> sy_crashed ?s4" "runtime_tenant (sy_rt ?s4) tid = Some t'"
    "sy_tickets ?s4 = sy_tickets s" "sy_flights ?s4 = sy_flights s" using up t' by simp_all
  ultimately show ?thesis using t'(2) by blast
qed

section \<open>Properties\<close>

text \<open>C5: The running system implements its specification. From every reachable state, whatever requests,
  guests, cancellations, clocks and registry answers come, what the system does to releases, requests and
  the clock is a run of the specification: requests arrive at the current release, releases move
  only to genuine digests that the source permits, at least the debounce apart, and failed pulls change
  nothing but their count.\<close>

theorem serving_refines_spec:
  assumes "reachable (serving_init W C Es) (serve_step W H net os Es) s" and "(serve_step W H net os Es)\<^sup>*\<^sup>* s s'"
  shows "\<exists>es. spec_run (genuine C) (rt_policy (sy_rt s)) (spec_of s) es (spec_of s')"
  using serving_run [OF assms] by blast

text \<open>The run of the demo system in which its tenant is reloaded.\<close>

lemma demo_swap_run:
  "\<exists>s t'. demo_steps\<^sup>*\<^sup>* demo_system s \<and> sy_now s = 6000000000 \<and> runtime_tenant (sy_rt s) (TenantId ''echo'') = Some t' \<and>
     ac_digest (tn_active t') = store_digest pad_crypto [2]"
proof -
  obtain dir where pulled: "demo_steps\<^sup>*\<^sup>* demo_system (demo_pulled dir)" using demo_pull_steps by blast
  have new: "ld_digest (demo_loaded ''acme/echo:latest'' [2]) \<noteq> ac_digest (tn_active (demo_rt_tenant [1]))"
    unfolding demo_runtime_simps by code_simp
  obtain a where a: "activate unit_wasm 6000000000 (demo_loaded ''acme/echo:latest'' [2]) = Inr a"
    by (simp add: activate_def unit_wasm_def)
  have "sys_inv unit_wasm pad_crypto (demo_pulled dir)"
    using reachable_sys_steps [OF pulled demo_reachable] by (rule serving_inv)
  then have rt: "runtime_inv unit_wasm pad_crypto ((demo_runtime [1])\<lparr>rt_dir := dir\<rparr>)" by (simp add: sys_inv_def)
  from apply_swaps [OF rt _ demo_loaded_contract new a, of "TenantId ''echo''"] obtain rt t' where
    app: "poll_apply unit_wasm 6000000000 (TenantId ''echo'') (Inr (demo_loaded ''acme/echo:latest'' [2]))
      ((demo_runtime [1])\<lparr>rt_dir := dir\<rparr>) = (Inr (), rt)"
    and t': "runtime_tenant rt (TenantId ''echo'') = Some t'"
      "ac_digest (tn_active t') = ld_digest (demo_loaded ''acme/echo:latest'' [2])" by auto
  let ?s = "(demo_pulled dir)\<lparr>sy_rt := rt, sy_pass := Some (6000000000, []), sy_pull := None\<rparr>"
  have "demo_steps (demo_pulled dir) ?s"
    by (rule sys_step.pass_next) (use app in \<open>simp_all add: demo_system_def\<close>)
  with pulled have "demo_steps\<^sup>*\<^sup>* demo_system ?s" by (rule rtranclp.rtrancl_into_rtrancl)
  moreover have "sy_now ?s = 6000000000" "runtime_tenant (sy_rt ?s) (TenantId ''echo'') = Some t'"
    using t'(1) by (simp_all add: demo_system_def)
  moreover have "ac_digest (tn_active t') = store_digest pad_crypto [2]" using t'(2) by (simp add: demo_loaded_def)
  ultimately show ?thesis by blast
qed

theorem serving_refines_spec_witness:
  "\<exists>(s :: (unit, nat) system) es t'. runtime_tenant (sy_rt s) (TenantId ''echo'') = Some t' \<and>
     ac_digest (tn_active t') = store_digest pad_crypto [2] \<and>
     spec_run (genuine pad_crypto) (rt_policy (demo_runtime [1])) (spec_of demo_system) es (spec_of s)"
proof -
  from demo_swap_run obtain s t' where s: "demo_steps\<^sup>*\<^sup>* demo_system s"
    and t': "runtime_tenant (sy_rt s) (TenantId ''echo'') = Some t'" "ac_digest (tn_active t') = store_digest pad_crypto [2]"
    by blast
  from serving_refines_spec [OF demo_reachable sys_serve_steps [OF s]] t'
  have "\<exists>es. spec_run (genuine pad_crypto) (rt_policy (demo_runtime [1])) (spec_of demo_system) es (spec_of s)"
    by (simp add: demo_system_def)
  with t' show ?thesis by blast
qed

text \<open>C28: No swap storm. However often the registry's tags move, between two states of a run the reload
  counter of a tenant grows by at most the number of whole debounce windows since the tenant's last swap
  before the first of them.\<close>

theorem no_swap_storm:
  assumes "reachable (serving_init W C Es) (serve_step W H net os Es) s" and "(serve_step W H net os Es)\<^sup>*\<^sup>* s s'"
    and "runtime_tenant (sy_rt s) tid = Some t" and "0 < debounce (rt_policy (sy_rt s))"
  shows "reload_total (as_str tid) (rt_telemetry (sy_rt s')) \<le>
    reload_total (as_str tid) (rt_telemetry (sy_rt s)) + (sy_now s' - tn_last_swap t) div debounce (rt_policy (sy_rt s))"
proof -
  from serving_run [OF assms(1,2)] obtain es where
    es: "spec_run (genuine C) (rt_policy (sy_rt s)) (spec_of s) es (spec_of s')" .
  let ?r = "release_of (as_str tid) (rt_telemetry (sy_rt s)) t"
  have r: "sp_releases (spec_of s) tid = Some ?r" using assms(3) by (simp add: spec_of_def releases_of_def)
  from spec_run_release [OF es r] obtain r' where r': "sp_releases (spec_of s') tid = Some r'"
    and f: "release_follows (rt_policy (sy_rt s)) (genuine C) ?r (deploys tid es) (sp_now (spec_of s')) r'" by blast
  have "re_swaps r' = reload_total (as_str tid) (rt_telemetry (sy_rt s'))"
    using r' by (auto simp: spec_of_def releases_of_def release_of_def)
  with release_followsD(2) [OF f] spec_run_bounded [OF es r assms(4)] show ?thesis
    by (simp add: release_of_def spec_of_def)
qed

theorem no_swap_storm_witness:
  "\<exists>s t'. demo_steps\<^sup>*\<^sup>* demo_system s \<and> runtime_tenant (sy_rt s) (TenantId ''echo'') = Some t' \<and>
     ac_digest (tn_active t') = store_digest pad_crypto [2] \<and>
     reload_total ''echo'' (rt_telemetry (sy_rt s)) \<le> reload_total ''echo'' (rt_telemetry (demo_runtime [1])) + 1"
proof -
  from demo_swap_run obtain s t' where s: "demo_steps\<^sup>*\<^sup>* demo_system s" "sy_now s = 6000000000"
    and t': "runtime_tenant (sy_rt s) (TenantId ''echo'') = Some t'" "ac_digest (tn_active t') = store_digest pad_crypto [2]"
    by blast
  have "runtime_tenant (sy_rt demo_system) (TenantId ''echo'') = Some (demo_rt_tenant [1])"
    "0 < debounce (rt_policy (sy_rt demo_system))" by (simp_all add: demo_system_def)
  from no_swap_storm [OF demo_reachable sys_serve_steps [OF s(1)] this] s(2)
  have "reload_total ''echo'' (rt_telemetry (sy_rt s)) \<le> reload_total ''echo'' (rt_telemetry (demo_runtime [1])) + 1"
    by (simp add: demo_system_def)
  with s(1) t' show ?thesis by blast
qed

text \<open>C29: A pin or a file is served until an operator changes it. A tenant whose source is a file, or a
  registry reference with a pin, serves the same digest since the same instant in every later state of
  the process, and its reload counter does not move.\<close>

theorem pinned_never_moves:
  assumes "reachable (serving_init W C Es) (serve_step W H net os Es) s" and "(serve_step W H net os Es)\<^sup>*\<^sup>* s s'"
    and "runtime_tenant (sy_rt s) tid = Some t"
    and "(\<exists>path. tn_source t = SourceFile path) \<or> (\<exists>reference pin. tn_source t = SourceOci reference (Some pin))"
  shows "\<exists>t'. runtime_tenant (sy_rt s') tid = Some t' \<and> ac_digest (tn_active t') = ac_digest (tn_active t) \<and>
    tn_last_swap t' = tn_last_swap t \<and>
    reload_total (as_str tid) (rt_telemetry (sy_rt s')) = reload_total (as_str tid) (rt_telemetry (sy_rt s))"
proof -
  from serving_run [OF assms(1,2)] obtain es where
    es: "spec_run (genuine C) (rt_policy (sy_rt s)) (spec_of s) es (spec_of s')" .
  let ?r = "release_of (as_str tid) (rt_telemetry (sy_rt s)) t"
  have r: "sp_releases (spec_of s) tid = Some ?r" using assms(3) by (simp add: spec_of_def releases_of_def)
  have "sys_inv W C s" by (rule serving_inv [OF assms(1)])
  then have "active_ok W C (tn_source t) (tn_active t)"
    using runtime_invD(2) [OF _ assms(3), of W C] by (simp add: sys_inv_def tenant_ok_def)
  then have "d = re_digest ?r" if "permits (re_source ?r) d" for d
    using that assms(4) by (auto simp: release_of_def active_ok_def)
  from spec_run_frozen [OF es r this] have none: "deploys tid es = []" by simp
  from spec_run_release [OF es r] none obtain r' where r': "sp_releases (spec_of s') tid = Some r'"
    and f: "release_follows (rt_policy (sy_rt s)) (genuine C) ?r [] (sp_now (spec_of s')) r'" by auto
  from r' release_followsD(2,3,7) [OF f] show ?thesis
    by (auto simp: spec_of_def releases_of_def release_of_def)
qed

text \<open>The demo tenant, pinned to what it serves.\<close>

definition pinned_tenant :: "(unit, nat) tenant" where
  "pinned_tenant = (demo_rt_tenant [1])
     \<lparr>tn_source := SourceOci ''acme/echo:latest'' (Some (store_digest pad_crypto [1]))\<rparr>"

definition pinned_system :: "(unit, nat) system" where
  "pinned_system = demo_system\<lparr>sy_rt := put_tenant pinned_tenant (demo_runtime [1])\<rparr>"

lemma pinned_tenant_ok: "tenant_ok unit_wasm pad_crypto pinned_tenant"
  using demo_tenant_ok [of "[1]"]
  by (auto simp: tenant_ok_def pinned_tenant_def active_ok_def ctx_of_tenant_def)

lemma pinned_init:
  "serving_init unit_wasm pad_crypto {serve_env (store_digest pad_crypto [2]) [2]} pinned_system"
proof -
  have id: "tn_id pinned_tenant = TenantId ''echo''" "tn_sandbox pinned_tenant = tn_sandbox (demo_rt_tenant [1])"
    by (simp_all add: pinned_tenant_def)
  have "runtime_inv unit_wasm pad_crypto (put_tenant pinned_tenant (demo_runtime [1]))"
    by (rule runtime_inv_update [OF demo_runtime_inv, where tid = "TenantId ''echo''" and t = "demo_rt_tenant [1]"])
      (use id pinned_tenant_ok in simp_all)
  moreover have "quotas_small (put_tenant pinned_tenant (demo_runtime [1]))"
    using demo_serving_init id
    by (auto simp: serving_init_def sys_init_def demo_system_def quotas_small_def put_tenant_lookup)
  ultimately show ?thesis
    using demo_serving_init by (simp add: serving_init_def sys_init_def pinned_system_def demo_system_def)
qed

theorem pinned_never_moves_witness:
  "\<exists>s t'. (serve_step unit_wasm ascii_http (\<lambda>_. Inl ''down'') demo_os
       {serve_env (store_digest pad_crypto [2]) [2]})\<^sup>*\<^sup>* pinned_system s \<and> sy_now s = 7000000000 \<and>
     runtime_tenant (sy_rt s) (TenantId ''echo'') = Some t' \<and> ac_digest (tn_active t') = store_digest pad_crypto [1]"
proof -
  let ?step = "serve_step unit_wasm ascii_http (\<lambda>_. Inl ''down'') demo_os {serve_env (store_digest pad_crypto [2]) [2]}"
  let ?s = "pinned_system\<lparr>sy_now := 7000000000\<rparr>"
  have "?step pinned_system ?s"
    by (intro sys_serve_step sys_step.time) (simp_all add: pinned_system_def demo_system_def)
  then have run: "?step\<^sup>*\<^sup>* pinned_system ?s" by (rule r_into_rtranclp)
  have reach: "reachable (serving_init unit_wasm pad_crypto {serve_env (store_digest pad_crypto [2]) [2]}) ?step pinned_system"
    by (rule reach_init [of "serving_init unit_wasm pad_crypto {serve_env (store_digest pad_crypto [2]) [2]}", OF pinned_init])
  have t: "runtime_tenant (sy_rt pinned_system) (TenantId ''echo'') = Some pinned_tenant"
    "ac_digest (tn_active pinned_tenant) = store_digest pad_crypto [1]"
    "tn_source pinned_tenant = SourceOci ''acme/echo:latest'' (Some (store_digest pad_crypto [1]))"
    by (simp_all add: pinned_system_def put_tenant_lookup pinned_tenant_def)
  from pinned_never_moves [OF reach run t(1)] t(2,3) obtain t' where
    "runtime_tenant (sy_rt ?s) (TenantId ''echo'') = Some t'" "ac_digest (tn_active t') = store_digest pad_crypto [1]" by auto
  with run show ?thesis by (intro exI [of _ ?s] exI [of _ t']) simp
qed

text \<open>C6: Requests finish on the generation they arrived at. Every request in flight runs an instance of the
  component that was active for its tenant in an earlier state of the run, at the instant the request was
  admitted, whatever was deployed since.\<close>

theorem requests_keep_generation:
  assumes "serving_init W C Es s0" and "(serve_step W H net os Es)\<^sup>*\<^sup>* s0 s" and "f \<in> set (sy_flights s)"
  shows "\<exists>s1 t. (serve_step W H net os Es)\<^sup>*\<^sup>* s0 s1 \<and> (serve_step W H net os Es)\<^sup>*\<^sup>* s1 s \<and>
    sy_now s1 = fl_started f \<and> runtime_tenant (sy_rt s1) (fl_tenant f) = Some t \<and> fl_active f = tn_active t \<and>
    pr_digest (fl_prepared f) = ac_digest (tn_active t)"
proof -
  have "sy_tickets s0 = []" "sy_flights s0 = []" using assms(1) by (simp_all add: serving_init_def sys_init_def)
  with requests_were_active [OF assms(2)] assms(3)
  have "was_active (serve_step W H net os Es) s0 s (fl_tenant f) (fl_active f) (fl_started f)" by blast
  moreover have "sys_inv W C s"
    using serve_steps_inv(1) [OF reachable.reach_init [of "serving_init W C Es", OF assms(1)] assms(2)] .
  then have "flight_ok W C (sy_rt s) f" using assms(3) by (simp add: sys_inv_def)
  then have "pr_digest (fl_prepared f) = ac_digest (fl_active f)" by (auto simp: flight_ok_def)
  ultimately show ?thesis unfolding was_active_def by metis
qed

theorem requests_keep_generation_witness:
  "\<exists>(s :: (unit, nat) system) f (s1 :: (unit, nat) system) t. f \<in> set (sy_flights s) \<and> sy_now s1 = fl_started f \<and>
     runtime_tenant (sy_rt s1) (fl_tenant f) = Some t \<and> fl_active f = tn_active t"
proof -
  from caller_in_flight obtain s f where s: "caller_steps\<^sup>*\<^sup>* caller_system s" and "sy_flights s = [f]" by blast
  then have "f \<in> set (sy_flights s)" by simp
  with requests_keep_generation [OF caller_init sys_serve_steps [OF s] this] show ?thesis by blast
qed

text \<open>C30: A registry outage takes no tenant down. From any reachable state in which no pull is pending, while every
  pull fails, every tenant keeps serving the generation it has, whatever else happens, for as long as the
  outage lasts.\<close>

theorem outage_keeps_generations:
  assumes "reachable (serving_init W C Es) (serve_step W H net os Es) s" and "Down \<subseteq> Es"
    and "registry_down Down (rt_registry (sy_rt s))" and "sy_pull s = None"
    and "(serve_step W H net os Down)\<^sup>*\<^sup>* s s'" and "runtime_tenant (sy_rt s) tid = Some t"
  shows "\<exists>t'. runtime_tenant (sy_rt s') tid = Some t' \<and> tn_active t' = tn_active t \<and> tn_last_swap t' = tn_last_swap t"
proof -
  have inv: "sys_inv W C s \<and> crypto_ok C \<and> (\<forall>E\<in>Down. fe_crypto E = C)"
    using serving.reachable_inv [OF assms(1)] assms(2) by blast
  have "pull_is_failure s' \<and>
      (\<exists>t'. runtime_tenant (sy_rt s') tid = Some t' \<and> tn_active t' = tn_active t \<and> tn_last_swap t' = tn_last_swap t)"
    using assms(5)
  proof (induction rule: rtranclp_induct)
    case base
    then show ?case using assms(4,6) by (simp add: pull_is_failure_def)
  next
    case (step s1 s2)
    have i1: "sys_inv W C s1" using serving.inv_rtranclp [OF step.hyps(1) inv] by blast
    have "rt_registry (sy_rt s1) = rt_registry (sy_rt s)" using serve_steps_kept [OF _ _ _ step.hyps(1)] inv by blast
    with assms(3) step.IH step.hyps(2) have "pull_is_failure s2" by (metis pull_is_failure_step)
    moreover from step.IH obtain t1 where "runtime_tenant (sy_rt s1) tid = Some t1" "tn_active t1 = tn_active t"
        "tn_last_swap t1 = tn_last_swap t" by blast
    ultimately show ?case using outage_step [OF i1 _ step.hyps(2)] step.IH by metis
  qed
  then show ?thesis by blast
qed

lemma demo_registry_down: "registry_down {down_env} reg"
  by (auto simp: registry_down_def registry_pull_def fetch_component_def oci_resolve_def oci_pull_manifest_def
      down_env_def serve_env_def serve_blob_def Let_def)

text \<open>A pass over the demo system during an outage.\<close>

lemma demo_outage_run:
  "\<exists>rt t'. (sys_step unit_wasm ascii_http (\<lambda>_. Inl ''down'') demo_os {down_env})\<^sup>*\<^sup>* demo_system
      (demo_system\<lparr>sy_rt := rt, sy_pass := Some (6000000000, [])\<rparr>) \<and>
     runtime_tenant rt (TenantId ''echo'') = Some t' \<and> tn_failures t' = 1"
proof -
  let ?step = "sys_step unit_wasm ascii_http (\<lambda>_. Inl ''down'') demo_os {down_env}"
  let ?s = "demo_system\<lparr>sy_pass := Some (6000000000, [TenantId ''echo''])\<rparr>"
  obtain e dir where pull: "registry_pull down_env (rt_registry (demo_runtime [1])) ''acme/echo:latest'' None
      (rt_dir (demo_runtime [1])) = (Inl e, dir)"
    using demo_registry_down unfolding registry_down_def by (metis insertI1 prod.collapse)
  have zero: "tn_failures (demo_rt_tenant [1]) = 0" by (simp add: demo_rt_tenant_def)
  obtain rt where poll: "poll_tenant unit_wasm down_env 6000000000 6000000000 (TenantId ''echo'') (demo_runtime [1]) = (Inr (), rt)"
    and t': "runtime_tenant rt (TenantId ''echo'') = Some ((demo_rt_tenant [1])\<lparr>tn_failures := 1\<rparr>)"
    using failed_pull_keeps_serving [OF _ _ _ _ _ pull, of "TenantId ''echo''" "demo_rt_tenant [1]" 6000000000 unit_wasm 6000000000]
      zero by (auto simp: saturating_duration_since_def)
  have "?step\<^sup>*\<^sup>* ?s (?s\<lparr>sy_rt := rt, sy_pass := case (Inr () :: unit result) of Inl _ \<Rightarrow> None | Inr _ \<Rightarrow> Some (6000000000, [])\<rparr>)"
    by (rule poll_tenant_steps [where E = down_env and tid = "TenantId ''echo''"])
      (use poll in \<open>simp_all add: demo_system_def\<close>)
  then have "?step\<^sup>*\<^sup>* ?s (demo_system\<lparr>sy_rt := rt, sy_pass := Some (6000000000, [])\<rparr>)" by simp
  with demo_pass_begins have "?step\<^sup>*\<^sup>* demo_system (demo_system\<lparr>sy_rt := rt, sy_pass := Some (6000000000, [])\<rparr>)"
    by (rule converse_rtranclp_into_rtranclp)
  with t' show ?thesis by fastforce
qed

theorem outage_keeps_generations_witness:
  "\<exists>(s :: (unit, nat) system) t'. runtime_tenant (sy_rt s) (TenantId ''echo'') = Some t' \<and> tn_failures t' = 1 \<and>
     tn_active t' = tn_active (demo_rt_tenant [1])"
proof -
  have "serving_init unit_wasm pad_crypto {down_env} demo_system"
    using demo_serving_init by (simp add: serving_init_def down_env_def serve_env_def)
  then have reach: "reachable (serving_init unit_wasm pad_crypto {down_env})
      (serve_step unit_wasm ascii_http (\<lambda>_. Inl ''down'') demo_os {down_env}) demo_system"
    by (rule reach_init [of "serving_init unit_wasm pad_crypto {down_env}"])
  from demo_outage_run obtain rt t' where run: "(sys_step unit_wasm ascii_http (\<lambda>_. Inl ''down'') demo_os {down_env})\<^sup>*\<^sup>*
      demo_system (demo_system\<lparr>sy_rt := rt, sy_pass := Some (6000000000, [])\<rparr>)"
    and t': "runtime_tenant rt (TenantId ''echo'') = Some t'" "tn_failures t' = 1" by blast
  have "sy_pull demo_system = None" "runtime_tenant (sy_rt demo_system) (TenantId ''echo'') = Some (demo_rt_tenant [1])"
    by (simp_all add: demo_system_def)
  from outage_keeps_generations [OF reach order_refl demo_registry_down this(1) sys_serve_steps [OF run] this(2)] t'
  have "tn_active t' = tn_active (demo_rt_tenant [1])" by simp
  with t' show ?thesis by (intro exI [of _ "demo_system\<lparr>sy_rt := rt\<rparr>"] exI [of _ t']) simp
qed

text \<open>C7: A new release can be deployed without a restart. From every reachable state that is not crashed, whatever
  pass is in progress and whatever requests are waiting or in flight, if the registry publishes a release the
  tenant's source permits, the system can come to serve it, with all those requests still there.\<close>

theorem release_can_be_deployed:
  assumes "reachable (serving_init W C Es) (serve_step W H net os Es) s" and "\<not> sy_crashed s"
    and "runtime_tenant (sy_rt s) tid = Some t" and "tn_source t = SourceOci reference pin"
    and "E \<in> Es" and "publishes W E (rt_registry (sy_rt s)) reference d" and "pin = None \<or> pin = Some d"
  shows "\<exists>s' t'. (sys_step W H net os Es)\<^sup>*\<^sup>* s s' \<and> \<not> sy_crashed s' \<and>
    runtime_tenant (sy_rt s') tid = Some t' \<and> ac_digest (tn_active t') = d \<and>
    sy_tickets s' = sy_tickets s \<and> sy_flights s' = sy_flights s"
proof -
  have inv: "sys_inv W C s \<and> crypto_ok C \<and> (\<forall>E\<in>Es. fe_crypto E = C)" using serving.reachable_inv [OF assms(1)] .
  then obtain rt where pass: "(sys_step W H net os Es)\<^sup>*\<^sup>* s (s\<lparr>sy_rt := rt, sy_pass := None, sy_pull := None\<rparr>)"
    using pass_completes [OF _ assms(2,5)] by blast
  let ?s = "s\<lparr>sy_rt := rt, sy_pass := None, sy_pull := None\<rparr>"
  have inv1: "sys_inv W C ?s" by (rule serve_steps_inv(1) [OF assms(1) sys_serve_steps [OF pass]])
  have kept: "static_view rt = static_view (sy_rt s)" "rt_registry rt = rt_registry (sy_rt s)"
    using serve_steps_kept [of W C s Es H net os ?s] sys_serve_steps [OF pass] inv by simp_all
  from static_viewD [OF kept(1) assms(3)] obtain t1 where
    t1: "runtime_tenant (sy_rt ?s) tid = Some t1" "tn_source t1 = SourceOci reference pin"
    using assms(4) by (auto simp: tenant_static_def)
  show ?thesis
  proof (cases "d = ac_digest (tn_active t1)")
    case True
    with pass t1(1) assms(2) show ?thesis by (intro exI [of _ ?s] exI [of _ t1]) simp
  next
    case False
    have pub: "publishes W E (rt_registry (sy_rt ?s)) reference d" using assms(6) kept(2) by simp
    have "fe_crypto E = C" "crypto_ok C" using inv assms(5) by simp_all
    from idle_deploys [OF inv1 _ _ t1 assms(5) this pub assms(7) False, of H net os] assms(2)
    obtain s' t' where "(sys_step W H net os Es)\<^sup>*\<^sup>* ?s s'" "\<not> sy_crashed s'" "runtime_tenant (sy_rt s') tid = Some t'"
      "ac_digest (tn_active t') = d" "sy_tickets s' = sy_tickets s" "sy_flights s' = sy_flights s" by auto
    with rtranclp_trans [OF pass] show ?thesis by blast
  qed
qed

lemma demo_publishes:
  "publishes unit_wasm (serve_env (store_digest pad_crypto blob) blob) (rt_registry (demo_runtime [1]))
     ''acme/echo:latest'' (store_digest pad_crypto blob)"
  by (simp add: publishes_def serve_env_def serve_blob_def oci_resolve_def Let_def from_bytes_def handler_wasm_def
      ensure_contract_ok_iff contract_ok_iff unit_wasm_def)

theorem release_can_be_deployed_witness:
  "\<exists>s' t'. demo_steps\<^sup>*\<^sup>* demo_system s' \<and> runtime_tenant (sy_rt s') (TenantId ''echo'') = Some t' \<and>
     ac_digest (tn_active t') = store_digest pad_crypto [2]"
proof -
  have "\<not> sy_crashed demo_system" "runtime_tenant (sy_rt demo_system) (TenantId ''echo'') = Some (demo_rt_tenant [1])"
    by (simp_all add: demo_system_def)
  from release_can_be_deployed [OF demo_reachable this, of "''acme/echo:latest''" None
      "serve_env (store_digest pad_crypto [2]) [2]" "store_digest pad_crypto [2]"] demo_publishes [of "[2]"]
  show ?thesis by (auto simp: demo_system_def)
qed

end
