(* ===== verification/Spec2Isabelle.thy ===== *)
theory Spec2Isabelle
  imports Repository_Tests Serving_Refinement
begin

text \<open>
  \<^bold>\<open>Ember, an edge runtime for WebAssembly components: a verification library\<close>

  \<^bold>\<open>The program.\<close> Ember (crate \<open>ember\<close>, sources under \<open>src/src\<close>) serves HTTP requests with WebAssembly
  components, one per tenant. The binary reads a TOML configuration, builds one Wasmtime engine and, for
  every configured tenant, a sandbox, an outbound HTTP bridge with the tenant's egress policy, and the
  tenant's component, fetched from an OCI registry through a content-addressed store or read from a
  file. The ingress hands a request for \<open>/<tenant>/...\<close> to the runtime, which takes a prepared instance
  from the tenant's pool, or makes one, and calls the guest's handler under a wall-clock and an epoch
  budget. A background loop re-resolves the registry references and swaps a tenant's active component when
  its digest has moved.

  \<^bold>\<open>Theories and sources,\<close> bottom up; a theory imports the ones it calls.

  \<^item> \<open>Ember_Prelude\<close>: words, strings and \<open>str\<close> methods, association lists with the locale \<open>keyed_map\<close>,
    reachability with the locale \<open>transition_invariant\<close>, runs with the locale \<open>refinement_mapping\<close>, durations and
    instants.
  \<^item> \<open>Ember_Error\<close> (\<open>error.rs\<close>): the error enum, its text and status.
  \<^item> \<open>Tenant_Id\<close> (\<open>TenantId\<close> of \<open>runtime.rs\<close>): accepted ids are safe path segments.
  \<^item> \<open>Egress_Policy\<close> (\<open>http/bridge.rs\<close>, rules): what wildcard, literal and qualified rules admit.
  \<^item> \<open>Http_Bridge\<close> (\<open>http/bridge.rs\<close>, client): the checks between a guest's request and the network.
  \<^item> \<open>Sandbox\<close> (\<open>wasi/sandbox.rs\<close>): limits and the scratch filesystem, with its 64-bit accounting refined
    to natural numbers and its contract as the locale \<open>quota_store\<close>.
  \<^item> \<open>Content_Store\<close> (\<open>registry/store.rs\<close>): the store with failing I/O, the interleaved \<open>put\<close> as the step
    relation \<open>cas_step\<close>, its contract as the locale \<open>blob_store\<close>, pins, and the reload policy.
  \<^item> \<open>Component_Loader\<close> (\<open>component/loader.rs\<close>) and \<open>Oci_Registry\<close> (\<open>registry/oci.rs\<close>, \<open>registry.rs\<close>):
    validation and contract; resolution, fetch, verification and pinned pull, as the locale
    \<open>component_source\<close>.
  \<^item> \<open>Socket_Addr\<close> (the standard library's address parser), \<open>Ember_Config\<close> (\<open>config.rs\<close>: defaults, sizes,
    overrides, validation, loading) and \<open>Config_Decode\<close> (the derived \<open>Deserialize\<close> implementations of
    \<open>config.rs\<close> and \<open>SandboxLimits\<close> over TOML trees, with an encoder).
  \<^item> \<open>Ember_Telemetry\<close> (\<open>telemetry.rs\<close>): metrics as a list of samples.
  \<^item> \<open>Host_Linker\<close> (\<open>component/linker.rs\<close>, \<open>wasi.rs\<close>): the context of an instance, its imports, and
    the conversion of requests and responses.
  \<^item> \<open>Instance_Pool\<close> (\<open>runtime/engine.rs\<close>, pool of \<open>runtime/invoke.rs\<close>): engine settings and the pool, as
    the locale \<open>prepared_store\<close>.
  \<^item> \<open>Ember_Runtime\<close> (\<open>runtime.rs\<close>): assembly, tenant activation, reload pass, and the runtime invariant.
  \<^item> \<open>Invocation\<close> (\<open>runtime/invoke.rs\<close>): one invocation, as admission, acquisition of an instance, guest
    calls and completion.
  \<^item> \<open>Serving_System\<close>: the running system as the step relation \<open>serve_step\<close> of overlapping requests, guest calls,
    completions, cancellations, time, epochs and reload steps, with its invariant.
  \<^item> \<open>Serving_Spec\<close> (the promises of \<open>docs/design/hot-reload.md\<close>): releases, requests and how they may change, as
    the labelled step relation \<open>spec_step\<close>, and what follows for its runs. \<open>Serving_Refinement\<close>: the running system
    implements it, by the mapping \<open>spec_of\<close> and an interpretation of \<open>refinement_mapping\<close>, and what this gives for
    runs of the system.
  \<^item> \<open>Http_Ingress\<close> (\<open>http/ingress.rs\<close>): handlers, dispatch and error rendering over the locale
    \<open>dispatcher\<close> (the trait \<open>Dispatcher\<close>), interpreted on \<open>invoke\<close>; the router table, \<open>serve\<close> and the shutdown signal.
  \<^item> \<open>Ember_Main\<close> (\<open>main.rs\<close>): the binary. \<open>Ember_Examples\<close> (\<open>src/examples\<close>): the example programs.
  \<^item> \<open>Repository_Tests\<close> (the \<open>#[cfg(test)]\<close> modules and most of \<open>src/tests\<close>): the repository's tests as
    definitions, all shown to hold of the model; the mock dispatcher of the integration tests is a second
    interpretation of \<open>dispatcher\<close>.
  \<^item> This theory: the property from command line to every reachable state.

  \<^bold>\<open>How code is represented.\<close> A struct is a record, an enum a datatype, \<open>usize\<close> and \<open>u64\<close> are 64-bit
  words (a 64-bit target), \<open>Result\<close> is a sum with the error on the left, and a function that may panic
  returns an \<open>outcome\<close>. Strings are lists of characters that stand for the bytes. Hash maps are association
  lists with distinct keys. Cells behind \<open>Arc\<close> are the fields of the owning record, except the scratch
  filesystems, which sandbox clones share: these live in a heap and a sandbox holds an index into it. Every
  operation returns the state it leaves also when it fails.

  \<^bold>\<open>Parameters.\<close> What is not in the repository is an argument: the hash and hexadecimal encoding (\<open>crypto\<close>),
  the wasm validator and decoder, the remote registry, Wasmtime with the guests (\<open>wasm_lib\<close>), the \<open>http\<close>
  crate (\<open>http_lib\<close>), the network client, file-system calls, environment, clock, the TOML parser, axum and
  tower (\<open>ingress_lib\<close>, \<open>listener_os\<close>), and the outcome of each I/O call. Theorems that rely on documented behaviour
  name it as \<open>crypto_ok\<close> (a hash has 32 bytes and its encoding is lower-case hexadecimal digits; nothing
  asks for the absence of collisions), \<open>http_lib_ok\<close> or \<open>ingress_lib_ok\<close>; each is shown to be satisfiable by a concrete instance that
  the witnesses use.

  \<^bold>\<open>What is shown.\<close> (1) Supply chain: what is fetched, stored and run has the digest it is recorded under,
  and a pin decides; the store survives failures and crashes of a single writer. (2) Isolation: in every
  reachable state tenants share no scratch storage, stay within their quotas, pools and budgets, and run with
  their own context; whatever a guest calls, it affects only its own. (3) Egress: a request reaches the
  HTTP client only if the tenant's policy admits its host. (4) Hot reload: when exactly a component is replaced,
  that other tenants and requests in flight are unaffected, and that a pass ends; every run of the system is a run
  of the design's specification, so swaps are bounded by the debounce windows, pinned tenants never move, and
  requests finish on the generation they arrived at; an outage changes no generation, and a published release can
  be deployed from every state without losing a request. (5) Invocation: what is
  counted, that the sequential function is a run of the concurrent system, and that no request is stuck,
  even if none is cancelled.
  (6) Boundary: which configurations, sizes, artifacts, ids and requests are accepted, what each error becomes,
  that a configuration file is loaded as the configuration it spells out, and that the ingress delivers requests
  unchanged. (7) Conformance: the model passes the repository's tests, and the example programs behave as
  described. Several theorems state behaviour that differs from
  comments or intent: overlapping puts, expired warm instances, a guest status that aborts the process, a
  refused artifact that ends a pass, pins that cannot be satisfied, misspelt limits that are ignored, parked tenants
  that are still polled, an example that never parks.

  \<^bold>\<open>Bounds and termination.\<close> No definition uses fuel: loops are structural recursion over the list they
  walk, and the address parser has a measure. The invariants of the running system ask for scratch quotas
  below \<open>2^62\<close> bytes, and guest buffers have 32-bit lengths, as the component ABI has them; together they keep
  the signed 64-bit accounting of the scratch filesystem exact. A guest that never returns is \<open>GStall\<close>, ended by
  its budget.

  \<^bold>\<open>Granularity.\<close> In \<open>sys_step\<close> the part of \<open>invoke\<close> up to the wait for an instance, the acquisition under the
  pool's lock, each import call, the part after the guest call, and, for each tenant of a reload pass, the pull and what
  the pass does with its result are single steps, so a reload can come between the snapshot of the active component and
  the instance or between any two calls of a guest, and requests can come and go between a tenant's pull and its swap. The
  lock, the atomic swap and the fact that only the reload pass writes the fields it reads justify this. A request
  may be dropped (\<open>cancel_step\<close>) while it waits or runs; the wall-clock budget starts with the guest call.

  \<^bold>\<open>Not modelled.\<close> Route matching and the effect of the tower layers (request ids, tracing, the length of the ingress
  timeout, the concurrency limit), the accept loop of axum after a shutdown signal, the tracing output of the host, the \<open>Debug\<close> formatters, redirects that
  the HTTP client follows, WASI calls of a guest other than its HTTP and Ember imports, memory limits
  inside Wasmtime, the generated bindings, the reading of a
  struct from a TOML array, benches, and tests that exercise only third-party code. All of this is behaviour of code
  outside the repository or output without effect on the state; the other lines that no definition models are imports,
  module declarations, comments and accessors that return one field, for which the record fields stand.
\<close>

section \<open>From the command line to every reachable state\<close>

text \<open>The limits of a tenant of a validated configuration, as the running tenant has them.\<close>

lemma configured_limits:
  assumes "config_ok c" "cfg \<in> set (cfg_tenants c)" "tenant_from cfg t"
  shows "lim_max_memory_bytes (sb_limits (tn_sandbox t)) \<le> eng_max_memory_bytes (cfg_engine c)"
    and "max 1 (unat (lim_max_instances (sb_limits (tn_sandbox t)))) \<le> unat (eng_max_instances (cfg_engine c))"
proof -
  have within: "tenant_within (cfg_engine c) cfg" using assms(1,2) by (auto simp: config_ok_def list_all_iff)
  then have "lim_max_instances (tc_limits cfg) \<noteq> 0"
    by (simp add: tenant_within_def limits_validate_ok_iff)
  then have "0 < unat (lim_max_instances (tc_limits cfg))" by (simp add: unat_gt_0)
  with within assms(3)
  show "lim_max_memory_bytes (sb_limits (tn_sandbox t)) \<le> eng_max_memory_bytes (cfg_engine c)"
    and "max 1 (unat (lim_max_instances (sb_limits (tn_sandbox t)))) \<le> unat (eng_max_instances (cfg_engine c))"
    by (simp_all add: tenant_within_def tenant_from_def word_le_nat_alt)
qed

text \<open>What the invariant gives for a running tenant of a validated configuration.\<close>

lemma configured_tenant:
  assumes rt: "runtime_inv W C rt" and c: "config_ok c" and t: "runtime_tenant rt tid = Some t"
    and "\<exists>cfg\<in>set (cfg_tenants c). tenant_from cfg t"
  shows "(\<exists>cfg\<in>set (cfg_tenants c). tenant_from cfg t \<and>
       (\<forall>reference pin. tc_component cfg = SourceOci reference (Some pin) \<longrightarrow> ac_digest (tn_active t) = pin)) \<and>
    store_digest C (ld_bytes (ac_loaded (tn_active t))) = ac_digest (tn_active t) \<and>
    lim_max_memory_bytes (sb_limits (tn_sandbox t)) \<le> eng_max_memory_bytes (cfg_engine c) \<and>
    length (pool_inner (tn_pool t)) \<le> unat (eng_max_instances (cfg_engine c)) \<and>
    unat (used (hw_heap (rt_world rt) ! sb_scratch (tn_sandbox t))) \<le>
      unat (lim_memfs_quota_bytes (sb_limits (tn_sandbox t)))"
proof -
  from assms(4) obtain cfg where cfg: "cfg \<in> set (cfg_tenants c)" "tenant_from cfg t" by blast
  note ok = runtime_invD [OF rt t]
  have "active_ok W C (tn_source t) (tn_active t)" using ok(2) by (simp add: tenant_ok_def)
  then have pin: "\<forall>reference pin. tc_component cfg = SourceOci reference (Some pin) \<longrightarrow> ac_digest (tn_active t) = pin"
    and digest: "store_digest C (ld_bytes (ac_loaded (tn_active t))) = ac_digest (tn_active t)"
    using cfg(2) by (auto simp: active_ok_def loaded_ok_def tenant_from_def)
  have "length (pool_inner (tn_pool t)) \<le> unat (eng_max_instances (cfg_engine c))"
    using tenant_ok_pool_bound [OF ok(2)] configured_limits(2) [OF c cfg] by linarith
  with cfg pin digest configured_limits(1) [OF c cfg] scratch_ok_usage(2) [OF ok(3)] show ?thesis by blast
qed

text \<open>C1: From start-up to every reachable state. Suppose the binary got as far as serving. Then in every
  state the running system can reach, whatever clients, guests and the registry do, exactly the
  configured tenants are served, each with its configured source, limits and settings; the active
  component of each has the digest of its bytes, which is the configured pin where there is one;
  its memory ceiling and its pool of instances are within the engine's budget; and its scratch
  storage is within its quota. (Quotas below \<open>2^62\<close> bytes.)\<close>

theorem startup_to_serving:
  assumes "ember_main W be me args = MainServe c rt"
    and "crypto_ok C" and "store_inv C (be_existing be)"
    and "\<And>n. fe_crypto (be_fetch be n) = C" and "\<forall>E\<in>Es. fe_crypto E = C"
    and "\<forall>cfg\<in>set (cfg_tenants c). unat (lim_memfs_quota_bytes (tc_limits cfg)) < 2 ^ 62"
    and "reachable (\<lambda>s. s = initial_system rt now) (serve_step W H net os Es) s"
  shows "(\<forall>cfg\<in>set (cfg_tenants c). runtime_tenant (sy_rt s) (TenantId (tc_name cfg)) \<noteq> None) \<and>
    (\<forall>tid t. runtime_tenant (sy_rt s) tid = Some t \<longrightarrow>
      (\<exists>cfg\<in>set (cfg_tenants c). tenant_from cfg t \<and>
         (\<forall>reference pin. tc_component cfg = SourceOci reference (Some pin) \<longrightarrow> ac_digest (tn_active t) = pin)) \<and>
      store_digest C (ld_bytes (ac_loaded (tn_active t))) = ac_digest (tn_active t) \<and>
      lim_max_memory_bytes (sb_limits (tn_sandbox t)) \<le> eng_max_memory_bytes (cfg_engine c) \<and>
      length (pool_inner (tn_pool t)) \<le> unat (eng_max_instances (cfg_engine c)) \<and>
      unat (used (hw_heap (rt_world (sy_rt s)) ! sb_scratch (tn_sandbox t))) \<le>
        unat (lim_memfs_quota_bytes (sb_limits (tn_sandbox t))))"
proof -
  from assms(1) obtain tel where load: "config_load (me_read me) (me_toml me) (me_env me) (cli_config args) = Inr c"
    and build: "runtime_build W be tel c = Inr rt" by (rule ember_main_serveD)
  have c: "config_ok c"
    using load config_validate_sound by (auto simp: config_load_def split: sum.splits)
  note tenants = runtime_build_tenants [OF build assms(2-4)]
  have "serving_init W C Es (initial_system rt now)"
    using initial_serving [OF build assms(2-6)] .
  from serving_static [OF this assms(7)]
  have inv: "sys_inv W C s" and view: "static_view (sy_rt s) = static_view rt"
    using serving_inv by (auto simp: initial_system_def)
  have rt: "runtime_inv W C (sy_rt s)" using inv by (simp add: sys_inv_def)
  have from_cfg: "\<exists>cfg\<in>set (cfg_tenants c). tenant_from cfg t" if t: "runtime_tenant (sy_rt s) tid = Some t" for tid t
  proof -
    obtain t0 where "runtime_tenant rt tid = Some t0" "tenant_static t0 = tenant_static t"
      using static_viewD [OF view [symmetric] t] .
    moreover from this(1) tenants(1) obtain cfg where "cfg \<in> set (cfg_tenants c)" "tenant_from cfg t0" by blast
    ultimately show ?thesis by (auto simp: tenant_from_def tenant_static_def)
  qed
  note all = configured_tenant [OF rt c _ from_cfg]
  have "runtime_tenant (sy_rt s) (TenantId (tc_name cfg)) \<noteq> None" if "cfg \<in> set (cfg_tenants c)" for cfg
    using tenants(2) that static_known [OF view] by blast
  with all show ?thesis by blast
qed

definition demo_build_env :: "string build_env" where
  "demo_build_env =
     \<lparr>be_user = None, be_password = None, be_mkdir = None, be_existing = [],
      be_fetch = (\<lambda>_. serve_env (store_digest pad_crypto [1]) [1]), be_read = (\<lambda>_. Inr []),
      be_now = (\<lambda>n. n), be_client = Inr ()\<rparr>"

definition demo_main_env :: "unit main_env" where
  "demo_main_env =
     \<lparr>me_try_new = (\<lambda>_. Inr ()), me_try_init = (\<lambda>_ _. Inr ()), me_install = Inr (),
      me_env = (\<lambda>_. None), me_read = (\<lambda>_. Inr []),
      me_toml = (\<lambda>_. Inr (config_default\<lparr>cfg_tenants := [demo_tenant]\<rparr>))\<rparr>"

definition demo_cli :: cli where
  "demo_cli = \<lparr>cli_config = Some ''ember.toml'', cli_json = False, cli_log_level = None, cli_check = False\<rparr>"

lemma demo_tenant_valid: "validate_tenant demo_tenant = Inr ()"
proof -
  have "valid_tenant_name ''echo''" by code_simp
  then show ?thesis
    by (simp add: validate_tenant_ok_iff demo_tenant_def source_ok_def limits_validate_ok_iff
        sandbox_limits_default_def from_secs_def)
qed

lemma demo_load_tenant:
  assumes "rt_dir rt = []" "validate_tenant cfg = Inr ()" "tc_component cfg = SourceOci reference None"
  shows "\<exists>rt'. load_tenant unit_wasm (Inr ()) (serve_env (store_digest pad_crypto [1]) [1]) read now cfg rt =
    (Inr (), rt')"
proof -
  obtain dir where "fetch_component (serve_env (store_digest pad_crypto [1]) [1]) (reg_oci (rt_registry rt))
      reference [] = (Inr (demo_loaded reference [1]), dir)"
    using demo_fetch by blast
  then have "load_source (serve_env (store_digest pad_crypto [1]) [1]) read (rt_registry rt) (tc_component cfg) (rt_dir rt) =
      (Inr (demo_loaded reference [1]), dir)"
    by (simp add: assms load_source_def registry_pull_def)
  moreover have "tenant_new (tc_name cfg) = Inr (TenantId (tc_name cfg))" "limits_validate (tc_limits cfg) = Inr ()"
    using assms(2) by (simp_all add: validate_tenant_ok_iff tenant_new_ok_iff)
  ultimately show ?thesis
    by (simp add: load_tenant_def sandbox_new_def bridge_new_def client_builder_bridge_def
        demo_loaded_contract activate_def unit_wasm_def Let_def)
qed

lemma demo_build:
  assumes cfgs: "cfg_tenants c = [cfg]" and cfg: "validate_tenant cfg = Inr ()" "tc_component cfg = SourceOci reference None"
  shows "\<exists>rt. runtime_build unit_wasm demo_build_env tel c = Inr rt"
proof -
  obtain br where br: "bridge_new (be_client demo_build_env) egress_policy_default (hc_max_body_bytes (cfg_http c)) = Inr br"
    by (simp add: bridge_new_ok_iff demo_build_env_def)
  obtain reg where reg: "registry_new
           \<lparr>oc_endpoint = rc_endpoint (cfg_registry c), oc_insecure = rc_insecure (cfg_registry c),
            oc_cache_dir = rc_cache_dir (cfg_registry c),
            oc_manifest_cache_ttl = pull_interval (cfg_registry c)\<rparr>
           (reload_policy_of (cfg_registry c)) (be_user demo_build_env) (be_password demo_build_env)
           (be_mkdir demo_build_env) (be_existing demo_build_env) = Inr (reg, [])"
    by (simp add: registry_new_def oci_client_new_def store_open_def demo_build_env_def Let_def)
  have "rt_dir (initial_runtime br reg [] tel c) = []" by (simp add: initial_runtime_def)
  from demo_load_tenant [OF this cfg] obtain rt' where
    "load_tenant unit_wasm (Inr ()) (serve_env (store_digest pad_crypto [1]) [1]) (be_read demo_build_env)
      (be_now demo_build_env 0) cfg (initial_runtime br reg [] tel c) = (Inr (), rt')" by blast
  then have "load_tenants unit_wasm demo_build_env 0 (cfg_tenants c) (initial_runtime br reg [] tel c) = (Inr (), rt')"
    by (simp add: cfgs) (simp add: demo_build_env_def)
  moreover have "engine_build unit_wasm b = Inr ()" "build_linker unit_wasm = Inr ()" for b
    by (simp_all add: engine_build_def build_linker_def unit_wasm_def)
  ultimately show ?thesis using br reg by (simp add: runtime_build_def)
qed

lemma demo_main:
  "\<exists>c rt. ember_main unit_wasm demo_build_env demo_main_env demo_cli = MainServe c rt \<and>
     cfg_tenants c = clamp_tenants engine_config_default [demo_tenant]"
proof -
  define c where "c = config_default\<lparr>cfg_tenants := clamp_tenants engine_config_default [demo_tenant]\<rparr>"
  have load: "config_load (me_read demo_main_env) (me_toml demo_main_env) (me_env demo_main_env)
      (cli_config demo_cli) = Inr c"
    by (simp add: config_load_def demo_main_env_def demo_cli_def apply_env_def config_validate_ok_iff
        demo_tenant_valid config_default_def engine_config_default_def c_def)
  obtain cfg where cfgs: "cfg_tenants c = [cfg]" and cfg: "validate_tenant cfg = Inr ()"
      "tc_component cfg = SourceOci ''ghcr.io/acme/echo:latest'' None"
  proof -
    let ?cfg = "demo_tenant\<lparr>tc_limits := clamp_to (eng_max_memory_bytes engine_config_default)
        (eng_max_instances engine_config_default) (tc_limits demo_tenant)\<rparr>"
    have "validate_tenant ?cfg = Inr ()"
      using demo_tenant_valid
      by (simp add: validate_tenant_ok_iff clamp_to_validate engine_config_default_def)
    moreover have "tc_component ?cfg = SourceOci ''ghcr.io/acme/echo:latest'' None" by (simp add: demo_tenant_def)
    ultimately show thesis using that [of ?cfg] by (simp add: c_def clamp_tenants_def)
  qed
  from demo_build [OF cfgs cfg] obtain rt where
    "runtime_build unit_wasm demo_build_env (telemetry_empty\<lparr>tl_installed := True\<rparr>) c = Inr rt"
    by blast
  moreover have "telemetry_init (me_try_new demo_main_env) (me_try_init demo_main_env) (me_install demo_main_env)
      (me_env demo_main_env) (cli_log_level demo_cli) (cli_json demo_cli) telemetry_empty =
      (Inr (), telemetry_empty\<lparr>tl_installed := True\<rparr>)"
    by (simp add: telemetry_init_def demo_main_env_def install_recorder_def telemetry_empty_def Let_def)
  moreover have "\<not> cli_check demo_cli" by (simp add: demo_cli_def)
  ultimately have "ember_main unit_wasm demo_build_env demo_main_env demo_cli = MainServe c rt"
    using load by (simp add: ember_main_def)
  then show ?thesis by (auto simp: c_def)
qed

theorem startup_to_serving_witness:
  "\<exists>c rt. ember_main unit_wasm demo_build_env demo_main_env demo_cli = MainServe c rt \<and>
     runtime_tenant rt (TenantId ''echo'') \<noteq> None"
proof -
  obtain c rt where main: "ember_main unit_wasm demo_build_env demo_main_env demo_cli = MainServe c rt"
    and cfgs: "cfg_tenants c = clamp_tenants engine_config_default [demo_tenant]"
    using demo_main by blast
  let ?s = "initial_system rt 0"
  have "store_inv pad_crypto (be_existing demo_build_env)"
    and "fe_crypto (be_fetch demo_build_env n) = pad_crypto" for n
    by (simp_all add: demo_build_env_def store_inv_empty serve_env_def)
  moreover have "\<forall>cfg\<in>set (cfg_tenants c). unat (lim_memfs_quota_bytes (tc_limits cfg)) < 2 ^ 62"
    by (simp add: cfgs clamp_tenants_def clamp_to_def demo_tenant_def sandbox_limits_default_def)
  moreover have "reachable (\<lambda>s. s = ?s)
      (serve_step unit_wasm ascii_http (\<lambda>_. Inl ''down'') demo_os ({} :: string fetch_env set)) ?s"
    by (rule reach_init) simp
  ultimately have "\<forall>cfg\<in>set (cfg_tenants c). runtime_tenant (sy_rt ?s) (TenantId (tc_name cfg)) \<noteq> None"
    using startup_to_serving [OF main pad_crypto_ok, of "{}"] by blast
  moreover have "\<exists>cfg\<in>set (cfg_tenants c). tc_name cfg = ''echo''"
    by (simp add: cfgs clamp_tenants_def demo_tenant_def)
  ultimately show ?thesis using main by (auto simp: initial_system_def)
qed

end
